theory Spec2Isabelle
  imports Complex_Main
begin

section \<open>JavaScript numbers\<close>

text \<open>
  The calculator computes with JavaScript numbers, IEEE 754 doubles. A number is one of the
  special values \<open>NaN\<close>, \<open>-Infinity\<close>, \<open>Infinity\<close> or a finite value \<open>Fin x\<close>; the reals that
  occur as \<open>x\<close> in a run of the script are doubles. Zero carries no sign; a zero divisor is
  read as \<open>+0\<close>, which is what the sums \<open>theta_i + beta\<close> that the script divides by are when
  they cancel.
\<close>

datatype jsnum = NaN | NegInf | Fin real | PosInf

fun isNaN :: "jsnum \<Rightarrow> bool" where
  "isNaN NaN = True"
| "isNaN _ = False"

text \<open>\<open>a <= b\<close> and \<open>a < b\<close>; every comparison with \<open>NaN\<close> is false.\<close>

fun js_le :: "jsnum \<Rightarrow> jsnum \<Rightarrow> bool" where
  "js_le NaN _ = False"
| "js_le _ NaN = False"
| "js_le NegInf _ = True"
| "js_le _ PosInf = True"
| "js_le (Fin x) (Fin y) = (x \<le> y)"
| "js_le (Fin x) NegInf = False"
| "js_le PosInf _ = False"

fun js_lt :: "jsnum \<Rightarrow> jsnum \<Rightarrow> bool" where
  "js_lt NaN _ = False"
| "js_lt _ NaN = False"
| "js_lt PosInf _ = False"
| "js_lt _ NegInf = False"
| "js_lt (Fin x) (Fin y) = (x < y)"
| "js_lt NegInf _ = True"
| "js_lt (Fin x) PosInf = True"

text \<open>\<open>a > b\<close> and \<open>a >= b\<close>.\<close>

definition js_gt :: "jsnum \<Rightarrow> jsnum \<Rightarrow> bool" where
  "js_gt a b = js_lt b a"

definition js_ge :: "jsnum \<Rightarrow> jsnum \<Rightarrow> bool" where
  "js_ge a b = js_le b a"

subsection \<open>Rounding\<close>

text \<open>
  Every arithmetic operation rounds. What it rounds to is a parameter of the model, the
  floating-point unit: \<open>rnd\<close> takes the exact real result of \<open>+\<close>, \<open>-\<close>, \<open>*\<close>, \<open>/\<close> on two
  finite numbers, and the exact value of a decimal literal, to the number that is stored
  (a finite double, or an infinity on overflow); \<open>flog\<close>, \<open>fpow\<close> and \<open>fsqrt\<close> are what
  \<open>Math.log\<close>, \<open>**\<close> / \<open>Math.pow\<close> and \<open>Math.sqrt\<close> return on finite arguments in their domain
  (the language leaves their last bits to the engine). The functions of the script take the
  unit as their first argument, and a statement proved for every unit holds for the
  doubles of any engine.
\<close>

record fpu =
  rnd :: "real \<Rightarrow> jsnum"
  flog :: "real \<Rightarrow> jsnum"
  fpow :: "real \<Rightarrow> nat \<Rightarrow> jsnum"
  fsqrt :: "real \<Rightarrow> jsnum"

text \<open>
  A decimal literal that is not a double (\<open>0.7\<close>, \<open>0.61\<close>, \<open>1e-3\<close>) denotes the double next to
  it. Integers and halves (\<open>90\<close>, \<open>250\<close>, \<open>1000\<close>, \<open>234.5\<close>) are doubles and are written \<open>Fin\<close>.
\<close>

definition literal :: "fpu \<Rightarrow> real \<Rightarrow> jsnum" where
  "literal fp x = rnd fp x"

fun js_neg :: "jsnum \<Rightarrow> jsnum" where
  "js_neg NaN = NaN"
| "js_neg NegInf = PosInf"
| "js_neg (Fin x) = Fin (- x)"
| "js_neg PosInf = NegInf"

fun js_add :: "fpu \<Rightarrow> jsnum \<Rightarrow> jsnum \<Rightarrow> jsnum" where
  "js_add fp NaN _ = NaN"
| "js_add fp _ NaN = NaN"
| "js_add fp (Fin x) (Fin y) = rnd fp (x + y)"
| "js_add fp PosInf NegInf = NaN"
| "js_add fp NegInf PosInf = NaN"
| "js_add fp PosInf _ = PosInf"
| "js_add fp NegInf _ = NegInf"
| "js_add fp (Fin x) b = b"

definition js_sub :: "fpu \<Rightarrow> jsnum \<Rightarrow> jsnum \<Rightarrow> jsnum" where
  "js_sub fp a b = js_add fp a (js_neg b)"

text \<open>The sign of a non-\<open>NaN\<close> number: \<open>-1\<close>, \<open>0\<close> or \<open>1\<close>.\<close>

fun js_sign :: "jsnum \<Rightarrow> real" where
  "js_sign (Fin x) = sgn x"
| "js_sign PosInf = 1"
| "js_sign NegInf = - 1"
| "js_sign NaN = 0"

definition signed_inf :: "real \<Rightarrow> jsnum" where
  "signed_inf s = (if s = 0 then NaN else if 0 < s then PosInf else NegInf)"

fun js_mul :: "fpu \<Rightarrow> jsnum \<Rightarrow> jsnum \<Rightarrow> jsnum" where
  "js_mul fp NaN _ = NaN"
| "js_mul fp _ NaN = NaN"
| "js_mul fp (Fin x) (Fin y) = rnd fp (x * y)"
| "js_mul fp a b = signed_inf (js_sign a * js_sign b)"

fun js_div :: "fpu \<Rightarrow> jsnum \<Rightarrow> jsnum \<Rightarrow> jsnum" where
  "js_div fp NaN _ = NaN"
| "js_div fp _ NaN = NaN"
| "js_div fp (Fin x) (Fin y) = (if y = 0 then signed_inf x else rnd fp (x / y))"
| "js_div fp (Fin x) _ = Fin 0"
| "js_div fp a (Fin y) = (if y < 0 then js_neg a else a)"
| "js_div fp _ _ = NaN"

text \<open>\<open>x ** n\<close> and \<open>Math.pow(x, n)\<close> for a natural exponent.\<close>

fun js_pow :: "fpu \<Rightarrow> jsnum \<Rightarrow> nat \<Rightarrow> jsnum" where
  "js_pow fp x 0 = Fin 1"
| "js_pow fp NaN (Suc n) = NaN"
| "js_pow fp (Fin x) (Suc n) = fpow fp x (Suc n)"
| "js_pow fp PosInf (Suc n) = PosInf"
| "js_pow fp NegInf (Suc n) = (if even (Suc n) then PosInf else NegInf)"

fun Math_log :: "fpu \<Rightarrow> jsnum \<Rightarrow> jsnum" where
  "Math_log fp (Fin x) = (if x < 0 then NaN else if x = 0 then NegInf else flog fp x)"
| "Math_log fp PosInf = PosInf"
| "Math_log fp _ = NaN"

fun Math_sqrt :: "fpu \<Rightarrow> jsnum \<Rightarrow> jsnum" where
  "Math_sqrt fp (Fin x) = (if x < 0 then NaN else fsqrt fp x)"
| "Math_sqrt fp PosInf = PosInf"
| "Math_sqrt fp _ = NaN"

definition Math_PI :: "fpu \<Rightarrow> jsnum" where
  "Math_PI fp = rnd fp pi"

subsection \<open>The unit of IEEE 754 binary64\<close>

text \<open>
  Round to nearest, ties to even, on 53 significant bits with exponents from \<open>-1022\<close> (below
  which the spacing stays \<open>2^-1074\<close>) and overflow to an infinity from \<open>2^1024\<close> on. In this unit
  logarithm, power and square root are the correctly rounded ones.
\<close>

definition round_half_even :: "real \<Rightarrow> int" where
  "round_half_even r =
     (let f = \<lfloor>r\<rfloor>
      in if r - of_int f < 1 / 2 then f
         else if 1 / 2 < r - of_int f then f + 1
         else if even f then f else f + 1)"

definition binary64_round :: "real \<Rightarrow> jsnum" where
  "binary64_round x =
     (if x = 0 then Fin 0
      else
        let e = max \<lfloor>log 2 \<bar>x\<bar>\<rfloor> (- 1022);
            ulp = 2 powr (of_int e - 52);
            y = of_int (round_half_even (x / ulp)) * ulp
        in if 2 ^ 1024 \<le> \<bar>y\<bar> then signed_inf x else Fin y)"

definition binary64 :: fpu where
  "binary64 =
     \<lparr>rnd = binary64_round,
      flog = (\<lambda>x. binary64_round (ln x)),
      fpow = (\<lambda>x n. binary64_round (x ^ n)),
      fsqrt = (\<lambda>x. binary64_round (sqrt x))\<rparr>"

subsection \<open>Accuracy of a unit\<close>

text \<open>
  A unit is accurate to \<open>u\<close> when each of its operations returns a finite number within the
  relative error \<open>u\<close> of the exact result, as long as the exact result has a magnitude
  between \<open>2^-1000\<close> and \<open>2^1000\<close> (no overflow, no underflow). Doubles are accurate to \<open>2^-53\<close>
  in \<open>+\<close>, \<open>-\<close>, \<open>*\<close>, \<open>/\<close> and the square root, and engines keep logarithm and power within
  a few units of that.
\<close>

definition in_range :: "real \<Rightarrow> bool" where
  "in_range x \<longleftrightarrow> 1 / 2 ^ 1000 \<le> \<bar>x\<bar> \<and> \<bar>x\<bar> \<le> 2 ^ 1000"

definition accurate :: "fpu \<Rightarrow> real \<Rightarrow> bool" where
  "accurate fp u \<longleftrightarrow>
     (\<forall>x. in_range x \<longrightarrow> (\<exists>y. rnd fp x = Fin y \<and> \<bar>y - x\<bar> \<le> u * \<bar>x\<bar>))
     \<and> (\<forall>x. 0 < x \<longrightarrow> in_range (ln x) \<longrightarrow>
            (\<exists>y. flog fp x = Fin y \<and> \<bar>y - ln x\<bar> \<le> u * \<bar>ln x\<bar>))
     \<and> (\<forall>x n. in_range (x ^ n) \<longrightarrow>
            (\<exists>y. fpow fp x n = Fin y \<and> \<bar>y - x ^ n\<bar> \<le> u * \<bar>x ^ n\<bar>))
     \<and> (\<forall>x. 0 \<le> x \<longrightarrow> in_range (sqrt x) \<longrightarrow>
            (\<exists>y. fsqrt fp x = Fin y \<and> \<bar>y - sqrt x\<bar> \<le> u * \<bar>sqrt x\<bar>))"

text \<open>
  A unit is exact when it does not round at all: the arithmetic of the reals. No engine
  has it; it is the reading under which a formula of the script is the formula of the
  specification.
\<close>

definition exact :: "fpu \<Rightarrow> bool" where
  "exact fp \<longleftrightarrow>
     (\<forall>x. rnd fp x = Fin x) \<and> (\<forall>x. flog fp x = Fin (ln x))
     \<and> (\<forall>x n. fpow fp x n = Fin (x ^ n)) \<and> (\<forall>x. fsqrt fp x = Fin (sqrt x))"

definition unrounded :: fpu where
  "unrounded =
     \<lparr>rnd = Fin,
      flog = (\<lambda>x. Fin (ln x)),
      fpow = (\<lambda>x n. Fin (x ^ n)),
      fsqrt = (\<lambda>x. Fin (sqrt x))\<rparr>"

text \<open>
  Two positive reals are \<open>close u n\<close> when each is at least the other times \<open>(1 - u)^n\<close>: they
  differ by at most \<open>n\<close> roundings of a unit accurate to \<open>u\<close>. A positive real is
  \<open>in_box p\<close> when it lies between \<open>2^-p\<close> and \<open>2^p\<close>.
\<close>

definition close :: "real \<Rightarrow> nat \<Rightarrow> real \<Rightarrow> real \<Rightarrow> bool" where
  "close u n x y \<longleftrightarrow> 0 < x \<and> 0 < y \<and> x * (1 - u) ^ n \<le> y \<and> y * (1 - u) ^ n \<le> x"

definition in_box :: "nat \<Rightarrow> real \<Rightarrow> bool" where
  "in_box p x \<longleftrightarrow> 1 / 2 ^ p \<le> x \<and> x \<le> 2 ^ p"

section \<open>Form fields and displayed numbers\<close>

text \<open>
  \<open>ToFixed x n\<close> stands for the string \<open>x.toFixed(n)\<close>. The value of a form field is the
  empty string (\<open>Blank\<close>), a non-empty string the user or the extraction step put there
  (\<open>Typed x\<close>, with \<open>x\<close> the number \<open>parseFloat\<close> reads from it, \<open>NaN\<close> when it is not
  numeric), or a string the script wrote with \<open>toFixed\<close>. \<open>toFixed\<close> prints the multiple of
  \<open>10^-n\<close> nearest to the number, halves away from zero, and numbers from \<open>10^21\<close> on as they
  are; reading the decimal back rounds it to a double.
\<close>

datatype fixed = ToFixed jsnum nat

datatype field = Blank | Typed jsnum | Shown fixed

fun parseFloat :: "fpu \<Rightarrow> field \<Rightarrow> jsnum" where
  "parseFloat fp Blank = NaN"
| "parseFloat fp (Typed x) = x"
| "parseFloat fp (Shown (ToFixed (Fin r) n)) =
     (if 10 ^ 21 \<le> \<bar>r\<bar> then Fin r
      else rnd fp (sgn r * of_int \<lfloor>\<bar>r\<bar> * 10 ^ n + 1 / 2\<rfloor> / 10 ^ n))"
| "parseFloat fp (Shown (ToFixed x n)) = x"

text \<open>The elements of the page that the calculation reads and writes, by their ids.\<close>

record dom =
  el_conductorMode :: string
  el_voltageKv :: field
  el_sccKa :: field
  el_timeSec :: field
  el_kValue :: field
  el_beta :: field
  el_givenConductorArea :: field
  el_material :: string
  el_insulationMaterial :: string
  el_outerSheathMaterial :: string
  el_sheathMaterial :: string
  el_sheathVoltageKv :: field
  el_sheathSccKa :: field
  el_sheathTimeSec :: field
  el_sheathThetaInitial :: field
  el_sheathThetaFinal :: field
  el_sheathOuterD :: field
  el_sheathInnerD :: field
  el_sheathThickness :: field
  el_sheathAreaGiven :: field
  el_sheathOuterD_borderColor :: string
  el_sheathInnerD_borderColor :: string

text \<open>
  The result box holds a list of paragraphs: the text of each paragraph of the HTML that
  the handlers build, without its markup.
\<close>

datatype para =
    Heading string
  | Quantity string fixed string
  | Sufficient string
  | Undersized string

text \<open>
  The two bundles kept for the report, with the keys of the script. A key of the sheath
  bundle that is read from the looked-up sheath metal holds \<open>None\<close> when that read gives
  \<open>undefined\<close>.
\<close>

record conductor_data =
  cd_voltage :: jsnum
  cd_area :: jsnum
  cd_material :: string
  cd_insulation :: string
  cd_outer_sheath :: string
  cd_scc_required :: jsnum
  cd_time :: jsnum
  cd_theta_i :: jsnum
  cd_theta_f :: jsnum
  cd_beta :: jsnum
  cd_k_value :: jsnum
  cd_i_ad :: fixed

record sheath_data =
  sd_voltage :: jsnum
  sd_conductor_area :: jsnum
  sd_material :: string
  sd_sheath_material :: string
  sd_insulation :: string
  sd_outer_sheath :: string
  sd_thickness :: fixed
  sd_inner_d :: fixed
  sd_outer_d :: fixed
  sd_sheath_area :: fixed
  sd_scc_required :: jsnum
  sd_time :: jsnum
  sd_theta_i :: jsnum
  sd_theta_f :: jsnum
  sd_beta :: "jsnum option"
  sd_k_value :: "jsnum option"
  sd_i_ad :: fixed
  sd_sigma1 :: "jsnum option"
  sd_sigma2 :: jsnum
  sd_sigma3 :: jsnum
  sd_rho2 :: jsnum
  sd_rho3 :: jsnum
  sd_f_factor :: jsnum
  sd_m_factor :: fixed
  sd_epsilon :: fixed
  sd_i_non_ad :: fixed

text \<open>The script's global variables and the parts of the page its handlers write.\<close>

record state =
  conductorData :: "conductor_data option"
  sheathData :: "sheath_data option"
  conductorCalculated :: bool
  sheathCalculated :: bool
  resultText :: "para list"
  resultBox_display :: string
  btnDownloadConductor_display :: string
  btnDownloadSheath_display :: string

section \<open>Constant tables\<close>

text \<open>
  An object literal of the script is the list of its own keys and values. Reading
  \<open>obj[key]\<close> finds an own key, or else a member that every object inherits from
  \<open>Object.prototype\<close> (a function, or for \<open>__proto__\<close> the prototype itself: truthy, with none
  of the keys of the tables), or else \<open>undefined\<close>.
\<close>

datatype 'a property = Own 'a | Inherited

definition Object_prototype :: "string list" where
  "Object_prototype =
     [''constructor'', ''__defineGetter__'', ''__defineSetter__'', ''hasOwnProperty'',
      ''__lookupGetter__'', ''__lookupSetter__'', ''isPrototypeOf'', ''propertyIsEnumerable'',
      ''toString'', ''valueOf'', ''__proto__'', ''toLocaleString'']"

definition js_get :: "(string \<times> 'a) list \<Rightarrow> string \<Rightarrow> 'a property option" where
  "js_get obj key =
     (case map_of obj key of
        Some v \<Rightarrow> Some (Own v)
      | None \<Rightarrow> if key \<in> set Object_prototype then Some Inherited else None)"

text \<open>
  A numeric key read from a looked-up object: the number, or \<open>undefined\<close> when the object is
  an inherited member. In arithmetic \<open>undefined\<close> is \<open>NaN\<close>.
\<close>

fun prop_value :: "('a \<Rightarrow> real) \<Rightarrow> 'a property \<Rightarrow> jsnum option" where
  "prop_value f (Own m) = Some (Fin (f m))"
| "prop_value f Inherited = None"

fun prop_number :: "('a \<Rightarrow> real) \<Rightarrow> 'a property \<Rightarrow> jsnum" where
  "prop_number f (Own m) = Fin (f m)"
| "prop_number f Inherited = NaN"

record material_constant =
  mat_K :: real
  mat_beta :: real
  sigmaC :: real
  rho20 :: real

record thermal_constant =
  rho :: real
  sigma :: real

definition TABLE_I_SHEATHS :: "(string \<times> material_constant) list" where
  "TABLE_I_SHEATHS =
     [(''lead'', \<lparr>mat_K = 41, mat_beta = 230, sigmaC = 1450000, rho20 = 21.4 / 10 ^ 8\<rparr>),
      (''steel'', \<lparr>mat_K = 78, mat_beta = 202, sigmaC = 3800000, rho20 = 13.8 / 10 ^ 8\<rparr>),
      (''bronze'', \<lparr>mat_K = 180, mat_beta = 313, sigmaC = 3400000, rho20 = 3.5 / 10 ^ 8\<rparr>),
      (''aluminium'', \<lparr>mat_K = 148, mat_beta = 228, sigmaC = 2500000, rho20 = 2.84 / 10 ^ 8\<rparr>)]"

definition TABLE_I_CONDUCTORS :: "(string \<times> material_constant) list" where
  "TABLE_I_CONDUCTORS =
     [(''copper'', \<lparr>mat_K = 226, mat_beta = 234.5, sigmaC = 3450000, rho20 = 1.7241 / 10 ^ 8\<rparr>),
      (''aluminium'', \<lparr>mat_K = 148, mat_beta = 228, sigmaC = 2500000, rho20 = 2.8264 / 10 ^ 8\<rparr>)]"

text \<open>
  An entry of the thermal table is a pair \<open>rho\<close>, \<open>sigma\<close>, or one pair per voltage tier. The
  numbers of the tables that the formulas read are integers or halves, hence doubles.
\<close>

datatype thermal_entry =
    Plain thermal_constant
  | Tiered "(string \<times> thermal_constant) list"

definition THERMAL_CONSTANTS :: "(string \<times> (string \<times> thermal_entry) list) list" where
  "THERMAL_CONSTANTS =
     [(''insulating'',
        [(''impregnated-paper-solid'', Plain \<lparr>rho = 6.0, sigma = 2000000\<rparr>),
         (''impregnated-paper-oil-filled'', Plain \<lparr>rho = 5.0, sigma = 2000000\<rparr>),
         (''oil'', Plain \<lparr>rho = 7.0, sigma = 1700000\<rparr>),
         (''PE'', Plain \<lparr>rho = 3.5, sigma = 2400000\<rparr>),
         (''XLPE'', Plain \<lparr>rho = 3.5, sigma = 2400000\<rparr>),
         (''PVC'', Tiered
            [(''<=3kV'', \<lparr>rho = 5.0, sigma = 1700000\<rparr>),
             (''>3kV'', \<lparr>rho = 6.0, sigma = 1700000\<rparr>)]),
         (''EPR'', Tiered
            [(''<=3kV'', \<lparr>rho = 3.5, sigma = 2000000\<rparr>),
             (''>3kV'', \<lparr>rho = 5.0, sigma = 2000000\<rparr>)]),
         (''butyl-rubber'', Plain \<lparr>rho = 5.0, sigma = 2000000\<rparr>),
         (''natural-rubber'', Plain \<lparr>rho = 5.0, sigma = 2000000\<rparr>)]),
      (''protective'',
        [(''compounded-jute'', Plain \<lparr>rho = 6.0, sigma = 2000000\<rparr>),
         (''rubber-sandwich'', Plain \<lparr>rho = 6.0, sigma = 2000000\<rparr>),
         (''polychloroprene'', Plain \<lparr>rho = 5.5, sigma = 2000000\<rparr>),
         (''PVC'', Tiered
            [(''<=35kV'', \<lparr>rho = 5.0, sigma = 1700000\<rparr>),
             (''>35kV'', \<lparr>rho = 6.0, sigma = 1700000\<rparr>)]),
         (''PVC-bitumen'', Plain \<lparr>rho = 6.0, sigma = 1700000\<rparr>),
         (''PE'', Plain \<lparr>rho = 3.5, sigma = 2400000\<rparr>)])]"

record contact_factor =
  cf_default :: real
  cf_oil_filled :: real

definition THERMAL_CONTACT_FACTOR :: contact_factor where
  "THERMAL_CONTACT_FACTOR = \<lparr>cf_default = 0.7, cf_oil_filled = 1.0\<rparr>"

section \<open>Validation rules\<close>

text \<open>
  \<open>validateVoltageTime\<close> of the script. It compares and does not compute, so no rounding
  enters. The notifications it shows before returning \<open>false\<close> are presentation and are
  left out.
\<close>

definition validateVoltageTime :: "jsnum \<Rightarrow> jsnum \<Rightarrow> bool" where
  "validateVoltageTime voltageKv t =
     (if js_le voltageKv (Fin 0) \<or> js_le t (Fin 0) then False
      else if js_gt voltageKv (Fin 400) then False
      else if js_gt t (Fin 10) then False
      else True)"

section \<open>Conductor sizing\<close>

definition calculateConductorAreaFromCurrent :: "fpu \<Rightarrow> dom \<Rightarrow> jsnum option" where
  "calculateConductorAreaFromCurrent fp d =
     (let voltageKv = parseFloat fp (el_voltageKv d);
          I_AD_kA = parseFloat fp (el_sccKa d);
          t = parseFloat fp (el_timeSec d);
          K = parseFloat fp (el_kValue d);
          beta = parseFloat fp (el_beta d);
          theta_i = Fin 90;
          theta_f = Fin 250
      in if list_ex isNaN [voltageKv, I_AD_kA, t, K, beta] then None
         else if \<not> validateVoltageTime voltageKv t then None
         else if js_le I_AD_kA (Fin 0) \<or> js_le K (Fin 0) then None
         else
           let lnTerm = Math_log fp (js_div fp (js_add fp theta_f beta) (js_add fp theta_i beta))
           in if js_le lnTerm (Fin 0) then None
              else
                let I_AD_A = js_mul fp I_AD_kA (Fin 1000);
                    S_sq = js_div fp (js_mul fp (js_pow fp I_AD_A 2) t)
                             (js_mul fp (js_pow fp K 2) lnTerm)
                in if js_le S_sq (Fin 0) then None
                   else Some (Math_sqrt fp S_sq))"

definition calculateConductorCurrentFromArea :: "fpu \<Rightarrow> dom \<Rightarrow> jsnum option" where
  "calculateConductorCurrentFromArea fp d =
     (let t = parseFloat fp (el_timeSec d);
          K = parseFloat fp (el_kValue d);
          beta = parseFloat fp (el_beta d);
          theta_i = Fin 90;
          theta_f = Fin 250;
          S_given = parseFloat fp (el_givenConductorArea d)
      in if list_ex isNaN [t, K, beta, S_given] then None
         else if js_le t (Fin 0) then None
         else if js_le S_given (Fin 0) \<or> js_le K (Fin 0) then None
         else
           let lnTerm = Math_log fp (js_div fp (js_add fp theta_f beta) (js_add fp theta_i beta))
           in if js_le lnTerm (Fin 0) then None
              else
                let I_AD_A = js_mul fp (js_mul fp K S_given) (Math_sqrt fp (js_div fp lnTerm t))
                in Some (js_div fp I_AD_A (Fin 1000)))"

text \<open>
  The submit handler of the conductor form. Every \<open>return\<close> before the assignment of
  \<open>conductorData\<close> hands the state back as it came.
\<close>

definition conductorForm_submit :: "fpu \<Rightarrow> dom \<Rightarrow> state \<Rightarrow> state" where
  "conductorForm_submit fp d s =
     (let mode = el_conductorMode d;
          S_given_str = el_givenConductorArea d;
          html = [Heading ''Conductor Calculation Results''];
          voltageKv = parseFloat fp (el_voltageKv d);
          I_AD_kA = parseFloat fp (el_sccKa d);
          t = parseFloat fp (el_timeSec d);
          K = parseFloat fp (el_kValue d);
          beta = parseFloat fp (el_beta d);
          material = el_material d;
          insulation = el_insulationMaterial d;
          outerSheath = el_outerSheathMaterial d;
          theta_i = Fin 90;
          theta_f = Fin 250
      in if mode = ''area-from-current'' then
           (case calculateConductorAreaFromCurrent fp d of
              None \<Rightarrow> s
            | Some S_required \<Rightarrow>
                let html = html @
                      [Quantity ''Required cross-sectional area S:'' (ToFixed S_required 2) ''mm2''];
                    S_given =
                      (if S_given_str \<noteq> Blank then parseFloat fp S_given_str else S_required)
                in if S_given_str \<noteq> Blank \<and> (isNaN S_given \<or> js_le S_given (Fin 0)) then s
                   else
                     let html =
                           (if S_given_str \<noteq> Blank then
                              (if js_ge S_given S_required
                               then html @ [Sufficient ''Cable size is sufficient for the required area.'']
                               else html @ [Undersized ''Cable undersized. Please choose the next available size.''])
                            else html);
                         lnTerm =
                           Math_log fp (js_div fp (js_add fp theta_f beta) (js_add fp theta_i beta));
                         I_AD_A = js_mul fp (js_mul fp K S_given) (Math_sqrt fp (js_div fp lnTerm t));
                         I_AD_calculated = js_div fp I_AD_A (Fin 1000)
                     in s\<lparr>conductorData := Some
                            \<lparr>cd_voltage = voltageKv, cd_area = S_given, cd_material = material,
                             cd_insulation = insulation, cd_outer_sheath = outerSheath,
                             cd_scc_required = I_AD_kA, cd_time = t, cd_theta_i = theta_i,
                             cd_theta_f = theta_f, cd_beta = beta, cd_k_value = K,
                             cd_i_ad = ToFixed I_AD_calculated 3\<rparr>,
                          conductorCalculated := True,
                          btnDownloadConductor_display := ''inline-block'',
                          resultText := html,
                          resultBox_display := ''block''\<rparr>)
         else
           (case calculateConductorCurrentFromArea fp d of
              None \<Rightarrow> s
            | Some I_AD_kA_calc \<Rightarrow>
                let html = html @
                      [Quantity ''Adiabatic short-circuit current I_AD for given area:''
                         (ToFixed I_AD_kA_calc 2) ''kA''];
                    S_given = parseFloat fp S_given_str
                in s\<lparr>conductorData := Some
                       \<lparr>cd_voltage = voltageKv, cd_area = S_given, cd_material = material,
                        cd_insulation = insulation, cd_outer_sheath = outerSheath,
                        cd_scc_required = I_AD_kA, cd_time = t, cd_theta_i = theta_i,
                        cd_theta_f = theta_f, cd_beta = beta, cd_k_value = K,
                        cd_i_ad = ToFixed I_AD_kA_calc 3\<rparr>,
                     conductorCalculated := True,
                     btnDownloadConductor_display := ''inline-block'',
                     resultText := html,
                     resultBox_display := ''block''\<rparr>))"

section \<open>Sheath geometry\<close>

definition updateSheathGeometry :: "fpu \<Rightarrow> dom \<Rightarrow> dom" where
  "updateSheathGeometry fp d =
     (let Do = parseFloat fp (el_sheathOuterD d);
          Di = parseFloat fp (el_sheathInnerD d);
          d = d\<lparr>el_sheathOuterD_borderColor := [], el_sheathInnerD_borderColor := []\<rparr>
      in if \<not> isNaN Do \<and> \<not> isNaN Di \<and> js_gt Do (Fin 0) \<and> js_gt Di (Fin 0) then
           (if js_gt Do Di then
              let delta = js_div fp (js_sub fp Do Di) (Fin 2);
                  area = js_mul fp (js_div fp (Math_PI fp) (Fin 4))
                           (js_sub fp (js_mul fp Do Do) (js_mul fp Di Di))
              in d\<lparr>el_sheathThickness := Shown (ToFixed delta 3),
                   el_sheathAreaGiven := Shown (ToFixed area 2)\<rparr>
            else
              d\<lparr>el_sheathThickness := Blank,
                el_sheathAreaGiven := Blank,
                el_sheathOuterD_borderColor := ''red'',
                el_sheathInnerD_borderColor := ''red''\<rparr>)
         else d\<lparr>el_sheathThickness := Blank, el_sheathAreaGiven := Blank\<rparr>)"

section \<open>Sheath thermal helpers\<close>

text \<open>
  \<open>getThermalConstants\<close>. An inherited member has no key \<open>rho\<close> and is not named \<open>PVC\<close> or
  \<open>EPR\<close>, so the function runs to its last line with it; under an inherited group the
  material type is neither \<open>insulating\<close> nor \<open>protective\<close>.
\<close>

definition getThermalConstants :: "string \<Rightarrow> string \<Rightarrow> jsnum \<Rightarrow> thermal_constant option" where
  "getThermalConstants materialType materialName voltageKv =
     (case js_get THERMAL_CONSTANTS materialType of
        None \<Rightarrow> None
      | Some Inherited \<Rightarrow> None
      | Some (Own grp) \<Rightarrow>
          (case js_get grp materialName of
             None \<Rightarrow> None
           | Some (Own (Plain entry)) \<Rightarrow> Some entry
           | Some entry \<Rightarrow>
               let tier = (\<lambda>key. case entry of Own (Tiered tiers) \<Rightarrow> map_of tiers key | _ \<Rightarrow> None)
               in if materialType = ''insulating'' then
                    (if materialName = ''PVC'' \<or> materialName = ''EPR'' then
                       (if js_le voltageKv (Fin 3) then tier ''<=3kV'' else tier ''>3kV'')
                     else None)
                  else if materialType = ''protective'' then
                    (if materialName = ''PVC'' then
                       (if js_le voltageKv (Fin 35) then tier ''<=35kV'' else tier ''>35kV'')
                     else None)
                  else None))"

definition calculateM ::
  "fpu \<Rightarrow> string \<Rightarrow> string \<Rightarrow> jsnum \<Rightarrow> string \<Rightarrow> jsnum \<Rightarrow> string \<Rightarrow> jsnum option" where
  "calculateM fp insulationMaterial outerSheathMaterial sheathThickness sheathMaterial
       voltageKv isOilFilled =
     (case getThermalConstants ''insulating'' insulationMaterial voltageKv of
        None \<Rightarrow> None
      | Some insulation \<Rightarrow>
          (case getThermalConstants ''protective'' outerSheathMaterial voltageKv of
             None \<Rightarrow> None
           | Some outerSheath \<Rightarrow>
               let sigma2 = Fin (sigma insulation);
                   rho2 = Fin (rho insulation);
                   sigma3 = Fin (sigma outerSheath);
                   rho3 = Fin (rho outerSheath)
               in (case js_get TABLE_I_SHEATHS sheathMaterial of
                     None \<Rightarrow> None
                   | Some sheath \<Rightarrow>
                       let sigma1 = prop_number sigmaC sheath;
                           delta = sheathThickness;
                           F = (if isOilFilled = ''yes''
                                then literal fp (cf_oil_filled THERMAL_CONTACT_FACTOR)
                                else literal fp (cf_default THERMAL_CONTACT_FACTOR));
                           sqrtTerm1 = Math_sqrt fp (js_div fp sigma2 rho2);
                           sqrtTerm2 = Math_sqrt fp (js_div fp sigma3 rho3);
                           numerator = js_add fp sqrtTerm1 sqrtTerm2;
                           denominator =
                             js_mul fp (js_mul fp (js_mul fp (Fin 2) sigma1) delta)
                               (literal fp (1 / 1000))
                       in if denominator = Fin 0 then None
                          else Some (js_mul fp (js_div fp numerator denominator) F))))"

definition calculateEpsilon :: "fpu \<Rightarrow> jsnum option \<Rightarrow> jsnum \<Rightarrow> jsnum option" where
  "calculateEpsilon fp M t =
     (case M of
        None \<Rightarrow> None
      | Some M \<Rightarrow>
          if isNaN t \<or> js_le t (Fin 0) then None
          else
            let MsqrtT = js_mul fp M (Math_sqrt fp t)
            in Some (js_add fp
                 (js_sub fp (js_add fp (Fin 1) (js_mul fp (literal fp 0.61) MsqrtT))
                    (js_mul fp (literal fp 0.069) (js_pow fp MsqrtT 2)))
                 (js_mul fp (literal fp 0.0043) (js_pow fp MsqrtT 3))))"

definition calculateSheathAdiabaticArea ::
  "fpu \<Rightarrow> jsnum \<Rightarrow> jsnum \<Rightarrow> string \<Rightarrow> jsnum \<Rightarrow> jsnum \<Rightarrow> jsnum option" where
  "calculateSheathAdiabaticArea fp I_AD_kA t sheathMaterial theta_i theta_f =
     (case js_get TABLE_I_SHEATHS sheathMaterial of
        None \<Rightarrow> None
      | Some mat \<Rightarrow>
          let K = prop_number mat_K mat;
              beta = prop_number mat_beta mat;
              lnTerm = Math_log fp (js_div fp (js_add fp theta_f beta) (js_add fp theta_i beta))
          in if js_le lnTerm (Fin 0) then None
             else
               let I_AD_A = js_mul fp I_AD_kA (Fin 1000);
                   s_sq = js_div fp (js_mul fp (js_pow fp I_AD_A 2) t)
                            (js_mul fp (js_pow fp K 2) lnTerm)
               in if js_le s_sq (Fin 0) then None
                  else Some (Math_sqrt fp s_sq))"

section \<open>Sheath form\<close>

text \<open>
  \<open>toLowerCase\<close> and \<open>toUpperCase\<close> on the letters of the material names (ASCII), and
  \<open>a || b\<close> on numbers: \<open>NaN\<close> and zero are falsy.
\<close>

definition toLowerCase :: "string \<Rightarrow> string" where
  "toLowerCase str =
     map (\<lambda>c. case map_of (zip ''ABCDEFGHIJKLMNOPQRSTUVWXYZ'' ''abcdefghijklmnopqrstuvwxyz'') c of
                 None \<Rightarrow> c
               | Some l \<Rightarrow> l) str"

definition toUpperCase :: "string \<Rightarrow> string" where
  "toUpperCase str =
     map (\<lambda>c. case map_of (zip ''abcdefghijklmnopqrstuvwxyz'' ''ABCDEFGHIJKLMNOPQRSTUVWXYZ'') c of
                 None \<Rightarrow> c
               | Some u \<Rightarrow> u) str"

definition js_or :: "jsnum \<Rightarrow> jsnum \<Rightarrow> jsnum" where
  "js_or a b = (if isNaN a \<or> a = Fin 0 then b else a)"

text \<open>
  The submit handler of the sheath form. As in the conductor form, every \<open>return\<close> before
  the assignment of \<open>sheathData\<close> hands the state back as it came.
\<close>

definition sheathForm_submit :: "fpu \<Rightarrow> dom \<Rightarrow> state \<Rightarrow> state" where
  "sheathForm_submit fp d s =
     (let sheathMaterial = toLowerCase (el_sheathMaterial d);
          voltageKv = parseFloat fp (el_sheathVoltageKv d);
          I_AD_kA = parseFloat fp (el_sheathSccKa d);
          t = parseFloat fp (el_sheathTimeSec d);
          insulationMaterial = el_insulationMaterial d;
          outerSheathMaterial = el_outerSheathMaterial d;
          theta_i = parseFloat fp (el_sheathThetaInitial d);
          theta_f = parseFloat fp (el_sheathThetaFinal d);
          Do = parseFloat fp (el_sheathOuterD d);
          Di = parseFloat fp (el_sheathInnerD d);
          sheathThickness = parseFloat fp (el_sheathThickness d);
          s_given = parseFloat fp (el_sheathAreaGiven d);
          conductorArea = js_or (parseFloat fp (el_givenConductorArea d)) (Fin 0);
          conductorMaterial = el_material d;
          isOilFilled = ''no''
      in if sheathMaterial = [] \<or>
            list_ex isNaN
              [voltageKv, I_AD_kA, t, theta_i, theta_f, Do, Di, sheathThickness, s_given] \<or>
            insulationMaterial = [] \<or> outerSheathMaterial = []
         then s
         else if \<not> validateVoltageTime voltageKv t then s
         else if js_le I_AD_kA (Fin 0) then s
         else if \<not> (js_gt Do Di \<and> js_gt Do (Fin 0) \<and> js_gt Di (Fin 0)) then s
         else
           (case calculateSheathAdiabaticArea fp I_AD_kA t sheathMaterial theta_i theta_f of
              None \<Rightarrow> s
            | Some s_adiab \<Rightarrow>
                (case calculateM fp insulationMaterial outerSheathMaterial sheathThickness
                        sheathMaterial voltageKv isOilFilled of
                   None \<Rightarrow> s
                 | Some M \<Rightarrow>
                     (case calculateEpsilon fp (Some M) t of
                        None \<Rightarrow> s
                      | Some epsilon \<Rightarrow>
                          let s_required = js_mul fp s_adiab epsilon;
                              i_non_ad = js_mul fp epsilon s_adiab;
                              html =
                                [Heading ''Sheath Calculation Results'',
                                 Quantity ''Adiabatic area s_adiab:'' (ToFixed s_adiab 2) ''mm2'',
                                 Quantity ''Non-adiabatic factor epsilon:'' (ToFixed epsilon 3) [],
                                 Quantity ''Required sheath area (non-adiabatic):''
                                   (ToFixed s_required 2) ''mm2'',
                                 Quantity ''Actual sheath area from D_outer, D_inner:''
                                   (ToFixed s_given 2) ''mm2''];
                              html =
                                (if js_ge s_given s_required
                                 then html @
                                   [Sufficient ''Sheath size is sufficient for the required area.'']
                                 else html @
                                   [Undersized
                                      ''Sheath undersized. Please choose the next available size.'']);
                              insulation =
                                getThermalConstants ''insulating'' insulationMaterial voltageKv;
                              outerSheath =
                                getThermalConstants ''protective'' outerSheathMaterial voltageKv;
                              sheath = js_get TABLE_I_SHEATHS sheathMaterial
                          in s\<lparr>sheathData := Some
                                 \<lparr>sd_voltage = voltageKv,
                                  sd_conductor_area = conductorArea,
                                  sd_material = conductorMaterial,
                                  sd_sheath_material =
                                    toUpperCase (take 1 sheathMaterial) @ drop 1 sheathMaterial,
                                  sd_insulation = insulationMaterial,
                                  sd_outer_sheath = outerSheathMaterial,
                                  sd_thickness = ToFixed sheathThickness 3,
                                  sd_inner_d = ToFixed Di 2,
                                  sd_outer_d = ToFixed Do 2,
                                  sd_sheath_area = ToFixed s_given 2,
                                  sd_scc_required = I_AD_kA,
                                  sd_time = t,
                                  sd_theta_i = theta_i,
                                  sd_theta_f = theta_f,
                                  sd_beta = (case sheath of Some m \<Rightarrow> prop_value mat_beta m
                                             | None \<Rightarrow> Some (Fin 228)),
                                  sd_k_value = (case sheath of Some m \<Rightarrow> prop_value mat_K m
                                                | None \<Rightarrow> Some (Fin 148)),
                                  sd_i_ad = ToFixed s_adiab 3,
                                  sd_sigma1 = (case sheath of Some m \<Rightarrow> prop_value sigmaC m
                                               | None \<Rightarrow> Some (Fin 2500000)),
                                  sd_sigma2 = (case insulation of Some c \<Rightarrow> Fin (sigma c)
                                               | None \<Rightarrow> Fin 2400000),
                                  sd_sigma3 = (case outerSheath of Some c \<Rightarrow> Fin (sigma c)
                                               | None \<Rightarrow> Fin 2400000),
                                  sd_rho2 = (case insulation of Some c \<Rightarrow> Fin (rho c)
                                             | None \<Rightarrow> Fin 3.5),
                                  sd_rho3 = (case outerSheath of Some c \<Rightarrow> Fin (rho c)
                                             | None \<Rightarrow> Fin 3.5),
                                  sd_f_factor = literal fp 0.7,
                                  sd_m_factor = ToFixed M 3,
                                  sd_epsilon = ToFixed epsilon 3,
                                  sd_i_non_ad = ToFixed i_non_ad 3\<rparr>,
                               sheathCalculated := True,
                               btnDownloadSheath_display := ''inline-block'',
                               resultText := html,
                               resultBox_display := ''block''\<rparr>))))"

section \<open>A worked example\<close>

text \<open>
  The page filled in with the worked example of the specification: a copper conductor
  (\<open>K = 226\<close>, \<open>beta = 234.5\<close>) at 11 kV, 25 kA for 1 s, under a lead sheath of 2 mm
  between XLPE insulation and a PE covering. Every number on it is a double.
\<close>

definition example_page :: dom where
  "example_page =
     \<lparr>el_conductorMode = ''area-from-current'',
      el_voltageKv = Typed (Fin 11),
      el_sccKa = Typed (Fin 25),
      el_timeSec = Typed (Fin 1),
      el_kValue = Typed (Fin 226),
      el_beta = Typed (Fin 234.5),
      el_givenConductorArea = Typed (Fin 240),
      el_material = ''copper'',
      el_insulationMaterial = ''XLPE'',
      el_outerSheathMaterial = ''PE'',
      el_sheathMaterial = ''Lead'',
      el_sheathVoltageKv = Typed (Fin 11),
      el_sheathSccKa = Typed (Fin 25),
      el_sheathTimeSec = Typed (Fin 1),
      el_sheathThetaInitial = Typed (Fin 90),
      el_sheathThetaFinal = Typed (Fin 250),
      el_sheathOuterD = Typed (Fin 44),
      el_sheathInnerD = Typed (Fin 40),
      el_sheathThickness = Typed (Fin 2),
      el_sheathAreaGiven = Typed (Fin 263.75),
      el_sheathOuterD_borderColor = [],
      el_sheathInnerD_borderColor = []\<rparr>"

text \<open>
  The same page with \<open>beta = -100\<close> and no candidate area: between \<open>-250\<close> and \<open>-90\<close> the
  ratio \<open>(theta_f + beta) / (theta_i + beta)\<close> is negative.
\<close>

definition invalid_beta_page :: dom where
  "invalid_beta_page =
     example_page\<lparr>el_beta := Typed (Fin (- 100)), el_givenConductorArea := Blank\<rparr>"

text \<open>The state of a freshly loaded page: nothing calculated, nothing shown.\<close>

definition initial_state :: state where
  "initial_state =
     \<lparr>conductorData = None, sheathData = None, conductorCalculated = False,
      sheathCalculated = False, resultText = [], resultBox_display = ''none'',
      btnDownloadConductor_display = ''none'', btnDownloadSheath_display = ''none''\<rparr>"

section \<open>Properties\<close>

subsection \<open>Rounding to binary64\<close>

lemma round_half_even_near: "\<bar>of_int (round_half_even r) - r\<bar> \<le> 1 / 2"
  unfolding round_half_even_def Let_def by (auto simp: abs_if) linarith+

lemma round_half_even_int [simp]: "round_half_even (of_int m) = m"
  unfolding round_half_even_def Let_def by simp

lemma binary64_round_accurate:
  assumes "1 / 2 ^ 1000 \<le> \<bar>x\<bar>" "\<bar>x\<bar> \<le> 2 ^ 1000"
  shows "\<exists>y. binary64_round x = Fin y \<and> \<bar>y - x\<bar> \<le> \<bar>x\<bar> / 2 ^ 53"
proof -
  have x0: "x \<noteq> 0" "0 < \<bar>x\<bar>"
    using assms(1) by auto
  define e where "e = \<lfloor>log 2 \<bar>x\<bar>\<rfloor>"
  have lo: "2 powr (of_int e) \<le> \<bar>x\<bar>" and hi: "\<bar>x\<bar> < 2 powr (of_int e + 1)"
    using floor_log_eq_powr_iff [of "\<bar>x\<bar>" 2 e] x0 by (simp_all add: e_def)
  have p1000: "(2::real) powr 1000 = 2 ^ 1000" "(2::real) powr (- 1000) = 1 / 2 ^ 1000"
    by (simp_all add: powr_minus_divide)
  have "(2::real) powr (- 1000) < 2 powr (of_int e + 1)"
    using assms(1) hi unfolding p1000 by linarith
  then have "- 1000 < of_int e + (1::real)"
    by (simp only: powr_less_cancel_iff one_less_numeral_iff semiring_norm)
  then have e_lo: "- 1000 \<le> e"
    by linarith
  have "(2::real) powr (of_int e) \<le> 2 powr 1000"
    using lo assms(2) unfolding p1000 by linarith
  then have "of_int e \<le> (1000::real)"
    by (simp only: powr_le_cancel_iff one_less_numeral_iff semiring_norm)
  then have e_hi: "e \<le> 1000"
    by linarith
  define ulp :: real where "ulp = 2 powr (of_int e - 52)"
  have ulp_pos: "0 < ulp"
    by (simp add: ulp_def)
  have ulp_le: "ulp = 2 powr (of_int e) / 2 ^ 52"
    by (simp add: ulp_def powr_diff)
  define n where "n = round_half_even (x / ulp)"
  define y where "y = of_int n * ulp"
  have "\<bar>of_int n - x / ulp\<bar> \<le> 1 / 2"
    unfolding n_def by (rule round_half_even_near)
  then have "\<bar>of_int n - x / ulp\<bar> * ulp \<le> 1 / 2 * ulp"
    using ulp_pos by (intro mult_right_mono) simp_all
  moreover have "y - x = (of_int n - x / ulp) * ulp"
    using ulp_pos by (simp add: y_def left_diff_distrib)
  then have "\<bar>of_int n - x / ulp\<bar> * ulp = \<bar>y - x\<bar>"
    using ulp_pos by (simp add: abs_mult)
  ultimately have err: "\<bar>y - x\<bar> \<le> ulp / 2"
    by simp
  have "ulp / 2 \<le> \<bar>x\<bar> / 2 ^ 53"
    using lo by (simp add: ulp_le)
  with err have rel: "\<bar>y - x\<bar> \<le> \<bar>x\<bar> / 2 ^ 53"
    by linarith
  have "\<bar>y\<bar> \<le> \<bar>x\<bar> + \<bar>x\<bar> / 2 ^ 53"
    using rel by linarith
  also have "\<dots> \<le> 2 ^ 1000 + 2 ^ 1000 / 2 ^ 53"
    using assms(2) by (intro add_mono divide_right_mono) simp_all
  also have "\<dots> < 2 ^ 1024"
    by simp
  finally have fin: "\<not> 2 ^ 1024 \<le> \<bar>y\<bar>"
    by simp
  have "max \<lfloor>log 2 \<bar>x\<bar>\<rfloor> (- 1022) = e"
    using e_lo by (simp add: e_def)
  then have "binary64_round x = Fin y"
    using x0 fin unfolding binary64_round_def Let_def y_def n_def ulp_def by simp
  with rel show ?thesis
    by blast
qed


lemma round_half_even_eq:
  assumes "\<bar>r - of_int m\<bar> < 1 / 2"
  shows "round_half_even r = m"
proof -
  have "\<lfloor>r\<rfloor> = m \<or> \<lfloor>r\<rfloor> = m - 1"
    using assms by (auto simp: abs_if split: if_splits) linarith+
  then show ?thesis
  proof
    assume f: "\<lfloor>r\<rfloor> = m"
    then have "of_int m \<le> r"
      by (metis of_int_floor_le)
    then have "r - of_int m < 1 / 2"
      using assms by linarith
    then show ?thesis
      unfolding round_half_even_def Let_def f by simp
  next
    assume f: "\<lfloor>r\<rfloor> = m - 1"
    then have "r < of_int m"
      by linarith
    then have "1 / 2 < r - of_int (m - 1)"
      using assms by (simp add: abs_if split: if_splits)
    then show ?thesis
      unfolding round_half_even_def Let_def f by simp
  qed
qed

lemma binary64_round_eq:
  assumes "x \<noteq> 0"
    and "max \<lfloor>log 2 \<bar>x\<bar>\<rfloor> (- 1022) = e"
    and "2 powr (of_int e - 52) = ulp"
    and "round_half_even (x / ulp) = n"
    and "\<bar>of_int n * ulp\<bar> < 2 ^ 1024"
  shows "binary64_round x = Fin (of_int n * ulp)"
proof -
  have "\<not> 2 ^ 1024 \<le> \<bar>of_int n * ulp\<bar>"
    using assms(5) by (simp only: not_le)
  then show ?thesis
    unfolding binary64_round_def Let_def assms(2) assms(3) assms(4)
    using assms(1) by (simp only: if_False)
qed

lemma binary64_round_near_one:
  assumes "1 - 1 / 2 ^ 54 < x" "x < 1 + 1 / 2 ^ 53"
  shows "binary64_round x = Fin 1"
proof (cases "1 \<le> x")
  case True
  then have x0: "x \<noteq> 0" "\<bar>x\<bar> = x"
    by simp_all
  have "x < 2"
    using assms(2) by (simp add: field_simps)
  then have "\<lfloor>log 2 \<bar>x\<bar>\<rfloor> = 0"
    using True floor_log_eq_powr_iff [of x 2 0] by (simp add: x0)
  then have e: "max \<lfloor>log 2 \<bar>x\<bar>\<rfloor> (- 1022) = 0"
    by simp
  have u: "(2::real) powr (of_int 0 - 52) = 1 / 2 ^ 52"
    by (simp add: powr_minus_divide)
  have "\<bar>x / (1 / 2 ^ 52) - of_int (2 ^ 52)\<bar> < 1 / 2"
    using True assms(2) by (simp add: abs_if field_simps)
  then have r: "round_half_even (x / (1 / 2 ^ 52)) = 2 ^ 52"
    by (rule round_half_even_eq)
  have "binary64_round x = Fin (of_int (2 ^ 52) * (1 / 2 ^ 52))"
    by (rule binary64_round_eq [OF x0(1) e u r]) simp
  then show ?thesis
    by simp
next
  case False
  then have lt: "x < 1"
    by simp
  have half: "1 / 2 < x"
    using assms(1) by (simp add: field_simps)
  then have x0: "x \<noteq> 0" "\<bar>x\<bar> = x"
    by simp_all
  have "(2::real) powr (- 1) = 1 / 2"
    by (simp add: powr_minus_divide)
  then have "\<lfloor>log 2 \<bar>x\<bar>\<rfloor> = - 1"
    using lt half floor_log_eq_powr_iff [of x 2 "- 1"] by (simp add: x0)
  then have e: "max \<lfloor>log 2 \<bar>x\<bar>\<rfloor> (- 1022) = - 1"
    by simp
  have u: "(2::real) powr (of_int (- 1) - 52) = 1 / 2 ^ 53"
    by (simp add: powr_minus_divide)
  have "\<bar>x / (1 / 2 ^ 53) - of_int (2 ^ 53)\<bar> < 1 / 2"
    using lt assms(1) by (simp add: abs_if field_simps)
  then have r: "round_half_even (x / (1 / 2 ^ 53)) = 2 ^ 53"
    by (rule round_half_even_eq)
  have "binary64_round x = Fin (of_int (2 ^ 53) * (1 / 2 ^ 53))"
    by (rule binary64_round_eq [OF x0(1) e u r]) simp
  then show ?thesis
    by simp
qed

lemma binary64_round_tiny:
  assumes "\<bar>x\<bar> < 1 / 2 ^ 1075"
  shows "binary64_round x = Fin 0"
proof (cases "x = 0")
  case True
  then show ?thesis
    by (simp add: binary64_round_def)
next
  case False
  then have pos: "0 < \<bar>x\<bar>"
    by simp
  have "(2::real) powr (- 1075) = 1 / 2 ^ 1075"
    by (simp add: powr_minus_divide)
  then have "\<bar>x\<bar> < 2 powr (- 1075)"
    using assms by simp
  then have "log 2 \<bar>x\<bar> < - 1075"
    using pos by (simp add: log_less_iff)
  then have "\<lfloor>log 2 \<bar>x\<bar>\<rfloor> < - 1022"
    by linarith
  then have e: "max \<lfloor>log 2 \<bar>x\<bar>\<rfloor> (- 1022) = - 1022"
    by simp
  have u: "(2::real) powr (of_int (- 1022) - 52) = 1 / 2 ^ 1074"
    by (simp add: powr_minus_divide)
  have "\<bar>x\<bar> * 2 ^ 1074 < 1 / 2 ^ 1075 * 2 ^ 1074"
    using assms by (intro mult_strict_right_mono) simp_all
  then have "\<bar>x / (1 / 2 ^ 1074) - of_int 0\<bar> < 1 / 2"
    by (simp add: abs_mult)
  then have r: "round_half_even (x / (1 / 2 ^ 1074)) = 0"
    by (rule round_half_even_eq)
  have "binary64_round x = Fin (of_int 0 * (1 / 2 ^ 1074))"
    by (rule binary64_round_eq [OF False e u r]) simp
  then show ?thesis
    by simp
qed


lemma binary64_round_in_range:
  assumes "in_range x"
  shows "\<exists>y. binary64_round x = Fin y \<and> \<bar>y - x\<bar> \<le> 1 / 2 ^ 53 * \<bar>x\<bar>"
proof -
  obtain y where "binary64_round x = Fin y" "\<bar>y - x\<bar> \<le> \<bar>x\<bar> / 2 ^ 53"
    using binary64_round_accurate [of x] assms unfolding in_range_def by blast
  then show ?thesis
    by (intro exI [of _ y]) (simp only: times_divide_eq_left mult_1 simp_thms)
qed

lemma binary64_accurate: "accurate binary64 (1 / 2 ^ 53)"
  unfolding accurate_def binary64_def fpu.simps
  using binary64_round_in_range by blast

subsection \<open>Error bounds\<close>

lemma in_box_pos: "in_box p x \<Longrightarrow> 0 < x"
proof -
  assume "in_box p x"
  then have "1 / 2 ^ p \<le> x"
    unfolding in_box_def by blast
  moreover have "(0::real) < 1 / 2 ^ p"
    by simp
  ultimately show ?thesis
    by linarith
qed

lemma in_box_mono:
  assumes "in_box p x" "p \<le> q"
  shows "in_box q x"
proof -
  have "(2::real) ^ p \<le> 2 ^ q"
    using assms(2) by (intro power_increasing) simp_all
  moreover from this have "1 / (2::real) ^ q \<le> 1 / 2 ^ p"
    by (intro divide_left_mono) simp_all
  ultimately show ?thesis
    using assms(1) unfolding in_box_def by linarith
qed

lemma in_box_in_range:
  assumes "in_box p x" "p \<le> 1000"
  shows "in_range x"
proof -
  have "in_box 1000 x"
    using assms by (rule in_box_mono)
  moreover from this have "0 < x"
    by (rule in_box_pos)
  ultimately show ?thesis
    unfolding in_box_def in_range_def by (simp only: abs_of_pos)
qed

lemma in_box_mult:
  assumes "in_box p x" "in_box q y"
  shows "in_box (p + q) (x * y)"
proof -
  have x0: "0 \<le> x" "0 \<le> y"
    using in_box_pos [OF assms(1)] in_box_pos [OF assms(2)] by simp_all
  have b: "1 / 2 ^ p \<le> x" "x \<le> 2 ^ p" "1 / 2 ^ q \<le> y" "y \<le> 2 ^ q"
    using assms unfolding in_box_def by blast+
  have "1 / 2 ^ p * (1 / 2 ^ q) \<le> x * y"
    using b x0 by (intro mult_mono) simp_all
  moreover have "x * y \<le> 2 ^ p * 2 ^ q"
    using b x0 by (intro mult_mono) simp_all
  ultimately show ?thesis
    unfolding in_box_def by (simp add: power_add)
qed

lemma in_box_inverse:
  assumes "in_box p x"
  shows "in_box p (1 / x)"
proof -
  have x: "0 < x"
    using assms by (rule in_box_pos)
  have "1 / 2 ^ p \<le> x" "x \<le> 2 ^ p"
    using assms unfolding in_box_def by blast+
  then have "1 / x \<le> 1 / (1 / 2 ^ p)" "1 / 2 ^ p \<le> 1 / x"
    using x by (simp_all add: field_simps)
  then show ?thesis
    unfolding in_box_def by simp
qed

lemma in_box_div:
  assumes "in_box p x" "in_box q y"
  shows "in_box (p + q) (x / y)"
  using in_box_mult [OF assms(1) in_box_inverse [OF assms(2)]] by simp

lemma in_box_power:
  assumes "in_box p x"
  shows "in_box (k * p) (x ^ k)"
proof -
  have x: "0 < x"
    using assms by (rule in_box_pos)
  have "(1 / 2 ^ p) ^ k \<le> x ^ k" "x ^ k \<le> (2 ^ p) ^ k"
    using assms x unfolding in_box_def by (simp_all add: power_mono)
  then show ?thesis
    unfolding in_box_def by (simp add: power_mult [symmetric] power_divide mult.commute)
qed

lemma in_box_sqrt:
  assumes "in_box p x"
  shows "in_box p (sqrt x)"
proof -
  have x: "0 < x"
    using assms by (rule in_box_pos)
  have b: "1 / 2 ^ p \<le> x" "x \<le> 2 ^ p"
    using assms unfolding in_box_def by blast+
  have one: "(1::real) \<le> 2 ^ p"
    by simp
  have "sqrt x \<le> 2 ^ p"
  proof (rule real_le_lsqrt)
    have "x \<le> 2 ^ p * 1"
      using b by simp
    also have "\<dots> \<le> 2 ^ p * 2 ^ p"
      using one by (intro mult_left_mono) simp_all
    finally show "x \<le> (2 ^ p)\<^sup>2"
      by (simp add: power2_eq_square)
  qed simp
  moreover have "1 / 2 ^ p \<le> sqrt x"
  proof (rule real_le_rsqrt)
    have "(1 / 2 ^ p)\<^sup>2 = 1 / 2 ^ p * (1 / (2::real) ^ p)"
      by (simp add: power2_eq_square)
    also have "\<dots> \<le> 1 / 2 ^ p * 1"
      by (intro mult_left_mono) simp_all
    also have "\<dots> \<le> x"
      using b by simp
    finally show "(1 / 2 ^ p)\<^sup>2 \<le> x" .
  qed
  ultimately show ?thesis
    unfolding in_box_def by blast
qed

lemma in_boxI:
  assumes "1 / 2 ^ p \<le> x" "x \<le> 2 ^ p"
  shows "in_box p x"
  using assms unfolding in_box_def by blast

lemma close_pos:
  assumes "close u n x y"
  shows "0 < x" "0 < y"
  using assms unfolding close_def by blast+

lemma close_refl:
  assumes "0 < x"
  shows "close u 0 x x"
  using assms unfolding close_def by simp

lemma close_sym:
  assumes "close u n x y"
  shows "close u n y x"
  using assms unfolding close_def by blast

lemma close_mono:
  assumes "0 \<le> u" "u \<le> 1 / 2" "close u n x y" "n \<le> m"
  shows "close u m x y"
proof -
  have "(1 - u) ^ m \<le> (1 - u) ^ n"
    using assms(1,2,4) by (intro power_decreasing) simp_all
  then have "x * (1 - u) ^ m \<le> x * (1 - u) ^ n" "y * (1 - u) ^ m \<le> y * (1 - u) ^ n"
    using close_pos [OF assms(3)] by (simp_all add: mult_left_mono)
  then show ?thesis
    using assms(3) unfolding close_def by linarith
qed

lemma close_trans:
  assumes "0 \<le> u" "u \<le> 1 / 2" "close u n x y" "close u m y z"
  shows "close u (n + m) x z"
proof -
  have q: "0 \<le> (1 - u) ^ m" "0 \<le> (1 - u) ^ n"
    using assms(2) by simp_all
  have "x * (1 - u) ^ n * (1 - u) ^ m \<le> y * (1 - u) ^ m"
    using assms(3) q unfolding close_def by (intro mult_right_mono) simp_all
  moreover have "z * (1 - u) ^ m * (1 - u) ^ n \<le> y * (1 - u) ^ n"
    using assms(4) q unfolding close_def by (intro mult_right_mono) simp_all
  ultimately show ?thesis
    using assms(3,4) unfolding close_def by (simp add: power_add mult.assoc mult.commute mult.left_commute)
qed

lemma close_mult:
  assumes "0 \<le> u" "u \<le> 1 / 2" "close u n x y" "close u m x' y'"
  shows "close u (n + m) (x * x') (y * y')"
proof -
  have q: "0 \<le> (1 - u) ^ m" "0 \<le> (1 - u) ^ n"
    using assms(2) by simp_all
  have p: "0 < x" "0 < y" "0 < x'" "0 < y'"
    using assms(3,4) unfolding close_def by blast+
  have "(x * (1 - u) ^ n) * (x' * (1 - u) ^ m) \<le> y * y'"
    using assms(3,4) p q unfolding close_def by (intro mult_mono) simp_all
  moreover have "(y * (1 - u) ^ n) * (y' * (1 - u) ^ m) \<le> x * x'"
    using assms(3,4) p q unfolding close_def by (intro mult_mono) simp_all
  ultimately show ?thesis
    using p unfolding close_def by (simp add: power_add mult_ac)
qed

lemma close_inverse:
  assumes "close u n x y"
  shows "close u n (1 / x) (1 / y)"
proof -
  have p: "0 < x" "0 < y"
    using assms unfolding close_def by blast+
  then show ?thesis
    using assms unfolding close_def by (simp add: field_simps)
qed

lemma close_div:
  assumes "0 \<le> u" "u \<le> 1 / 2" "close u n x y" "close u m x' y'"
  shows "close u (n + m) (x / x') (y / y')"
  using close_mult [OF assms(1,2,3) close_inverse [OF assms(4)]] by simp

lemma close_power:
  assumes "0 \<le> u" "u \<le> 1 / 2" "close u n x y"
  shows "close u (k * n) (x ^ k) (y ^ k)"
proof (induction k)
  case 0
  show ?case
    by (simp add: close_def)
next
  case (Suc k)
  have "close u (n + k * n) (x * x ^ k) (y * y ^ k)"
    using assms(1,2,3) Suc by (rule close_mult)
  then show ?case
    by simp
qed

lemma close_sqrt:
  assumes "0 \<le> u" "u \<le> 1 / 2" "close u (2 * n) x y"
  shows "close u n (sqrt x) (sqrt y)"
proof -
  have p: "0 < x" "0 < y"
    using assms(3) unfolding close_def by blast+
  have q: "0 \<le> (1 - u) ^ n"
    using assms(2) by simp
  have "(1 - u) ^ (2 * n) = ((1 - u) ^ n)\<^sup>2"
    by (simp add: power_mult [symmetric] mult.commute)
  then have e: "sqrt (z * (1 - u) ^ (2 * n)) = sqrt z * (1 - u) ^ n" for z
    using q by (simp only: real_sqrt_mult real_sqrt_abs abs_of_nonneg)
  have "sqrt (x * (1 - u) ^ (2 * n)) \<le> sqrt y" "sqrt (y * (1 - u) ^ (2 * n)) \<le> sqrt x"
    using assms(3) unfolding close_def by simp_all
  then show ?thesis
    using p unfolding close_def e by simp
qed

lemma in_box_close:
  assumes "0 \<le> u" "u \<le> 1 / 2" "in_box p x" "close u n x y"
  shows "in_box (p + n) y"
proof -
  have p: "0 < x" "0 < y"
    using assms(4) unfolding close_def by blast+
  have h: "(1 / 2) ^ n \<le> (1 - u) ^ n"
    using assms(1,2) by (intro power_mono) simp_all
  have b: "1 / 2 ^ p \<le> x" "x \<le> 2 ^ p"
    using assms(3) unfolding in_box_def by blast+
  have "1 / 2 ^ p * (1 / 2) ^ n \<le> x * (1 - u) ^ n"
    using b h p by (intro mult_mono) simp_all
  then have lo: "1 / 2 ^ (p + n) \<le> y"
    using assms(4) unfolding close_def by (simp add: power_add power_divide)
  have "y * (1 / 2) ^ n \<le> y * (1 - u) ^ n"
    using h p by (intro mult_left_mono) simp_all
  then have "y * (1 / 2) ^ n \<le> 2 ^ p"
    using assms(4) b unfolding close_def by linarith
  then have "y \<le> 2 ^ (p + n)"
    by (simp add: power_add power_divide field_simps)
  with lo show ?thesis
    unfolding in_box_def by blast
qed

lemma close_bound:
  assumes "0 \<le> u" "2 * (real n * u) \<le> 1" "close u n x y"
  shows "\<bar>y - x\<bar> \<le> 2 * real n * u * x"
proof -
  have p: "0 < x" "0 < y"
    using assms(3) unfolding close_def by blast+
  have b: "1 - real n * u \<le> (1 - u) ^ n"
  proof (cases n)
    case 0
    then show ?thesis
      by simp
  next
    case (Suc k)
    then have "1 * u \<le> real n * u"
      using assms(1) by (intro mult_right_mono) simp_all
    then have "- 1 \<le> - u"
      using assms(2) by linarith
    then have "1 + real n * (- u) \<le> (1 + (- u)) ^ n"
      by (rule Bernoulli_inequality)
    then show ?thesis
      by simp
  qed
  have "x * (1 - real n * u) \<le> x * (1 - u) ^ n"
    using b p by (intro mult_left_mono) simp_all
  then have 1: "x - y \<le> real n * u * x"
    using assms(3) unfolding close_def by (simp add: algebra_simps)
  have "y * (1 - real n * u) \<le> y * (1 - u) ^ n"
    using b p by (intro mult_left_mono) simp_all
  then have 2: "y * (1 - real n * u) \<le> x"
    using assms(3) unfolding close_def by linarith
  have "y \<le> 2 * x"
  proof -
    have "y * (1 / 2) \<le> y * (1 - real n * u)"
      using assms(2) p by (intro mult_left_mono) simp_all
    with 2 show ?thesis
      by simp
  qed
  then have "y * (real n * u) \<le> 2 * x * (real n * u)"
    using assms(1) by (intro mult_right_mono) simp_all
  with 2 have "y - x \<le> 2 * real n * u * x"
    by (simp add: algebra_simps)
  moreover have "real n * u * x \<le> 2 * real n * u * x"
    using assms(1) p by simp
  ultimately show ?thesis
    using 1 by (simp add: abs_le_iff)
qed

lemma close_of_error:
  assumes "0 \<le> u" "u \<le> 1 / 2" "0 < x" "\<bar>y - x\<bar> \<le> u * \<bar>x\<bar>"
  shows "close u 1 x y"
proof -
  have e: "x - u * x \<le> y" "y \<le> x + u * x"
    using assms(3,4) by (simp_all add: abs_le_iff)
  have "u * x \<le> 1 / 2 * x"
    using assms(2,3) by (intro mult_right_mono) simp_all
  then have y: "0 < y"
    using e(1) assms(3) by linarith
  have "y * (1 - u) \<le> (x + u * x) * (1 - u)"
    using e(2) assms(2) by (intro mult_right_mono) simp_all
  also have "\<dots> = x - u * u * x"
    by (simp add: algebra_simps)
  also have "\<dots> \<le> x"
    using assms(3) by simp
  finally have "y * (1 - u) \<le> x" .
  then show ?thesis
    using e(1) y assms(3) unfolding close_def by (simp add: algebra_simps)
qed

lemma rnd_step:
  assumes "0 \<le> u" "u \<le> 1 / 2" "accurate fp u"
    and "close u n x x'" "in_box p x" "p + n \<le> 1000"
  shows "\<exists>y. rnd fp x' = Fin y \<and> close u (Suc n) x y"
proof -
  have b: "in_box (p + n) x'"
    using assms(1,2,5,4) by (rule in_box_close)
  then have "in_range x'"
    using assms(6) by (rule in_box_in_range)
  then obtain y where y: "rnd fp x' = Fin y" "\<bar>y - x'\<bar> \<le> u * \<bar>x'\<bar>"
    using assms(3) unfolding accurate_def by blast
  have "close u 1 x' y"
    using assms(1,2) in_box_pos [OF b] y(2) by (rule close_of_error)
  with assms(1,2,4) have "close u (n + 1) x y"
    by (rule close_trans)
  with y(1) show ?thesis
    by simp
qed

lemma fsqrt_step:
  assumes "0 \<le> u" "u \<le> 1 / 2" "accurate fp u"
    and "close u (2 * n) x x'" "in_box p x" "p + n \<le> 1000"
  shows "\<exists>y. fsqrt fp x' = Fin y \<and> close u (Suc n) (sqrt x) y"
proof -
  have c: "close u n (sqrt x) (sqrt x')"
    using assms(1,2,4) by (rule close_sqrt)
  have "in_box p (sqrt x)"
    using assms(5) by (rule in_box_sqrt)
  with assms(1,2) have b: "in_box (p + n) (sqrt x')"
    using c by (rule in_box_close)
  then have "in_range (sqrt x')"
    using assms(6) by (rule in_box_in_range)
  moreover have "0 \<le> x'"
    using close_pos(2) [OF assms(4)] by simp
  ultimately obtain y where y: "fsqrt fp x' = Fin y" "\<bar>y - sqrt x'\<bar> \<le> u * \<bar>sqrt x'\<bar>"
    using assms(3) unfolding accurate_def by blast
  have "close u 1 (sqrt x') y"
    using assms(1,2) in_box_pos [OF b] y(2) by (rule close_of_error)
  with assms(1,2) c have "close u (n + 1) (sqrt x) y"
    by (rule close_trans)
  with y(1) show ?thesis
    by simp
qed

lemma fpow_step:
  assumes "0 \<le> u" "u \<le> 1 / 2" "accurate fp u"
    and "close u n x x'" "in_box p x" "k * p + k * n \<le> 1000"
  shows "\<exists>y. fpow fp x' k = Fin y \<and> close u (Suc (k * n)) (x ^ k) y"
proof -
  have c: "close u (k * n) (x ^ k) (x' ^ k)"
    using assms(1,2,4) by (rule close_power)
  have "in_box (k * p) (x ^ k)"
    using assms(5) by (rule in_box_power)
  with assms(1,2) have b: "in_box (k * p + k * n) (x' ^ k)"
    using c by (rule in_box_close)
  then have "in_range (x' ^ k)"
    using assms(6) by (rule in_box_in_range)
  then obtain y where y: "fpow fp x' k = Fin y" "\<bar>y - x' ^ k\<bar> \<le> u * \<bar>x' ^ k\<bar>"
    using assms(3) unfolding accurate_def by blast
  have "close u 1 (x' ^ k) y"
    using assms(1,2) in_box_pos [OF b] y(2) by (rule close_of_error)
  with assms(1,2) c have "close u (k * n + 1) (x ^ k) y"
    by (rule close_trans)
  with y(1) show ?thesis
    by simp
qed

lemma flog_step:
  assumes "0 \<le> u" "u \<le> 1 / 2" "accurate fp u"
    and "close u n l (ln x')" "0 < x'" "in_box p l" "p + n \<le> 1000"
  shows "\<exists>y. flog fp x' = Fin y \<and> close u (Suc n) l y"
proof -
  have b: "in_box (p + n) (ln x')"
    using assms(1,2,6,4) by (rule in_box_close)
  then have "in_range (ln x')"
    using assms(7) by (rule in_box_in_range)
  then obtain y where y: "flog fp x' = Fin y" "\<bar>y - ln x'\<bar> \<le> u * \<bar>ln x'\<bar>"
    using assms(3,5) unfolding accurate_def by blast
  have "close u 1 (ln x') y"
    using assms(1,2) in_box_pos [OF b] y(2) by (rule close_of_error)
  with assms(1,2,4) have "close u (n + 1) l y"
    by (rule close_trans)
  with y(1) show ?thesis
    by simp
qed

lemma power_one_minus_le:
  assumes "0 \<le> u" "u \<le> 1 / 2" "real m * u \<le> 1"
  shows "(1 - u) ^ m \<le> 1 - real m * u / 2"
proof -
  have "1 + real m * u \<le> (1 + u) ^ m"
    using assms(1) by (intro Bernoulli_inequality) simp
  moreover have "(1 - u) ^ m * (1 + u) ^ m \<le> 1"
  proof -
    have "(1 - u) ^ m * (1 + u) ^ m = (1 - u * u) ^ m"
      by (simp add: power_mult_distrib [symmetric] algebra_simps)
    also have "\<dots> \<le> 1"
      using assms(1,2) by (intro power_le_one) (simp_all add: mult_le_one)
    finally show ?thesis .
  qed
  moreover have "0 \<le> (1 - u) ^ m"
    using assms(2) by simp
  ultimately have "(1 - u) ^ m * (1 + real m * u) \<le> 1"
    by (meson mult_left_mono order_trans)
  moreover have "0 < 1 + real m * u"
    using assms(1) by (simp add: add_pos_nonneg)
  ultimately have "(1 - u) ^ m \<le> 1 / (1 + real m * u)"
    by (simp add: field_simps)
  also have "\<dots> \<le> 1 - real m * u / 2"
  proof -
    define w where "w = real m * u"
    have w: "0 \<le> w" "w \<le> 1"
      using assms(1,3) by (simp_all add: w_def)
    have "0 \<le> w * (1 - w)"
      using w by (intro mult_nonneg_nonneg) simp_all
    then have "1 \<le> (1 - w / 2) * (1 + w)"
      by (simp add: algebra_simps)
    then show ?thesis
      using w unfolding w_def [symmetric] by (simp add: field_simps)
  qed
  finally show ?thesis .
qed

lemma ln_close:
  assumes "0 \<le> u" "64 * (real n * u) \<le> 1" "0 < n" "close u n r r'" "8 / 7 \<le> r"
  shows "close u (64 * n) (ln r) (ln r')"
proof -
  define w where "w = real n * u"
  have "1 * u \<le> real n * u"
    using assms(1,3) by (intro mult_right_mono) simp_all
  then have u: "u \<le> 1 / 64"
    using assms(2) by simp
  have w: "0 \<le> w" "64 * w \<le> 1"
    using assms(1,2) by (simp_all add: w_def)
  have p: "0 < r" "0 < r'"
    using assms(4) unfolding close_def by blast+
  have q: "0 < (1 - u) ^ n"
    using u by simp
  have "- u - 2 * u\<^sup>2 \<le> ln (1 - u)"
    using assms(1) u by (intro ln_one_minus_pos_lower_bound) simp_all
  moreover have "u\<^sup>2 \<le> u * (1 / 2)"
    unfolding power2_eq_square using assms(1) u by (intro mult_left_mono) simp_all
  ultimately have "- 2 * u \<le> ln (1 - u)"
    by simp
  then have "real n * (- 2 * u) \<le> real n * ln (1 - u)"
    by (intro mult_left_mono) simp_all
  then have lq: "- 2 * w \<le> ln ((1 - u) ^ n)"
    using u by (simp add: ln_realpow w_def)
  have "0 < r * (1 - u) ^ n" "0 < r' * (1 - u) ^ n"
    using p q by simp_all
  then have "ln (r * (1 - u) ^ n) \<le> ln r'" "ln (r' * (1 - u) ^ n) \<le> ln r"
    using assms(4) p unfolding close_def by (simp_all only: ln_le_cancel_iff)
  moreover have "ln (r * (1 - u) ^ n) = ln r + ln ((1 - u) ^ n)"
    using p(1) q by (rule ln_mult_pos)
  moreover have "ln (r' * (1 - u) ^ n) = ln r' + ln ((1 - u) ^ n)"
    using p(2) q by (rule ln_mult_pos)
  ultimately have d: "ln r - 2 * w \<le> ln r'" "ln r' - 2 * w \<le> ln r"
    using lq by linarith+
  have "ln (1 / r) \<le> 1 / r - 1"
    using p by (intro ln_le_minus_one) simp
  moreover have "1 / r \<le> 7 / 8"
    using assms(5) p by (simp add: field_simps)
  ultimately have L: "1 / 8 \<le> ln r"
    using p by (simp add: ln_div)
  have L': "1 / 16 \<le> ln r'"
    using L d w by linarith
  have "(1 - u) ^ (64 * n) \<le> 1 - real (64 * n) * u / 2"
    using assms(1) u w by (intro power_one_minus_le) (simp_all add: w_def)
  then have T: "(1 - u) ^ (64 * n) \<le> 1 - 32 * w"
    by (simp add: w_def mult.commute)
  have T0: "0 \<le> (1 - u) ^ (64 * n)"
    using u by simp
  have a: "32 * w * (1 / 8) \<le> 32 * w * ln r" "32 * w * (1 / 16) \<le> 32 * w * ln r'"
    using L L' w by (intro mult_left_mono; simp)+
  have "ln r * (1 - u) ^ (64 * n) \<le> ln r * (1 - 32 * w)"
    using T L by (intro mult_left_mono) simp_all
  moreover have "ln r * (1 - 32 * w) = ln r - 32 * w * ln r"
    by (simp add: algebra_simps)
  ultimately have 1: "ln r * (1 - u) ^ (64 * n) \<le> ln r'"
    using a(1) d(1) w(1) by linarith
  have "ln r' * (1 - u) ^ (64 * n) \<le> ln r' * (1 - 32 * w)"
    using T L' by (intro mult_left_mono) simp_all
  moreover have "ln r' * (1 - 32 * w) = ln r' - 32 * w * ln r'"
    by (simp add: algebra_simps)
  ultimately have 2: "ln r' * (1 - u) ^ (64 * n) \<le> ln r"
    using a(2) d(2) w(1) by linarith
  show ?thesis
    using 1 2 L L' unfolding close_def by simp
qed

lemma js_pow_2: "js_pow fp (Fin x) 2 = fpow fp x 2"
  by (simp add: numeral_2_eq_2)


lemma in_box_1000: "in_box 10 1000"
  unfolding in_box_def by simp

lemma ln_bounds:
  fixes r :: real
  assumes "8 / 7 \<le> r" "r \<le> 8"
  shows "1 / 8 \<le> ln r" "ln r \<le> 8"
proof -
  have p: "0 < r"
    using assms(1) by linarith
  have "ln (1 / r) \<le> 1 / r - 1"
    using p by (intro ln_le_minus_one) simp
  moreover have "1 / r \<le> 7 / 8"
    using assms(1) p by (simp add: field_simps)
  ultimately show "1 / 8 \<le> ln r"
    using p by (simp add: ln_div)
  have "ln r \<le> r - 1"
    using p by (rule ln_le_minus_one)
  then show "ln r \<le> 8"
    using assms(2) by linarith
qed

lemma lnTerm_accurate:
  assumes "0 \<le> u" "u \<le> 1 / 2 ^ 10" "accurate fp u"
    and "in_box 11 (tf + b)" "in_box 11 (ti + b)" "8 / 7 \<le> (tf + b) / (ti + b)"
    and "(tf + b) / (ti + b) \<le> 8"
  shows "\<exists>l. Math_log fp (js_div fp (js_add fp (Fin tf) (Fin b)) (js_add fp (Fin ti) (Fin b)))
               = Fin l
            \<and> close u 193 (ln ((tf + b) / (ti + b))) l
            \<and> in_box 3 (ln ((tf + b) / (ti + b)))"
proof -
  let ?r = "(tf + b) / (ti + b)"
  have u: "u \<le> 1 / 2"
    using assms(2) by simp
  obtain A where A: "rnd fp (tf + b) = Fin A" "close u 1 (tf + b) A"
    using rnd_step [OF assms(1) u assms(3) close_refl [OF in_box_pos [OF assms(4)]] assms(4)]
    by auto
  obtain B where B: "rnd fp (ti + b) = Fin B" "close u 1 (ti + b) B"
    using rnd_step [OF assms(1) u assms(3) close_refl [OF in_box_pos [OF assms(5)]] assms(5)]
    by auto
  have B0: "B \<noteq> 0"
    using close_pos(2) [OF B(2)] by simp
  have cr: "close u (1 + 1) ?r (A / B)"
    using assms(1) u A(2) B(2) by (rule close_div)
  have br: "in_box (11 + 11) ?r"
    using assms(4,5) by (rule in_box_div)
  obtain R where R: "rnd fp (A / B) = Fin R" "close u (Suc (1 + 1)) ?r R"
    using rnd_step [OF assms(1) u assms(3) cr br] by auto
  have R0: "0 < R"
    using close_pos(2) [OF R(2)] .
  have r1: "8 / 7 \<le> ?r"
    by (rule assms(6))
  have "close u (64 * Suc (1 + 1)) (ln ?r) (ln R)"
    using assms(1) _ _ R(2) r1
  proof (rule ln_close)
    show "64 * (real (Suc (1 + 1)) * u) \<le> 1"
      using assms(2) by simp
  qed simp
  then have cl: "close u 192 (ln ?r) (ln R)"
    by simp
  have lo: "1 / 8 \<le> ln ?r" and hi: "ln ?r \<le> 8"
    using r1 assms(7) by (rule ln_bounds)+
  have bl: "in_box 3 (ln ?r)"
    using lo hi unfolding in_box_def by simp
  obtain l where l: "flog fp R = Fin l" "close u (Suc 192) (ln ?r) l"
    using flog_step [OF assms(1) u assms(3) cl R0 bl] by auto
  have "Math_log fp (js_div fp (js_add fp (Fin tf) (Fin b)) (js_add fp (Fin ti) (Fin b))) = Fin l"
    using A(1) B(1) B0 R(1) R0 l(1) by simp
  moreover have "close u 193 (ln ?r) l"
    using l(2) by simp
  ultimately show ?thesis
    using bl by blast
qed

lemma S_sq_accurate:
  assumes "0 \<le> u" "u \<le> 1 / 2" "accurate fp u"
    and "in_box 20 c" "in_box 20 t" "in_box 20 k" "close u m l0 l" "in_box 200 l0" "m \<le> 200"
  shows "\<exists>q. js_div fp (js_mul fp (js_pow fp (js_mul fp (Fin c) (Fin 1000)) 2) (Fin t))
                 (js_mul fp (js_pow fp (Fin k) 2) (Fin l)) = Fin q
             \<and> close u (m + 7) ((c * 1000)\<^sup>2 * t / (k\<^sup>2 * l0)) q
             \<and> in_box 320 ((c * 1000)\<^sup>2 * t / (k\<^sup>2 * l0))"
proof -
  note step = rnd_step [OF assms(1,2,3)]
  note pstep = fpow_step [OF assms(1,2,3)]
  note cmult = close_mult [OF assms(1,2)]
  have bc: "in_box (20 + 10) (c * 1000)"
    using assms(4) in_box_1000 by (rule in_box_mult)
  obtain a where a: "rnd fp (c * 1000) = Fin a" "close u (Suc 0) (c * 1000) a"
    using step [OF close_refl [OF in_box_pos [OF bc]] bc] by auto
  obtain P where P: "fpow fp a 2 = Fin P" "close u (Suc (2 * Suc 0)) ((c * 1000)\<^sup>2) P"
    using pstep [OF a(2) bc, of 2] by auto
  have bP: "in_box (2 * (20 + 10)) ((c * 1000)\<^sup>2)"
    using bc by (rule in_box_power)
  have cN: "close u (Suc (2 * Suc 0) + 0) ((c * 1000)\<^sup>2 * t) (P * t)"
    using P(2) close_refl [OF in_box_pos [OF assms(5)]] by (rule cmult)
  have bN: "in_box (2 * (20 + 10) + 20) ((c * 1000)\<^sup>2 * t)"
    using bP assms(5) by (rule in_box_mult)
  obtain N where N: "rnd fp (P * t) = Fin N"
      "close u (Suc (Suc (2 * Suc 0) + 0)) ((c * 1000)\<^sup>2 * t) N"
    using step [OF cN bN] by auto
  obtain K2 where K2: "fpow fp k 2 = Fin K2" "close u (Suc (2 * 0)) (k\<^sup>2) K2"
    using pstep [OF close_refl [OF in_box_pos [OF assms(6)]] assms(6), of 2] by auto
  have bK: "in_box (2 * 20) (k\<^sup>2)"
    using assms(6) by (rule in_box_power)
  have cD: "close u (Suc (2 * 0) + m) (k\<^sup>2 * l0) (K2 * l)"
    using K2(2) assms(7) by (rule cmult)
  have bD: "in_box (2 * 20 + 200) (k\<^sup>2 * l0)"
    using bK assms(8) by (rule in_box_mult)
  obtain D where D: "rnd fp (K2 * l) = Fin D" "close u (Suc (Suc (2 * 0) + m)) (k\<^sup>2 * l0) D"
    using step [OF cD bD] assms(9) by auto
  have D0: "D \<noteq> 0"
    using close_pos(2) [OF D(2)] by simp
  have cQ: "close u (Suc (Suc (2 * Suc 0) + 0) + Suc (Suc (2 * 0) + m))
              ((c * 1000)\<^sup>2 * t / (k\<^sup>2 * l0)) (N / D)"
    using assms(1,2) N(2) D(2) by (rule close_div)
  have bQ: "in_box ((2 * (20 + 10) + 20) + (2 * 20 + 200)) ((c * 1000)\<^sup>2 * t / (k\<^sup>2 * l0))"
    using bN bD by (rule in_box_div)
  obtain q where q: "rnd fp (N / D) = Fin q"
      "close u (Suc (Suc (Suc (2 * Suc 0) + 0) + Suc (Suc (2 * 0) + m)))
         ((c * 1000)\<^sup>2 * t / (k\<^sup>2 * l0)) q"
    using step [OF cQ bQ] assms(9) by auto
  have "js_div fp (js_mul fp (js_pow fp (js_mul fp (Fin c) (Fin 1000)) 2) (Fin t))
          (js_mul fp (js_pow fp (Fin k) 2) (Fin l)) = Fin q"
    using a(1) P(1) N(1) K2(1) D(1) D0 q(1) by (simp add: js_pow_2)
  moreover have "close u (m + 7) ((c * 1000)\<^sup>2 * t / (k\<^sup>2 * l0)) q"
    using q(2) by (simp add: eval_nat_numeral)
  moreover have "in_box 320 ((c * 1000)\<^sup>2 * t / (k\<^sup>2 * l0))"
    using bQ by simp
  ultimately show ?thesis
    by blast
qed

lemma validateVoltageTime_Fin:
  "validateVoltageTime (Fin v) (Fin t) \<longleftrightarrow> 0 < v \<and> v \<le> 400 \<and> 0 < t \<and> t \<le> 10"
  by (auto simp: validateVoltageTime_def js_gt_def)

lemma conductor_lnTerm:
  assumes "0 \<le> u" "u \<le> 1 / 2 ^ 10" "accurate fp u" "0 \<le> b" "b \<le> 1000"
  shows "\<exists>l. Math_log fp (js_div fp (js_add fp (Fin 250) (Fin b)) (js_add fp (Fin 90) (Fin b)))
               = Fin l
            \<and> close u 193 (ln ((250 + b) / (90 + b))) l
            \<and> in_box 3 (ln ((250 + b) / (90 + b)))"
  using assms(1,2,3)
proof (rule lnTerm_accurate)
  show "in_box 11 (250 + b)" "in_box 11 (90 + b)"
    using assms(4,5) unfolding in_box_def by simp_all
  show "8 / 7 \<le> (250 + b) / (90 + b)" "(250 + b) / (90 + b) \<le> 8"
    using assms(4,5) by (simp_all add: field_simps)
qed

lemma conductor_area_shape:
  assumes "parseFloat fp (el_voltageKv d) = Fin v" "parseFloat fp (el_sccKa d) = Fin c"
    "parseFloat fp (el_timeSec d) = Fin t" "parseFloat fp (el_kValue d) = Fin k"
    "parseFloat fp (el_beta d) = Fin b"
    and "0 < v" "v \<le> 400" "0 < t" "t \<le> 10" "0 < c" "0 < k"
    and "Math_log fp (js_div fp (js_add fp (Fin 250) (Fin b)) (js_add fp (Fin 90) (Fin b)))
           = Fin l"
    and "js_div fp (js_mul fp (js_pow fp (js_mul fp (Fin c) (Fin 1000)) 2) (Fin t))
           (js_mul fp (js_pow fp (Fin k) 2) (Fin l)) = Fin q"
  shows "calculateConductorAreaFromCurrent fp d
           = (if l \<le> 0 \<or> q \<le> 0 then None else Some (fsqrt fp q))"
  unfolding calculateConductorAreaFromCurrent_def Let_def assms(1,2,3,4,5) assms(12) assms(13)
  using assms(6,7,8,9,10,11) by (simp add: validateVoltageTime_Fin)

lemma conductor_area_accurate:
  assumes "0 \<le> u" "u \<le> 1 / 2 ^ 10" "accurate fp u"
    and "parseFloat fp (el_voltageKv d) = Fin v" "parseFloat fp (el_sccKa d) = Fin c"
    "parseFloat fp (el_timeSec d) = Fin t" "parseFloat fp (el_kValue d) = Fin k"
    "parseFloat fp (el_beta d) = Fin b"
    and "0 < v" "v \<le> 400" "in_box 20 c" "in_box 20 t" "t \<le> 10" "in_box 20 k"
    and "0 \<le> b" "b \<le> 1000"
  shows "\<exists>l S. Math_log fp (js_div fp (js_add fp (Fin 250) (Fin b)) (js_add fp (Fin 90) (Fin b)))
                 = Fin l
             \<and> in_box 196 l
             \<and> calculateConductorAreaFromCurrent fp d = Some (Fin S)
             \<and> close u 5 (sqrt ((c * 1000)\<^sup>2 * t / (k\<^sup>2 * l))) S
             \<and> close u 101 (sqrt ((c * 1000)\<^sup>2 * t / (k\<^sup>2 * ln ((250 + b) / (90 + b))))) S
             \<and> in_box 325 S"
proof -
  have u: "u \<le> 1 / 2"
    using assms(2) by simp
  let ?L = "ln ((250 + b) / (90 + b))"
  obtain l where l: "Math_log fp (js_div fp (js_add fp (Fin 250) (Fin b)) (js_add fp (Fin 90) (Fin b)))
      = Fin l" "close u 193 ?L l" "in_box 3 ?L"
    using conductor_lnTerm [OF assms(1,2,3,15,16)] by blast
  have bl: "in_box (3 + 193) l"
    using assms(1) u l(3,2) by (rule in_box_close)
  then have bl': "in_box 200 l"
    by (rule in_box_mono) simp
  have l0: "0 < l"
    using bl by (rule in_box_pos)
  obtain q where q: "js_div fp (js_mul fp (js_pow fp (js_mul fp (Fin c) (Fin 1000)) 2) (Fin t))
                 (js_mul fp (js_pow fp (Fin k) 2) (Fin l)) = Fin q"
      "close u (0 + 7) ((c * 1000)\<^sup>2 * t / (k\<^sup>2 * l)) q"
      "in_box 320 ((c * 1000)\<^sup>2 * t / (k\<^sup>2 * l))"
    using S_sq_accurate [OF assms(1) u assms(3,11,12,14) close_refl [OF l0] bl'] by auto
  obtain q' where q': "js_div fp (js_mul fp (js_pow fp (js_mul fp (Fin c) (Fin 1000)) 2) (Fin t))
                 (js_mul fp (js_pow fp (Fin k) 2) (Fin l)) = Fin q'"
      "close u (193 + 7) ((c * 1000)\<^sup>2 * t / (k\<^sup>2 * ?L)) q'"
      "in_box 320 ((c * 1000)\<^sup>2 * t / (k\<^sup>2 * ?L))"
    using S_sq_accurate [OF assms(1) u assms(3,11,12,14) l(2) in_box_mono [OF l(3)]] by auto
  have qq: "q' = q"
    using q(1) q'(1) by simp
  have q0: "0 < q"
    using close_pos(2) [OF q(2)] .
  have c1: "close u (2 * 4) ((c * 1000)\<^sup>2 * t / (k\<^sup>2 * l)) q"
    using assms(1) u q(2) by (rule close_mono) simp
  obtain S where S: "fsqrt fp q = Fin S"
      "close u (Suc 4) (sqrt ((c * 1000)\<^sup>2 * t / (k\<^sup>2 * l))) S"
    using fsqrt_step [OF assms(1) u assms(3) c1 q(3)] by auto
  have c2: "close u (2 * 100) ((c * 1000)\<^sup>2 * t / (k\<^sup>2 * ?L)) q"
    using q'(2) unfolding qq by simp
  obtain S' where S': "fsqrt fp q = Fin S'"
      "close u (Suc 100) (sqrt ((c * 1000)\<^sup>2 * t / (k\<^sup>2 * ?L))) S'"
    using fsqrt_step [OF assms(1) u assms(3) c2 q'(3)] by auto
  have SS: "S' = S"
    using S(1) S'(1) by simp
  have "in_box 320 (sqrt ((c * 1000)\<^sup>2 * t / (k\<^sup>2 * l)))"
    using q(3) by (rule in_box_sqrt)
  with assms(1) u have bS: "in_box (320 + Suc 4) S"
    using S(2) by (rule in_box_close)
  have "calculateConductorAreaFromCurrent fp d = Some (Fin S)"
    using conductor_area_shape [OF assms(4,5,6,7,8,9,10) in_box_pos [OF assms(12)] assms(13)
        in_box_pos [OF assms(11)] in_box_pos [OF assms(14)] l(1) q(1)] l0 q0 S(1)
    by simp
  moreover have "close u 5 (sqrt ((c * 1000)\<^sup>2 * t / (k\<^sup>2 * l))) S"
    using S(2) by simp
  moreover have "close u 101 (sqrt ((c * 1000)\<^sup>2 * t / (k\<^sup>2 * ?L))) S"
    using S'(2) unfolding SS by simp
  moreover have "in_box 325 S"
    using bS by simp
  moreover have "in_box 196 l"
    using bl by simp
  ultimately show ?thesis
    using l(1) by blast
qed

lemma conductor_current_shape:
  assumes "parseFloat fp (el_timeSec d) = Fin t" "parseFloat fp (el_kValue d) = Fin k"
    "parseFloat fp (el_beta d) = Fin b" "parseFloat fp (el_givenConductorArea d) = Fin s"
    and "0 < t" "0 < k" "0 < s"
    and "Math_log fp (js_div fp (js_add fp (Fin 250) (Fin b)) (js_add fp (Fin 90) (Fin b)))
           = Fin l"
  shows "calculateConductorCurrentFromArea fp d
           = (if l \<le> 0 then None
              else Some (js_div fp (js_mul fp (js_mul fp (Fin k) (Fin s))
                     (Math_sqrt fp (js_div fp (Fin l) (Fin t)))) (Fin 1000)))"
  unfolding calculateConductorCurrentFromArea_def Let_def assms(1,2,3,4) assms(8)
  using assms(5,6,7) by simp

lemma conductor_current_accurate:
  assumes "0 \<le> u" "u \<le> 1 / 2" "accurate fp u"
    and "parseFloat fp (el_timeSec d) = Fin t" "parseFloat fp (el_kValue d) = Fin k"
    "parseFloat fp (el_beta d) = Fin b" "parseFloat fp (el_givenConductorArea d) = Fin s"
    and "Math_log fp (js_div fp (js_add fp (Fin 250) (Fin b)) (js_add fp (Fin 90) (Fin b)))
           = Fin l"
    and "in_box 20 t" "in_box 20 k" "in_box 400 s" "in_box 200 l"
  shows "\<exists>c'. calculateConductorCurrentFromArea fp d = Some (Fin c')
             \<and> close u 5 (k * s * sqrt (l / t) / 1000) c'"
proof -
  note step = rnd_step [OF assms(1,2,3)]
  note cmult = close_mult [OF assms(1,2)]
  have p: "0 < t" "0 < k" "0 < s" "0 < l"
    using assms(9,10,11,12) by (auto dest: in_box_pos)
  have bks: "in_box (20 + 400) (k * s)"
    using assms(10,11) by (rule in_box_mult)
  obtain KS where KS: "rnd fp (k * s) = Fin KS" "close u (Suc 0) (k * s) KS"
    using step [OF close_refl [OF in_box_pos [OF bks]] bks] by auto
  have blt: "in_box (200 + 20) (l / t)"
    using assms(12,9) by (rule in_box_div)
  obtain R where R: "rnd fp (l / t) = Fin R" "close u (Suc 0) (l / t) R"
    using step [OF close_refl [OF in_box_pos [OF blt]] blt] by auto
  have R0: "0 < R"
    using close_pos(2) [OF R(2)] .
  have cR: "close u (2 * 1) (l / t) R"
    using assms(1,2) R(2) by (rule close_mono) simp
  obtain sq where sq: "fsqrt fp R = Fin sq" "close u (Suc 1) (sqrt (l / t)) sq"
    using fsqrt_step [OF assms(1,2,3) cR blt] by auto
  have cI: "close u (Suc 0 + Suc 1) (k * s * sqrt (l / t)) (KS * sq)"
    using KS(2) sq(2) by (rule cmult)
  have bI: "in_box ((20 + 400) + (200 + 20)) (k * s * sqrt (l / t))"
    using bks in_box_sqrt [OF blt] by (rule in_box_mult)
  obtain I where I: "rnd fp (KS * sq) = Fin I"
      "close u (Suc (Suc 0 + Suc 1)) (k * s * sqrt (l / t)) I"
    using step [OF cI bI] by auto
  have cC: "close u (Suc (Suc 0 + Suc 1) + 0) (k * s * sqrt (l / t) / 1000) (I / 1000)"
    using assms(1,2) I(2) by (rule close_div) (simp add: close_def)
  have bC: "in_box (((20 + 400) + (200 + 20)) + 10) (k * s * sqrt (l / t) / 1000)"
    using bI in_box_1000 by (rule in_box_div)
  obtain c' where c': "rnd fp (I / 1000) = Fin c'"
      "close u (Suc (Suc (Suc 0 + Suc 1) + 0)) (k * s * sqrt (l / t) / 1000) c'"
    using step [OF cC bC] by auto
  have "calculateConductorCurrentFromArea fp d = Some (Fin c')"
    using conductor_current_shape [OF assms(4,5,6,7) p(1,2,3) assms(8)]
      p(1,4) KS(1) R(1) R0 sq(1) I(1) c'(1)
    by simp
  moreover have "close u 5 (k * s * sqrt (l / t) / 1000) c'"
    using c'(2) by (simp add: eval_nat_numeral)
  ultimately show ?thesis
    by blast
qed

lemma round_trip_real:
  fixes c t k l :: real
  assumes "0 < c" "0 < t" "0 < k" "0 < l"
  shows "k * sqrt ((c * 1000)\<^sup>2 * t / (k\<^sup>2 * l)) * sqrt (l / t) / 1000 = c"
proof -
  let ?X = "(c * 1000)\<^sup>2 * t / (k\<^sup>2 * l)"
  have e1: "sqrt ?X * sqrt (l / t) = sqrt (?X * (l / t))"
    by (simp only: real_sqrt_mult)
  have e2: "?X * (l / t) = (c * 1000 / k)\<^sup>2"
    using assms by (simp add: field_simps power2_eq_square)
  have e3: "sqrt ((c * 1000 / k)\<^sup>2) = c * 1000 / k"
    using assms by simp
  have "sqrt ?X * sqrt (l / t) = c * 1000 / k"
    by (simp only: e1 e2 e3)
  then have "k * (sqrt ?X * sqrt (l / t)) / 1000 = c"
    using assms by simp
  then show ?thesis
    by (simp only: mult.assoc)
qed

lemma exp_Taylor6:
  fixes x :: real
  assumes "0 \<le> x" "x \<le> 1"
  shows "(\<Sum>m<6. x ^ m / fact m) \<le> exp x"
    and "exp x \<le> (\<Sum>m<6. x ^ m / fact m) + 3 * x ^ 6 / 720"
proof -
  obtain u where u: "\<bar>u\<bar> \<le> \<bar>x\<bar>"
    and e: "exp x = (\<Sum>m<6. x ^ m / fact m) + (exp u / fact 6) * x ^ 6"
    using Maclaurin_exp_le [of x 6] by blast
  have f6: "fact 6 = (720::real)"
    by (simp add: eval_nat_numeral)
  have x6: "0 \<le> x ^ 6"
    using assms(1) by simp
  have "0 \<le> exp u / fact 6 * x ^ 6"
    using x6 by simp
  with e show "(\<Sum>m<6. x ^ m / fact m) \<le> exp x"
    by linarith
  have "u \<le> 1"
    using u assms by linarith
  then have "exp u \<le> exp 1"
    by simp
  also have "exp (1::real) \<le> 3"
    using exp_bound [of 1] by simp
  finally have "exp u * x ^ 6 \<le> 3 * x ^ 6"
    using x6 by (rule mult_right_mono)
  then have "exp u / fact 6 * x ^ 6 \<le> 3 * x ^ 6 / 720"
    by (simp add: f6)
  with e show "exp x \<le> (\<Sum>m<6. x ^ m / fact m) + 3 * x ^ 6 / 720"
    by linarith
qed

lemma ln_copper_bounds:
  "0.4005 < ln (969 / 649 :: real)" "ln (969 / 649 :: real) < 0.4009"
proof -
  have "exp (0.4005::real) \<le> (\<Sum>m<6. 0.4005 ^ m / fact m) + 3 * 0.4005 ^ 6 / 720"
    by (rule exp_Taylor6) simp_all
  also have "\<dots> < 969 / 649"
    by (simp add: eval_nat_numeral)
  finally have "ln (exp (0.4005::real)) < ln (969 / 649)"
    by (subst ln_less_cancel_iff) simp_all
  then show "0.4005 < ln (969 / 649 :: real)"
    by simp
  have "(969 / 649 :: real) < (\<Sum>m<6. 0.4009 ^ m / fact m)"
    by (simp add: eval_nat_numeral)
  also have "\<dots> \<le> exp 0.4009"
    by (rule exp_Taylor6) simp_all
  finally have "ln (969 / 649 :: real) < ln (exp 0.4009)"
    by (subst ln_less_cancel_iff) simp_all
  then show "ln (969 / 649 :: real) < 0.4009"
    by simp
qed

lemma copper_area_bounds:
  "174.705 < sqrt (625000000 / (51076 * ln (969 / 649)))"
  "sqrt (625000000 / (51076 * ln (969 / 649))) < 174.796"
proof -
  let ?L = "ln (969 / 649 :: real)"
  have lo: "0.4005 < ?L" and hi: "?L < 0.4009"
    by (rule ln_copper_bounds)+
  have pos: "0 < 51076 * ?L"
    by simp
  have "174.705\<^sup>2 * (51076 * ?L) < 625000000"
    using hi by (simp add: power2_eq_square)
  then have "174.705\<^sup>2 < 625000000 / (51076 * ?L)"
    by (simp only: pos_less_divide_eq [OF pos])
  then show "174.705 < sqrt (625000000 / (51076 * ?L))"
    by (rule real_less_rsqrt)
  have "625000000 < 174.796\<^sup>2 * (51076 * ?L)"
    using lo by (simp add: power2_eq_square)
  then have "625000000 / (51076 * ?L) < 174.796\<^sup>2"
    by (simp only: pos_divide_less_eq [OF pos])
  then show "sqrt (625000000 / (51076 * ?L)) < 174.796"
    by (rule real_less_lsqrt [rotated]) simp
qed

lemma copper_formula:
  "sqrt ((25 * 1000)\<^sup>2 * 1 / (226\<^sup>2 * ln ((250 + 234.5) / (90 + 234.5))))
     = sqrt (625000000 / (51076 * ln (969 / 649)))"
  by simp

lemma exact_simps:
  assumes "exact fp"
  shows "rnd fp x = Fin x" "flog fp x = Fin (ln x)" "fpow fp x n = Fin (x ^ n)"
    "fsqrt fp x = Fin (sqrt x)" "literal fp x = Fin x" "Math_PI fp = Fin pi"
  using assms unfolding exact_def literal_def Math_PI_def by simp_all

lemma exact_unrounded: "exact unrounded"
  unfolding exact_def unrounded_def by simp


lemma conductor_area_exact:
  assumes "exact fp"
    and "parseFloat fp (el_voltageKv d) = Fin v" "parseFloat fp (el_sccKa d) = Fin c"
    "parseFloat fp (el_timeSec d) = Fin t" "parseFloat fp (el_kValue d) = Fin k"
    "parseFloat fp (el_beta d) = Fin b"
    and "0 < v" "v \<le> 400" "0 < t" "t \<le> 10" "0 < c" "0 < k" "- 90 < b"
  shows "calculateConductorAreaFromCurrent fp d =
           Some (Fin (sqrt ((c * 1000)\<^sup>2 * t / (k\<^sup>2 * ln ((250 + b) / (90 + b))))))"
proof -
  have l: "0 < ln ((250 + b) / (90 + b))"
    using assms(13) by (simp add: field_simps)
  have ne: "90 + b \<noteq> 0" "\<not> (250 + b) / (90 + b) < 0" "(250 + b) / (90 + b) \<noteq> 0"
    using assms(13) by (simp_all add: field_simps)
  have sq: "0 < (c * 1000)\<^sup>2 * t / (k\<^sup>2 * ln ((250 + b) / (90 + b)))"
    using assms l by simp
  have L: "Math_log fp (js_div fp (js_add fp (Fin 250) (Fin b)) (js_add fp (Fin 90) (Fin b)))
             = Fin (ln ((250 + b) / (90 + b)))"
    using ne by (simp add: exact_simps [OF assms(1)])
  have k: "k\<^sup>2 * ln ((250 + b) / (90 + b)) \<noteq> 0"
    using assms(12) l by simp
  have Q: "js_div fp (js_mul fp (js_pow fp (js_mul fp (Fin c) (Fin 1000)) 2) (Fin t))
             (js_mul fp (js_pow fp (Fin k) 2) (Fin (ln ((250 + b) / (90 + b)))))
           = Fin ((c * 1000)\<^sup>2 * t / (k\<^sup>2 * ln ((250 + b) / (90 + b))))"
    using k by (simp add: exact_simps [OF assms(1)] js_pow_2)
  show ?thesis
    using conductor_area_shape [OF assms(2,3,4,5,6,7,8,9,10,11,12) L Q] l sq
    by (simp add: exact_simps [OF assms(1)])
qed

lemma abs_bound_interval:
  fixes S a lo hi e :: real
  assumes "\<bar>S - a\<bar> \<le> e" "lo + e < a" "a + e < hi"
  shows "lo < S \<and> S < hi"
  using assms by linarith

lemma copper_area_accurate:
  assumes "0 \<le> u" "u \<le> 1 / 2 ^ 30" "accurate fp u"
    and "parseFloat fp (el_voltageKv d) = Fin v" "0 < v" "v \<le> 400"
    and "parseFloat fp (el_sccKa d) = Fin 25" "parseFloat fp (el_timeSec d) = Fin 1"
    and "parseFloat fp (el_kValue d) = Fin 226" "parseFloat fp (el_beta d) = Fin 234.5"
  shows "\<exists>S. calculateConductorAreaFromCurrent fp d = Some (Fin S) \<and> 174.7 < S \<and> S < 174.8"
proof -
  let ?S0 = "sqrt (625000000 / (51076 * ln (969 / 649 :: real)))"
  have u: "u \<le> 1 / 2 ^ 10"
    using assms(2) by simp
  have box: "in_box 20 25" "in_box 20 1" "in_box 20 226"
    unfolding in_box_def by simp_all
  obtain S where S: "calculateConductorAreaFromCurrent fp d = Some (Fin S)"
      "close u 101 (sqrt ((25 * 1000)\<^sup>2 * 1 / (226\<^sup>2 * ln ((250 + 234.5) / (90 + 234.5))))) S"
    using conductor_area_accurate [OF assms(1) u assms(3,4,7,8,9,10,5,6) box(1,2) _ box(3)]
    by auto
  have c: "close u 101 ?S0 S"
    using S(2) unfolding copper_formula .
  have "\<bar>S - ?S0\<bar> \<le> 2 * real 101 * u * ?S0"
    using assms(1) _ c by (rule close_bound) (use assms(2) in simp)
  moreover have "u * ?S0 \<le> 1 / 2 ^ 30 * 174.796"
    using assms(1,2) copper_area_bounds by (intro mult_mono) simp_all
  ultimately have "\<bar>S - ?S0\<bar> \<le> 1 / 1000"
    by simp
  moreover have "174.7 + 1 / 1000 < ?S0" "?S0 + 1 / 1000 < 174.8"
    using copper_area_bounds by simp_all
  ultimately have "174.7 < S \<and> S < 174.8"
    by (rule abs_bound_interval)
  with S(1) show ?thesis
    by blast
qed

lemma close_upper:
  assumes "0 \<le> u" "u \<le> 1 / 2" "close u 1 x y"
  shows "y \<le> 2 * x"
proof -
  have y: "0 < y" "y * (1 - u) \<le> x"
    using assms(3) unfolding close_def by simp_all
  have "y * (1 / 2) \<le> y * (1 - u)"
    using assms(2) y(1) by (intro mult_left_mono) simp_all
  then have "y * (1 / 2) \<le> x"
    using y(2) by (rule order_trans)
  then show ?thesis
    by simp
qed

subsection \<open>The shape of the two submit handlers\<close>

lemma guard_chain_fails:
  assumes "A \<or> B \<or> C \<or> D \<or> X = None \<or> Y = None \<or> (\<exists>m. Y = Some m \<and> Z m = None)"
  shows "(if A then s else if B then s else if C then s else if D then s
          else (case X of None \<Rightarrow> s
                | Some a \<Rightarrow> (case Y of None \<Rightarrow> s
                    | Some m \<Rightarrow> (case Z m of None \<Rightarrow> s | Some e \<Rightarrow> F a m e)))) = s"
  using assms by (auto split: option.splits)

lemma guard_chain_passes:
  assumes "\<not> A" "\<not> B" "\<not> C" "\<not> D" "X = Some a" "Y = Some m" "Z m = Some e"
  shows "(if A then s else if B then s else if C then s else if D then s
          else (case X of None \<Rightarrow> s
                | Some a \<Rightarrow> (case Y of None \<Rightarrow> s
                    | Some m \<Rightarrow> (case Z m of None \<Rightarrow> s | Some e \<Rightarrow> F a m e)))) = F a m e"
  using assms by simp

lemma conductor_chain_fails:
  assumes "(A \<and> (X = None \<or> (\<exists>a. X = Some a \<and> B a))) \<or> (\<not> A \<and> Y = None)"
  shows "(if A then (case X of None \<Rightarrow> s | Some a \<Rightarrow> if B a then s else F a)
          else (case Y of None \<Rightarrow> s | Some c \<Rightarrow> G c)) = s"
  using assms by (auto split: option.splits)

lemma conductor_chain_area:
  assumes "A" "X = Some a" "\<not> B a"
  shows "(if A then (case X of None \<Rightarrow> s | Some a \<Rightarrow> if B a then s else F a)
          else (case Y of None \<Rightarrow> s | Some c \<Rightarrow> G c)) = F a"
  using assms by simp

lemma conductor_chain_all:
  assumes "P s" "\<And>a. P (F a)" "\<And>c. P (G c)"
  shows "P (if A then (case X of None \<Rightarrow> s | Some a \<Rightarrow> if B a then s else F a)
            else (case Y of None \<Rightarrow> s | Some c \<Rightarrow> G c))"
  using assms by (simp split: option.splits)

lemma guard_chain_all:
  assumes "P s" "\<And>a m e. P (F a m e)"
  shows "P (if A then s else if B then s else if C then s else if D then s
          else (case X of None \<Rightarrow> s
                | Some a \<Rightarrow> (case Y of None \<Rightarrow> s
                    | Some m \<Rightarrow> (case Z m of None \<Rightarrow> s | Some e \<Rightarrow> F a m e))))"
  using assms by (simp split: option.splits)

lemma sheath_fail:
  assumes "toLowerCase (el_sheathMaterial d) = []
       \<or> list_ex isNaN
            [parseFloat fp (el_sheathVoltageKv d), parseFloat fp (el_sheathSccKa d),
             parseFloat fp (el_sheathTimeSec d), parseFloat fp (el_sheathThetaInitial d),
             parseFloat fp (el_sheathThetaFinal d), parseFloat fp (el_sheathOuterD d),
             parseFloat fp (el_sheathInnerD d), parseFloat fp (el_sheathThickness d),
             parseFloat fp (el_sheathAreaGiven d)]
       \<or> el_insulationMaterial d = [] \<or> el_outerSheathMaterial d = []
       \<or> \<not> validateVoltageTime (parseFloat fp (el_sheathVoltageKv d)) (parseFloat fp (el_sheathTimeSec d))
       \<or> js_le (parseFloat fp (el_sheathSccKa d)) (Fin 0)
       \<or> \<not> (js_gt (parseFloat fp (el_sheathOuterD d)) (parseFloat fp (el_sheathInnerD d))
             \<and> js_gt (parseFloat fp (el_sheathOuterD d)) (Fin 0)
             \<and> js_gt (parseFloat fp (el_sheathInnerD d)) (Fin 0))
       \<or> calculateSheathAdiabaticArea fp (parseFloat fp (el_sheathSccKa d))
            (parseFloat fp (el_sheathTimeSec d)) (toLowerCase (el_sheathMaterial d))
            (parseFloat fp (el_sheathThetaInitial d)) (parseFloat fp (el_sheathThetaFinal d)) = None
       \<or> calculateM fp (el_insulationMaterial d) (el_outerSheathMaterial d)
            (parseFloat fp (el_sheathThickness d)) (toLowerCase (el_sheathMaterial d))
            (parseFloat fp (el_sheathVoltageKv d)) ''no'' = None
       \<or> calculateEpsilon fp
            (calculateM fp (el_insulationMaterial d) (el_outerSheathMaterial d)
               (parseFloat fp (el_sheathThickness d)) (toLowerCase (el_sheathMaterial d))
               (parseFloat fp (el_sheathVoltageKv d)) ''no'')
            (parseFloat fp (el_sheathTimeSec d)) = None"
  shows "sheathForm_submit fp d s = s"
  unfolding sheathForm_submit_def Let_def
  apply (rule guard_chain_fails)
  using assms
  apply (cases "calculateM fp (el_insulationMaterial d) (el_outerSheathMaterial d)
            (parseFloat fp (el_sheathThickness d)) (toLowerCase (el_sheathMaterial d))
            (parseFloat fp (el_sheathVoltageKv d)) ''no''")
   apply blast
  apply auto
  done

lemma area_guard_null:
  assumes "list_ex isNaN
              [parseFloat fp (el_voltageKv d), parseFloat fp (el_sccKa d), parseFloat fp (el_timeSec d),
               parseFloat fp (el_kValue d), parseFloat fp (el_beta d)]
           \<or> \<not> validateVoltageTime (parseFloat fp (el_voltageKv d)) (parseFloat fp (el_timeSec d))
           \<or> js_le (parseFloat fp (el_sccKa d)) (Fin 0)
           \<or> js_le (parseFloat fp (el_kValue d)) (Fin 0)"
  shows "calculateConductorAreaFromCurrent fp d = None"
  using assms unfolding calculateConductorAreaFromCurrent_def Let_def
  by auto

lemma current_guard_null:
  assumes "list_ex isNaN
                [parseFloat fp (el_timeSec d), parseFloat fp (el_kValue d), parseFloat fp (el_beta d),
                 parseFloat fp (el_givenConductorArea d)]
             \<or> js_le (parseFloat fp (el_timeSec d)) (Fin 0)
             \<or> js_le (parseFloat fp (el_givenConductorArea d)) (Fin 0)
             \<or> js_le (parseFloat fp (el_kValue d)) (Fin 0)"
  shows "calculateConductorCurrentFromArea fp d = None"
  using assms unfolding calculateConductorCurrentFromArea_def Let_def
  by auto

lemma conductor_fail:
  assumes "(el_conductorMode d = ''area-from-current''
       \<and> (calculateConductorAreaFromCurrent fp d = None
           \<or> (el_givenConductorArea d \<noteq> Blank
               \<and> (isNaN (parseFloat fp (el_givenConductorArea d))
                   \<or> js_le (parseFloat fp (el_givenConductorArea d)) (Fin 0)))))
     \<or> (el_conductorMode d \<noteq> ''area-from-current''
         \<and> calculateConductorCurrentFromArea fp d = None)"
  shows "conductorForm_submit fp d s = s"
  unfolding conductorForm_submit_def Let_def
  apply (rule conductor_chain_fails)
  using assms
  apply (cases "calculateConductorAreaFromCurrent fp d")
   apply auto
  done

lemma conductor_keeps_sheath:
  "sheathData (conductorForm_submit fp d s) = sheathData s
   \<and> sheathCalculated (conductorForm_submit fp d s) = sheathCalculated s"
  unfolding conductorForm_submit_def Let_def
  by (rule conductor_chain_all
        [where P = "\<lambda>s'. sheathData s' = sheathData s \<and> sheathCalculated s' = sheathCalculated s"])
     simp_all

lemma sheath_keeps_conductor:
  "conductorData (sheathForm_submit fp d s) = conductorData s
   \<and> conductorCalculated (sheathForm_submit fp d s) = conductorCalculated s"
  unfolding sheathForm_submit_def Let_def
  by (rule guard_chain_all
        [where P = "\<lambda>s'. conductorData s' = conductorData s
                      \<and> conductorCalculated s' = conductorCalculated s"])
     simp_all

lemma js_mul_NaN_right: "js_mul fp y NaN = NaN"
  by (cases y) simp_all

lemma js_div_NaN_right: "js_div fp y NaN = NaN"
  by (cases y) simp_all

lemma rnd_neg_step:
  assumes "0 \<le> u" "u \<le> 1 / 2" "accurate fp u"
    and "close u n x x'" "in_box p x" "p + n \<le> 1000"
  shows "\<exists>y. rnd fp (- x') = Fin (- y) \<and> close u (Suc n) x y"
proof -
  have b: "in_box (p + n) x'"
    using assms(1,2,5,4) by (rule in_box_close)
  then have "in_range x'"
    using assms(6) by (rule in_box_in_range)
  then have "in_range (- x')"
    unfolding in_range_def by simp
  then obtain z where z: "rnd fp (- x') = Fin z" "\<bar>z - (- x')\<bar> \<le> u * \<bar>- x'\<bar>"
    using assms(3) unfolding accurate_def by blast
  have "\<bar>z - (- x')\<bar> = \<bar>(- z) - x'\<bar>"
    by simp
  then have "\<bar>(- z) - x'\<bar> \<le> u * \<bar>x'\<bar>"
    using z(2) by simp
  then have "close u 1 x' (- z)"
    using assms(1,2) in_box_pos [OF b] by (intro close_of_error)
  with assms(1,2,4) have "close u (n + 1) x (- z)"
    by (rule close_trans)
  with z(1) show ?thesis
    by (intro exI [of _ "- z"]) simp
qed

lemma conductor_area_NaN:
  assumes "parseFloat fp (el_voltageKv d) = Fin v" "parseFloat fp (el_sccKa d) = Fin c"
    "parseFloat fp (el_timeSec d) = Fin t" "parseFloat fp (el_kValue d) = Fin k"
    "parseFloat fp (el_beta d) = Fin b"
    and "0 < v" "v \<le> 400" "0 < t" "t \<le> 10" "0 < c" "0 < k"
    and "Math_log fp (js_div fp (js_add fp (Fin 250) (Fin b)) (js_add fp (Fin 90) (Fin b))) = NaN"
  shows "calculateConductorAreaFromCurrent fp d = Some NaN"
  unfolding calculateConductorAreaFromCurrent_def Let_def assms(1,2,3,4,5) assms(12)
  using assms(6,7,8,9,10,11)
  by (simp add: validateVoltageTime_Fin js_mul_NaN_right js_div_NaN_right)

lemma lnTerm_negative_ratio:
  assumes "0 \<le> u" "u \<le> 1 / 2" "accurate fp u"
    and "in_box 11 (tf + b)" "in_box 11 (- (ti + b))"
  shows "Math_log fp (js_div fp (js_add fp (Fin tf) (Fin b)) (js_add fp (Fin ti) (Fin b))) = NaN"
proof -
  obtain A where A: "rnd fp (tf + b) = Fin A" "close u (Suc 0) (tf + b) A"
    using rnd_step [OF assms(1,2,3) close_refl [OF in_box_pos [OF assms(4)]] assms(4)] by auto
  obtain B where B: "rnd fp (- (- (ti + b))) = Fin (- B)" "close u (Suc 0) (- (ti + b)) B"
    using rnd_neg_step [OF assms(1,2,3) close_refl [OF in_box_pos [OF assms(5)]] assms(5)]
    by auto
  have B0: "0 < B"
    using close_pos(2) [OF B(2)] .
  have cr: "close u (Suc 0 + Suc 0) ((tf + b) / (- (ti + b))) (A / B)"
    using assms(1,2) A(2) B(2) by (rule close_div)
  have br: "in_box (11 + 11) ((tf + b) / (- (ti + b)))"
    using assms(4,5) by (rule in_box_div)
  obtain R where R: "rnd fp (- (A / B)) = Fin (- R)"
      "close u (Suc (Suc 0 + Suc 0)) ((tf + b) / (- (ti + b))) R"
    using rnd_neg_step [OF assms(1,2,3) cr br] by auto
  have R0: "0 < R"
    using close_pos(2) [OF R(2)] .
  have "rnd fp (ti + b) = Fin (- B)"
    using B(1) by (simp only: minus_minus)
  then show ?thesis
    using A(1) B0 R(1) R0 by simp
qed

subsection \<open>The tables and the thermal factor\<close>

lemma close_add:
  assumes "close u n x y" "close u n x' y'"
  shows "close u n (x + x') (y + y')"
  using assms unfolding close_def by (simp add: distrib_right add_mono add_pos_pos)

lemma in_box_add:
  assumes "in_box p x" "in_box p y"
  shows "in_box (Suc p) (x + y)"
proof -
  have "0 < y"
    using assms(2) by (rule in_box_pos)
  moreover have "1 / 2 ^ Suc p \<le> 1 / (2::real) ^ p"
    by (simp add: field_simps)
  ultimately show ?thesis
    using assms unfolding in_box_def by (simp add: field_simps)
qed

lemma getThermalConstants_box:
  assumes "getThermalConstants ty n v = Some c"
  shows "in_box 3 (rho c) \<and> in_box 22 (sigma c)"
  using assms unfolding getThermalConstants_def THERMAL_CONSTANTS_def js_get_def in_box_def
  by (auto split: if_splits)

lemma TABLE_I_SHEATHS_box:
  assumes "js_get TABLE_I_SHEATHS m = Some (Own mat)"
  shows "in_box 22 (sigmaC mat) \<and> in_box 20 (mat_K mat)
         \<and> 200 \<le> mat_beta mat \<and> mat_beta mat \<le> 320"
  using assms unfolding TABLE_I_SHEATHS_def js_get_def in_box_def
  by (auto split: if_splits)

lemma example_lookups:
  "toLowerCase ''Lead'' = ''lead''"
  "getThermalConstants ''insulating'' ''XLPE'' (Fin 11) = Some \<lparr>rho = 3.5, sigma = 2400000\<rparr>"
  "getThermalConstants ''protective'' ''PE'' (Fin 11) = Some \<lparr>rho = 3.5, sigma = 2400000\<rparr>"
  "js_get TABLE_I_SHEATHS ''lead''
     = Some (Own \<lparr>mat_K = 41, mat_beta = 230, sigmaC = 1450000, rho20 = 21.4 / 10 ^ 8\<rparr>)"
  "js_get TABLE_I_SHEATHS ''copper'' = None"
  "js_get TABLE_I_SHEATHS ''constructor'' = Some Inherited"
  by (simp_all add: toLowerCase_def getThermalConstants_def THERMAL_CONSTANTS_def
        TABLE_I_SHEATHS_def js_get_def Object_prototype_def)

lemma calculateM_shape:
  assumes "getThermalConstants ''insulating'' im v = Some ins"
    and "getThermalConstants ''protective'' om v = Some out"
    and "js_get TABLE_I_SHEATHS sm = Some sh"
  shows "calculateM fp im om th sm v ''no'' =
     (let denominator =
            js_mul fp (js_mul fp (js_mul fp (Fin 2) (prop_number sigmaC sh)) th)
              (literal fp (1 / 1000))
      in if denominator = Fin 0 then None
         else Some (js_mul fp
                (js_div fp
                   (js_add fp (Math_sqrt fp (js_div fp (Fin (sigma ins)) (Fin (rho ins))))
                      (Math_sqrt fp (js_div fp (Fin (sigma out)) (Fin (rho out)))))
                   denominator)
                (literal fp 0.7)))"
  unfolding calculateM_def Let_def assms THERMAL_CONTACT_FACTOR_def by simp

lemma calculateM_accurate:
  assumes "0 \<le> u" "u \<le> 1 / 2" "accurate fp u"
    and "getThermalConstants ''insulating'' im v = Some ins"
    and "getThermalConstants ''protective'' om v = Some out"
    and "js_get TABLE_I_SHEATHS sm = Some (Own sh)"
    and "in_box 20 \<delta>"
  shows "\<exists>M. calculateM fp im om (Fin \<delta>) sm v ''no'' = Some (Fin M)
           \<and> close u 10 (0.7 * (sqrt (sigma ins / rho ins) + sqrt (sigma out / rho out))
                            / (2 * sigmaC sh * \<delta> * (1 / 1000))) M"
proof -
  note step = rnd_step [OF assms(1,2,3)]
  note cmult = close_mult [OF assms(1,2)]
  have bi: "in_box 3 (rho ins)" "in_box 22 (sigma ins)"
    and bo: "in_box 3 (rho out)" "in_box 22 (sigma out)"
    using getThermalConstants_box [OF assms(4)] getThermalConstants_box [OF assms(5)] by simp_all
  have bs: "in_box 22 (sigmaC sh)"
    using TABLE_I_SHEATHS_box [OF assms(6)] by simp
  have ne: "rho ins \<noteq> 0" "rho out \<noteq> 0"
    using in_box_pos [OF bi(1)] in_box_pos [OF bo(1)] by simp_all
  have b1: "in_box (22 + 3) (sigma ins / rho ins)"
    using bi(2,1) by (rule in_box_div)
  have b2: "in_box (22 + 3) (sigma out / rho out)"
    using bo(2,1) by (rule in_box_div)
  obtain R1 where R1: "rnd fp (sigma ins / rho ins) = Fin R1"
      "close u (Suc 0) (sigma ins / rho ins) R1"
    using step [OF close_refl [OF in_box_pos [OF b1]] b1] by auto
  obtain R2 where R2: "rnd fp (sigma out / rho out) = Fin R2"
      "close u (Suc 0) (sigma out / rho out) R2"
    using step [OF close_refl [OF in_box_pos [OF b2]] b2] by auto
  have R0: "\<not> R1 < 0" "\<not> R2 < 0"
    using close_pos(2) [OF R1(2)] close_pos(2) [OF R2(2)] by simp_all
  have c1: "close u (2 * 1) (sigma ins / rho ins) R1" and c2: "close u (2 * 1) (sigma out / rho out) R2"
    using R1(2) R2(2) assms(1,2) by (auto intro: close_mono)
  obtain q1 where q1: "fsqrt fp R1 = Fin q1" "close u (Suc 1) (sqrt (sigma ins / rho ins)) q1"
    using fsqrt_step [OF assms(1,2,3) c1 b1] by auto
  obtain q2 where q2: "fsqrt fp R2 = Fin q2" "close u (Suc 1) (sqrt (sigma out / rho out)) q2"
    using fsqrt_step [OF assms(1,2,3) c2 b2] by auto
  let ?n = "sqrt (sigma ins / rho ins) + sqrt (sigma out / rho out)"
  have cn: "close u (Suc 1) ?n (q1 + q2)"
    using q1(2) q2(2) by (rule close_add)
  have bn: "in_box (Suc (22 + 3)) ?n"
    using in_box_sqrt [OF b1] in_box_sqrt [OF b2] by (rule in_box_add)
  obtain N where N: "rnd fp (q1 + q2) = Fin N" "close u (Suc (Suc 1)) ?n N"
    using step [OF cn bn] by auto
  have b2s: "in_box (1 + 22) (2 * sigmaC sh)"
    using _ bs by (rule in_box_mult) (simp add: in_box_def)
  obtain d1 where d1: "rnd fp (2 * sigmaC sh) = Fin d1" "close u (Suc 0) (2 * sigmaC sh) d1"
    using step [OF close_refl [OF in_box_pos [OF b2s]] b2s] by auto
  have cd2: "close u (Suc 0 + 0) (2 * sigmaC sh * \<delta>) (d1 * \<delta>)"
    using d1(2) close_refl [OF in_box_pos [OF assms(7)]] by (rule cmult)
  have bd2: "in_box (1 + 22 + 20) (2 * sigmaC sh * \<delta>)"
    using b2s assms(7) by (rule in_box_mult)
  obtain d2 where d2: "rnd fp (d1 * \<delta>) = Fin d2" "close u (Suc (Suc 0 + 0)) (2 * sigmaC sh * \<delta>) d2"
    using step [OF cd2 bd2] by auto
  have bl: "in_box 10 (1 / 1000)"
    unfolding in_box_def by simp
  obtain lit where lit: "rnd fp (1 / 1000) = Fin lit" "close u (Suc 0) (1 / 1000) lit"
    using step [OF close_refl [OF in_box_pos [OF bl]] bl] by auto
  let ?d = "2 * sigmaC sh * \<delta> * (1 / 1000)"
  have cd: "close u (Suc (Suc 0 + 0) + Suc 0) ?d (d2 * lit)"
    using d2(2) lit(2) by (rule cmult)
  have bd: "in_box (1 + 22 + 20 + 10) ?d"
    using bd2 bl by (rule in_box_mult)
  obtain D where D: "rnd fp (d2 * lit) = Fin D" "close u (Suc (Suc (Suc 0 + 0) + Suc 0)) ?d D"
    using step [OF cd bd] by auto
  have D0: "D \<noteq> 0"
    using close_pos(2) [OF D(2)] by simp
  have cq: "close u (Suc (Suc 1) + Suc (Suc (Suc 0 + 0) + Suc 0)) (?n / ?d) (N / D)"
    using assms(1,2) N(2) D(2) by (rule close_div)
  have bq: "in_box (Suc (22 + 3) + (1 + 22 + 20 + 10)) (?n / ?d)"
    using bn bd by (rule in_box_div)
  obtain Q where Q: "rnd fp (N / D) = Fin Q"
      "close u (Suc (Suc (Suc 1) + Suc (Suc (Suc 0 + 0) + Suc 0))) (?n / ?d) Q"
    using step [OF cq bq] by auto
  have bf: "in_box 1 0.7"
    unfolding in_box_def by simp
  obtain F where F: "rnd fp 0.7 = Fin F" "close u (Suc 0) 0.7 F"
    using step [OF close_refl [OF in_box_pos [OF bf]] bf] by auto
  have cm: "close u (Suc (Suc (Suc 1) + Suc (Suc (Suc 0 + 0) + Suc 0)) + Suc 0) (?n / ?d * 0.7) (Q * F)"
    using Q(2) F(2) by (rule cmult)
  have bm: "in_box (Suc (22 + 3) + (1 + 22 + 20 + 10) + 1) (?n / ?d * 0.7)"
    using bq bf by (rule in_box_mult)
  obtain M where M: "rnd fp (Q * F) = Fin M"
      "close u (Suc (Suc (Suc (Suc 1) + Suc (Suc (Suc 0 + 0) + Suc 0)) + Suc 0)) (?n / ?d * 0.7) M"
    using step [OF cm bm] by auto
  have "calculateM fp im om (Fin \<delta>) sm v ''no'' = Some (Fin M)"
    unfolding calculateM_shape [OF assms(4,5,6)] Let_def literal_def
    using ne R1(1) R2(1) R0 q1(1) q2(1) N(1) d1(1) d2(1) lit(1) D(1) D0 Q(1) F(1) M(1)
    by simp
  moreover have "close u 10 (0.7 * ?n / ?d) M"
    using M(2) by (simp add: eval_nat_numeral mult.commute)
  ultimately show ?thesis
    by blast
qed

lemma calculateM_exact:
  assumes "exact fp"
    and "getThermalConstants ''insulating'' im v = Some ins"
    and "getThermalConstants ''protective'' om v = Some out"
    and "js_get TABLE_I_SHEATHS sm = Some (Own sh)"
    and "\<delta> \<noteq> 0"
  shows "calculateM fp im om (Fin \<delta>) sm v ''no''
          = Some (Fin (0.7 * (sqrt (sigma ins / rho ins) + sqrt (sigma out / rho out))
                        / (2 * sigmaC sh * \<delta> * (1 / 1000))))"
proof -
  have i: "0 < rho ins" "0 < sigma ins" and out: "0 < rho out" "0 < sigma out"
    and sh: "0 < sigmaC sh"
    using getThermalConstants_box [OF assms(2)] getThermalConstants_box [OF assms(3)]
      TABLE_I_SHEATHS_box [OF assms(4)] by (auto dest: in_box_pos)
  have q: "\<not> sigma ins / rho ins < 0" "\<not> sigma out / rho out < 0"
    using i out by (simp_all add: not_less)
  show ?thesis
    unfolding calculateM_shape [OF assms(2,3,4)] Let_def
    using assms(5) i out sh q by (simp add: exact_simps [OF assms(1)])
qed

lemma calculateM_inherited:
  assumes "getThermalConstants ''insulating'' im v = Some ins"
    and "getThermalConstants ''protective'' om v = Some out"
    and "js_get TABLE_I_SHEATHS sm = Some Inherited"
  shows "calculateM fp im om th sm v ''no'' = Some NaN"
  unfolding calculateM_shape [OF assms] Let_def
  by (simp add: js_div_NaN_right js_mul_NaN_right)

lemma calculateM_None_iff:
  "calculateM fp im om th sm v oil = None
     \<longleftrightarrow> getThermalConstants ''insulating'' im v = None
       \<or> getThermalConstants ''protective'' om v = None
       \<or> js_get TABLE_I_SHEATHS sm = None
       \<or> (\<exists>sh. js_get TABLE_I_SHEATHS sm = Some sh
             \<and> js_mul fp (js_mul fp (js_mul fp (Fin 2) (prop_number sigmaC sh)) th)
                  (literal fp (1 / 1000)) = Fin 0)"
  unfolding calculateM_def Let_def
  by (auto split: option.splits)

lemma sheath_area_shape:
  assumes "js_get TABLE_I_SHEATHS m = Some (Own mat)"
    and "0 < c" "0 < t"
    and "Math_log fp (js_div fp (js_add fp (Fin tf) (Fin (mat_beta mat)))
           (js_add fp (Fin ti) (Fin (mat_beta mat)))) = Fin l"
    and "js_div fp (js_mul fp (js_pow fp (js_mul fp (Fin c) (Fin 1000)) 2) (Fin t))
           (js_mul fp (js_pow fp (Fin (mat_K mat)) 2) (Fin l)) = Fin q"
  shows "calculateSheathAdiabaticArea fp (Fin c) (Fin t) m (Fin ti) (Fin tf)
           = (if l \<le> 0 \<or> q \<le> 0 then None else Some (fsqrt fp q))"
  unfolding calculateSheathAdiabaticArea_def Let_def assms(1) option.case prop_number.simps
    assms(4) assms(5)
  by simp

lemma sheath_area_accurate:
  assumes "0 \<le> u" "u \<le> 1 / 2 ^ 10" "accurate fp u"
    and "js_get TABLE_I_SHEATHS m = Some (Own mat)"
    and "in_box 20 c" "in_box 20 t"
    and "in_box 11 (tf + mat_beta mat)" "in_box 11 (ti + mat_beta mat)"
    and "8 / 7 \<le> (tf + mat_beta mat) / (ti + mat_beta mat)"
    and "(tf + mat_beta mat) / (ti + mat_beta mat) \<le> 8"
  shows "\<exists>a. calculateSheathAdiabaticArea fp (Fin c) (Fin t) m (Fin ti) (Fin tf) = Some (Fin a)
           \<and> close u 101 (sqrt ((c * 1000)\<^sup>2 * t
                / ((mat_K mat)\<^sup>2 * ln ((tf + mat_beta mat) / (ti + mat_beta mat))))) a"
proof -
  have u: "u \<le> 1 / 2"
    using assms(2) by simp
  let ?L = "ln ((tf + mat_beta mat) / (ti + mat_beta mat))"
  have bk: "in_box 20 (mat_K mat)"
    using TABLE_I_SHEATHS_box [OF assms(4)] by simp
  obtain l where l: "Math_log fp (js_div fp (js_add fp (Fin tf) (Fin (mat_beta mat)))
           (js_add fp (Fin ti) (Fin (mat_beta mat)))) = Fin l" "close u 193 ?L l" "in_box 3 ?L"
    using lnTerm_accurate [OF assms(1,2,3,7,8,9,10)] by blast
  have l0: "0 < l"
    using close_pos(2) [OF l(2)] .
  obtain q where q: "js_div fp (js_mul fp (js_pow fp (js_mul fp (Fin c) (Fin 1000)) 2) (Fin t))
                 (js_mul fp (js_pow fp (Fin (mat_K mat)) 2) (Fin l)) = Fin q"
      "close u (193 + 7) ((c * 1000)\<^sup>2 * t / ((mat_K mat)\<^sup>2 * ?L)) q"
      "in_box 320 ((c * 1000)\<^sup>2 * t / ((mat_K mat)\<^sup>2 * ?L))"
    using S_sq_accurate [OF assms(1) u assms(3,5,6) bk l(2) in_box_mono [OF l(3)]] by auto
  have q0: "0 < q"
    using close_pos(2) [OF q(2)] .
  have c2: "close u (2 * 100) ((c * 1000)\<^sup>2 * t / ((mat_K mat)\<^sup>2 * ?L)) q"
    using q(2) by simp
  obtain a where a: "fsqrt fp q = Fin a"
      "close u (Suc 100) (sqrt ((c * 1000)\<^sup>2 * t / ((mat_K mat)\<^sup>2 * ?L))) a"
    using fsqrt_step [OF assms(1) u assms(3) c2 q(3)] by auto
  have "calculateSheathAdiabaticArea fp (Fin c) (Fin t) m (Fin ti) (Fin tf) = Some (Fin a)"
    using sheath_area_shape [OF assms(4) in_box_pos [OF assms(5)] in_box_pos [OF assms(6)] l(1) q(1)]
      l0 q0 a(1)
    by simp
  moreover have "close u 101 (sqrt ((c * 1000)\<^sup>2 * t / ((mat_K mat)\<^sup>2 * ?L))) a"
    using a(2) by simp
  ultimately show ?thesis
    by blast
qed

lemma calculateEpsilon_Some:
  assumes "0 < t"
  shows "\<exists>e. calculateEpsilon fp (Some M) (Fin t) = Some e"
  using assms unfolding calculateEpsilon_def Let_def by simp

subsection \<open>The non-adiabatic factor\<close>







lemma binary64_round_0 [simp]: "binary64_round 0 = Fin 0"
  by (simp add: binary64_round_def)

lemma binary64_round_1 [simp]: "binary64_round 1 = Fin 1"
  by (rule binary64_round_near_one) simp_all

subsection \<open>Conductor sizing\<close>



text \<open>
  C2. In a unit accurate to \<open>u\<close>, for a current, a time and a \<open>K\<close> between \<open>2^-20\<close> and
  \<open>2^20\<close>, an admissible voltage and time and \<open>0 \<le> beta \<le> 1000\<close>,
  \<open>calculateConductorAreaFromCurrent\<close> returns a finite area, and on every page that holds
  this area in the given-area field with the same time, \<open>K\<close> and \<open>beta\<close> (whatever its
  current field holds) \<open>calculateConductorCurrentFromArea\<close> returns a current within the
  relative error \<open>20 * u\<close> of the original one.
\<close>

theorem conductor_round_trip:
  assumes "0 \<le> u" "u \<le> 1 / 2 ^ 10" "accurate fp u"
    and "parseFloat fp (el_voltageKv d) = Fin v" "parseFloat fp (el_sccKa d) = Fin c"
    "parseFloat fp (el_timeSec d) = Fin t" "parseFloat fp (el_kValue d) = Fin k"
    "parseFloat fp (el_beta d) = Fin b"
    and "0 < v" "v \<le> 400" "in_box 20 c" "in_box 20 t" "t \<le> 10" "in_box 20 k"
    and "0 \<le> b" "b \<le> 1000"
  shows "\<exists>S. calculateConductorAreaFromCurrent fp d = Some (Fin S)
           \<and> (\<forall>d'. parseFloat fp (el_timeSec d') = Fin t \<and> parseFloat fp (el_kValue d') = Fin k
                  \<and> parseFloat fp (el_beta d') = Fin b
                  \<and> parseFloat fp (el_givenConductorArea d') = Fin S
                \<longrightarrow> (\<exists>c'. calculateConductorCurrentFromArea fp d' = Some (Fin c')
                        \<and> \<bar>c' - c\<bar> \<le> 20 * u * c))"
proof -
  have u: "u \<le> 1 / 2"
    using assms(2) by simp
  obtain l S where l: "Math_log fp (js_div fp (js_add fp (Fin 250) (Fin b))
        (js_add fp (Fin 90) (Fin b))) = Fin l" "in_box 196 l"
    and S: "calculateConductorAreaFromCurrent fp d = Some (Fin S)"
      "close u 5 (sqrt ((c * 1000)\<^sup>2 * t / (k\<^sup>2 * l))) S" "in_box 325 S"
    using conductor_area_accurate [OF assms] by blast
  let ?S0 = "sqrt ((c * 1000)\<^sup>2 * t / (k\<^sup>2 * l))"
  have p: "0 < c" "0 < t" "0 < k" "0 < l"
    using assms(11,12,14) l(2) by (auto dest: in_box_pos)
  have bl: "in_box 200 l" and bS: "in_box 400 S"
    using l(2) S(3) by (auto elim: in_box_mono)
  have "0 < sqrt (l / t)"
    using p by simp
  then have c1: "close u (0 + 5 + 0) (k * ?S0 * sqrt (l / t)) (k * S * sqrt (l / t))"
    using p by (intro close_mult [OF assms(1) u] close_refl S(2))
  have "close u (0 + 5 + 0 + 0) (k * ?S0 * sqrt (l / t) / 1000) (k * S * sqrt (l / t) / 1000)"
    using assms(1) u c1 by (rule close_div) (simp add: close_def)
  then have c2: "close u 5 c (k * S * sqrt (l / t) / 1000)"
    using round_trip_real [OF p] by simp
  have "\<exists>c'. calculateConductorCurrentFromArea fp d' = Some (Fin c') \<and> \<bar>c' - c\<bar> \<le> 20 * u * c"
    if d': "parseFloat fp (el_timeSec d') = Fin t \<and> parseFloat fp (el_kValue d') = Fin k
                  \<and> parseFloat fp (el_beta d') = Fin b
                  \<and> parseFloat fp (el_givenConductorArea d') = Fin S" for d'
  proof -
    obtain c' where c': "calculateConductorCurrentFromArea fp d' = Some (Fin c')"
        "close u 5 (k * S * sqrt (l / t) / 1000) c'"
      using conductor_current_accurate [OF assms(1) u assms(3) _ _ _ _ l(1) assms(12,14) bS bl,
          of d'] d'
      by blast
    have "close u (5 + 5) c c'"
      using assms(1) u c2 c'(2) by (rule close_trans)
    then have "\<bar>c' - c\<bar> \<le> 2 * real (5 + 5) * u * c"
      using assms(1,2) by (intro close_bound) simp_all
    with c'(1) show ?thesis
      by simp
  qed
  with S(1) show ?thesis
    by blast
qed

theorem conductor_round_trip_witness:
  "\<exists>S c'. calculateConductorAreaFromCurrent binary64 example_page = Some (Fin S)
     \<and> calculateConductorCurrentFromArea binary64
          (example_page\<lparr>el_sccKa := Blank, el_givenConductorArea := Typed (Fin S)\<rparr>)
        = Some (Fin c')
     \<and> \<bar>c' - 25\<bar> \<le> 20 * (1 / 2 ^ 53) * 25"
proof -
  have box: "in_box 20 25" "in_box 20 1" "in_box 20 226"
    unfolding in_box_def by simp_all
  have u: "(0::real) \<le> 1 / 2 ^ 53" "(1::real) / 2 ^ 53 \<le> 1 / 2 ^ 10"
    by simp_all
  obtain S where S: "calculateConductorAreaFromCurrent binary64 example_page = Some (Fin S)"
    and r: "\<And>d'. parseFloat binary64 (el_timeSec d') = Fin 1
                  \<and> parseFloat binary64 (el_kValue d') = Fin 226
                  \<and> parseFloat binary64 (el_beta d') = Fin 234.5
                  \<and> parseFloat binary64 (el_givenConductorArea d') = Fin S
                \<Longrightarrow> (\<exists>c'. calculateConductorCurrentFromArea binary64 d' = Some (Fin c')
                        \<and> \<bar>c' - 25\<bar> \<le> 20 * (1 / 2 ^ 53) * 25)"
    using conductor_round_trip [OF u binary64_accurate, of example_page 11 25 1 226 "234.5"] box
    by (auto simp: example_page_def)
  obtain c' where "calculateConductorCurrentFromArea binary64
          (example_page\<lparr>el_sccKa := Blank, el_givenConductorArea := Typed (Fin S)\<rparr>)
        = Some (Fin c')" "\<bar>c' - 25\<bar> \<le> 20 * (1 / 2 ^ 53) * 25"
    using r [of "example_page\<lparr>el_sccKa := Blank, el_givenConductorArea := Typed (Fin S)\<rparr>"]
    by (auto simp: example_page_def)
  with S show ?thesis
    by blast
qed

text \<open>
  A current of \<open>2^-600\<close> kA at 11 kV for one second with the constants of copper passes every
  guard, and the log term is positive. In doubles the square of the current in amperes
  underflows to zero, the squared area is zero, and the function returns \<open>null\<close>: there is
  no area to feed back.
\<close>

theorem conductor_round_trip_underflow:
  "validateVoltageTime (Fin 11) (Fin 1) \<and> (0::real) < 1 / 2 ^ 600 \<and> (0::real) < 226
   \<and> 0 < ln ((250 + 234.5) / (90 + 234.5 :: real))
   \<and> calculateConductorAreaFromCurrent binary64
        (example_page\<lparr>el_sccKa := Typed (Fin (1 / 2 ^ 600))\<rparr>) = None"
proof -
  have u: "(0::real) \<le> 1 / 2 ^ 53" "(1::real) / 2 ^ 53 \<le> 1 / 2 ^ 10" "(1::real) / 2 ^ 53 \<le> 1 / 2"
    by simp_all
  note acc = binary64_accurate
  note step = rnd_step [OF u(1,3) acc]
  obtain l where l: "Math_log binary64 (js_div binary64 (js_add binary64 (Fin 250) (Fin 234.5))
        (js_add binary64 (Fin 90) (Fin 234.5))) = Fin l"
      "close (1 / 2 ^ 53) 193 (ln ((250 + 234.5) / (90 + 234.5))) l"
      "in_box 3 (ln ((250 + 234.5) / (90 + 234.5)))"
    using conductor_lnTerm [OF u(1,2) acc, of "234.5"] by auto
  have l0: "0 < l"
    using close_pos(2) [OF l(2)] .
  have bl: "in_box (3 + 193) l"
    using u(1,3) l(3,2) by (rule in_box_close)
  have bx: "in_box 600 (1 / 2 ^ 600 * 1000)"
  proof (rule in_boxI)
    show "1 / 2 ^ 600 \<le> 1 / 2 ^ 600 * (1000::real)"
      by simp
    have "1 / 2 ^ 600 * (1000::real) \<le> 1"
      by simp
    also have "(1::real) \<le> 2 ^ 600"
      by (rule one_le_power) simp
    finally show "1 / 2 ^ 600 * (1000::real) \<le> 2 ^ 600" .
  qed
  obtain a where a: "rnd binary64 (1 / 2 ^ 600 * 1000) = Fin a"
      "close (1 / 2 ^ 53) (Suc 0) (1 / 2 ^ 600 * 1000) a"
    using step [OF close_refl [OF in_box_pos [OF bx]] bx] by auto
  have a0: "0 < a"
    using close_pos(2) [OF a(2)] .
  have "a \<le> 2 * (1 / 2 ^ 600 * 1000)"
    using u(1,3) a(2) by (intro close_upper) simp_all
  also have "\<dots> \<le> 1 / 2 ^ 589"
    by simp
  finally have a1: "a \<le> 1 / 2 ^ 589" .
  have "a\<^sup>2 \<le> (1 / 2 ^ 589)\<^sup>2"
    using a0 a1 by (intro power_mono) simp_all
  also have "\<dots> < 1 / 2 ^ 1075"
    by (simp add: power_divide)
  finally have "\<bar>a\<^sup>2\<bar> < 1 / 2 ^ 1075"
    by simp
  then have P: "fpow binary64 a 2 = Fin 0"
    unfolding binary64_def by (simp add: binary64_round_tiny)
  have z: "rnd binary64 0 = Fin 0"
    unfolding binary64_def by (simp add: binary64_round_def)
  have bk: "in_box 20 226"
    unfolding in_box_def by simp
  obtain K2 where K2: "fpow binary64 226 2 = Fin K2" "close (1 / 2 ^ 53) (Suc (2 * 0)) (226\<^sup>2) K2"
    using fpow_step [OF u(1,3) acc close_refl [OF in_box_pos [OF bk]] bk, of 2] by auto
  have cD: "close (1 / 2 ^ 53) (Suc (2 * 0) + 0) (226\<^sup>2 * l) (K2 * l)"
    using u(1,3) K2(2) close_refl [OF l0] by (rule close_mult)
  have bD: "in_box (2 * 20 + (3 + 193)) (226\<^sup>2 * l)"
    using in_box_power [OF bk] bl by (rule in_box_mult)
  obtain D where D: "rnd binary64 (K2 * l) = Fin D"
      "close (1 / 2 ^ 53) (Suc (Suc (2 * 0) + 0)) (226\<^sup>2 * l) D"
    using step [OF cD bD] by auto
  have D0: "D \<noteq> 0"
    using close_pos(2) [OF D(2)] by simp
  have Q: "js_div binary64
             (js_mul binary64 (js_pow binary64 (js_mul binary64 (Fin (1 / 2 ^ 600)) (Fin 1000)) 2)
                (Fin 1))
             (js_mul binary64 (js_pow binary64 (Fin 226) 2) (Fin l)) = Fin 0"
    using a(1) P z K2(1) D(1) D0 by (simp add: js_pow_2)
  have "calculateConductorAreaFromCurrent binary64
        (example_page\<lparr>el_sccKa := Typed (Fin (1 / 2 ^ 600))\<rparr>) = None"
    using conductor_area_shape [where fp = binary64
        and d = "example_page\<lparr>el_sccKa := Typed (Fin (1 / 2 ^ 600))\<rparr>"
        and v = 11 and c = "1 / 2 ^ 600" and t = 1 and k = 226 and b = "234.5" and l = l and q = 0]
      l(1) Q
    by (simp add: example_page_def)
  moreover have "0 < ln ((250 + 234.5) / (90 + 234.5 :: real))"
    by simp
  ultimately show ?thesis
    by (simp add: validateVoltageTime_Fin)
qed

text \<open>
  C3. For \<open>K = 226\<close>, \<open>beta = 234.5\<close>, \<open>I_AD = 25 kA\<close>, \<open>t = 1 s\<close> and any
  admissible voltage, \<open>calculateConductorAreaFromCurrent\<close> returns a number between 174.7
  and 174.8 square millimetres in every unit accurate to \<open>2^-30\<close>. In exact arithmetic it
  returns \<open>sqrt(625000000 / (51076 * ln(969 / 649)))\<close>, which lies between 174.7 and 174.8.
\<close>

theorem copper_example_area:
  assumes "parseFloat fp (el_voltageKv d) = Fin v" "0 < v" "v \<le> 400"
    and "parseFloat fp (el_sccKa d) = Fin 25" "parseFloat fp (el_timeSec d) = Fin 1"
    and "parseFloat fp (el_kValue d) = Fin 226" "parseFloat fp (el_beta d) = Fin 234.5"
  shows "(0 \<le> u \<and> u \<le> 1 / 2 ^ 30 \<and> accurate fp u
            \<longrightarrow> (\<exists>S. calculateConductorAreaFromCurrent fp d = Some (Fin S)
                   \<and> 174.7 < S \<and> S < 174.8))
         \<and> (exact fp
            \<longrightarrow> calculateConductorAreaFromCurrent fp d
                  = Some (Fin (sqrt (625000000 / (51076 * ln (969 / 649))))))
         \<and> 174.7 < sqrt (625000000 / (51076 * ln (969 / 649)))
         \<and> sqrt (625000000 / (51076 * ln (969 / 649))) < 174.8"
proof (intro conjI impI)
  assume "0 \<le> u \<and> u \<le> 1 / 2 ^ 30 \<and> accurate fp u"
  then show "\<exists>S. calculateConductorAreaFromCurrent fp d = Some (Fin S) \<and> 174.7 < S \<and> S < 174.8"
    using assms by (intro copper_area_accurate [where u = u and v = v]) simp_all
next
  assume e: "exact fp"
  have "calculateConductorAreaFromCurrent fp d
          = Some (Fin (sqrt ((25 * 1000)\<^sup>2 * 1 / (226\<^sup>2 * ln ((250 + 234.5) / (90 + 234.5))))))"
    by (rule conductor_area_exact [OF e assms(1,4,5,6,7) assms(2,3)]) simp_all
  then show "calculateConductorAreaFromCurrent fp d
               = Some (Fin (sqrt (625000000 / (51076 * ln (969 / 649)))))"
    unfolding copper_formula .
next
  show "174.7 < sqrt (625000000 / (51076 * ln (969 / 649)))"
    using copper_area_bounds(1) by simp
  show "sqrt (625000000 / (51076 * ln (969 / 649))) < 174.8"
    using copper_area_bounds(2) by simp
qed

theorem copper_example_area_witness:
  "(\<exists>S. calculateConductorAreaFromCurrent binary64 example_page = Some (Fin S)
      \<and> 174.7 < S \<and> S < 174.8)
   \<and> calculateConductorAreaFromCurrent unrounded example_page
       = Some (Fin (sqrt (625000000 / (51076 * ln (969 / 649)))))
   \<and> 174.7 < sqrt (625000000 / (51076 * ln (969 / 649)))
   \<and> sqrt (625000000 / (51076 * ln (969 / 649))) < 174.8"
proof -
  have u: "(0::real) \<le> 1 / 2 ^ 53" "(1::real) / 2 ^ 53 \<le> 1 / 2 ^ 30"
    by simp_all
  have 1: "\<exists>S. calculateConductorAreaFromCurrent binary64 example_page = Some (Fin S)
      \<and> 174.7 < S \<and> S < 174.8"
    using copper_example_area [of binary64 example_page 11 "1 / 2 ^ 53", THEN conjunct1]
      u binary64_accurate
    by (simp add: example_page_def)
  have 2: "calculateConductorAreaFromCurrent unrounded example_page
       = Some (Fin (sqrt (625000000 / (51076 * ln (969 / 649)))))
   \<and> 174.7 < sqrt (625000000 / (51076 * ln (969 / 649)))
   \<and> sqrt (625000000 / (51076 * ln (969 / 649))) < 174.8"
    using copper_example_area [of unrounded example_page 11 0, THEN conjunct2] exact_unrounded
    by (simp add: example_page_def)
  show ?thesis
    using 1 2 by blast
qed

text \<open>
  The value 218.4 that the specification gives for this example is more than 43 square
  millimetres above what the function returns on it in doubles.
\<close>

theorem copper_example_not_218:
  "\<exists>S. calculateConductorAreaFromCurrent binary64 example_page = Some (Fin S)
     \<and> 43 < 218.4 - S"
proof -
  have u: "(0::real) \<le> 1 / 2 ^ 53" "(1::real) / 2 ^ 53 \<le> 1 / 2 ^ 30"
    by simp_all
  obtain S where "calculateConductorAreaFromCurrent binary64 example_page = Some (Fin S)"
      "S < 174.8"
    using copper_area_accurate [OF u binary64_accurate, of example_page 11]
    by (auto simp: example_page_def)
  then show ?thesis
    by (intro exI [of _ S]) simp
qed

subsection \<open>Verdicts\<close>

text \<open>
  C4. In a sheath submission that passes every guard, the required area shown is
  \<open>s_adiab * epsilon\<close>, the product as the unit rounds it (and the bundle's \<open>i_non_ad\<close> is
  \<open>epsilon * s_adiab\<close>), and the verdict paragraph is the pass verdict exactly when the
  actual area \<open>>=\<close> the required area. In a conductor submission in mode
  \<open>area-from-current\<close> with a valid candidate area, the verdict is the pass verdict exactly
  when the candidate \<open>>=\<close> the required area. \<open>>=\<close> on two finite numbers is \<open>\<ge>\<close>, and it
  holds between a number other than \<open>NaN\<close> and itself: a candidate that is the required
  area passes.
\<close>

theorem verdicts_boundary_inclusive:
  "(toLowerCase (el_sheathMaterial d) \<noteq> []
      \<and> \<not> list_ex isNaN
            [parseFloat fp (el_sheathVoltageKv d), parseFloat fp (el_sheathSccKa d),
             parseFloat fp (el_sheathTimeSec d), parseFloat fp (el_sheathThetaInitial d),
             parseFloat fp (el_sheathThetaFinal d), parseFloat fp (el_sheathOuterD d),
             parseFloat fp (el_sheathInnerD d), parseFloat fp (el_sheathThickness d),
             parseFloat fp (el_sheathAreaGiven d)]
      \<and> el_insulationMaterial d \<noteq> [] \<and> el_outerSheathMaterial d \<noteq> []
      \<and> validateVoltageTime (parseFloat fp (el_sheathVoltageKv d)) (parseFloat fp (el_sheathTimeSec d))
      \<and> \<not> js_le (parseFloat fp (el_sheathSccKa d)) (Fin 0)
      \<and> js_gt (parseFloat fp (el_sheathOuterD d)) (parseFloat fp (el_sheathInnerD d))
      \<and> js_gt (parseFloat fp (el_sheathOuterD d)) (Fin 0)
      \<and> js_gt (parseFloat fp (el_sheathInnerD d)) (Fin 0)
      \<and> calculateSheathAdiabaticArea fp (parseFloat fp (el_sheathSccKa d))
            (parseFloat fp (el_sheathTimeSec d)) (toLowerCase (el_sheathMaterial d))
            (parseFloat fp (el_sheathThetaInitial d)) (parseFloat fp (el_sheathThetaFinal d))
          = Some s_adiab
      \<and> calculateM fp (el_insulationMaterial d) (el_outerSheathMaterial d)
            (parseFloat fp (el_sheathThickness d)) (toLowerCase (el_sheathMaterial d))
            (parseFloat fp (el_sheathVoltageKv d)) ''no'' = Some M
      \<and> calculateEpsilon fp (Some M) (parseFloat fp (el_sheathTimeSec d)) = Some epsilon
    \<longrightarrow> resultText (sheathForm_submit fp d s)
          = [Heading ''Sheath Calculation Results'',
             Quantity ''Adiabatic area s_adiab:'' (ToFixed s_adiab 2) ''mm2'',
             Quantity ''Non-adiabatic factor epsilon:'' (ToFixed epsilon 3) [],
             Quantity ''Required sheath area (non-adiabatic):''
               (ToFixed (js_mul fp s_adiab epsilon) 2) ''mm2'',
             Quantity ''Actual sheath area from D_outer, D_inner:''
               (ToFixed (parseFloat fp (el_sheathAreaGiven d)) 2) ''mm2'',
             if js_ge (parseFloat fp (el_sheathAreaGiven d)) (js_mul fp s_adiab epsilon)
             then Sufficient ''Sheath size is sufficient for the required area.''
             else Undersized ''Sheath undersized. Please choose the next available size.'']
        \<and> map_option sd_i_non_ad (sheathData (sheathForm_submit fp d s))
            = Some (ToFixed (js_mul fp epsilon s_adiab) 3))
   \<and> (el_conductorMode d = ''area-from-current''
      \<and> calculateConductorAreaFromCurrent fp d = Some S_required
      \<and> el_givenConductorArea d \<noteq> Blank
      \<and> \<not> isNaN (parseFloat fp (el_givenConductorArea d))
      \<and> \<not> js_le (parseFloat fp (el_givenConductorArea d)) (Fin 0)
    \<longrightarrow> resultText (conductorForm_submit fp d s)
          = [Heading ''Conductor Calculation Results'',
             Quantity ''Required cross-sectional area S:'' (ToFixed S_required 2) ''mm2'',
             if js_ge (parseFloat fp (el_givenConductorArea d)) S_required
             then Sufficient ''Cable size is sufficient for the required area.''
             else Undersized ''Cable undersized. Please choose the next available size.''])
   \<and> (js_ge (Fin actual) (Fin required) \<longleftrightarrow> required \<le> actual)
   \<and> (\<not> isNaN x \<longrightarrow> js_ge x x)"
proof (intro conjI impI)
  assume a: "toLowerCase (el_sheathMaterial d) \<noteq> []
      \<and> \<not> list_ex isNaN
            [parseFloat fp (el_sheathVoltageKv d), parseFloat fp (el_sheathSccKa d),
             parseFloat fp (el_sheathTimeSec d), parseFloat fp (el_sheathThetaInitial d),
             parseFloat fp (el_sheathThetaFinal d), parseFloat fp (el_sheathOuterD d),
             parseFloat fp (el_sheathInnerD d), parseFloat fp (el_sheathThickness d),
             parseFloat fp (el_sheathAreaGiven d)]
      \<and> el_insulationMaterial d \<noteq> [] \<and> el_outerSheathMaterial d \<noteq> []
      \<and> validateVoltageTime (parseFloat fp (el_sheathVoltageKv d)) (parseFloat fp (el_sheathTimeSec d))
      \<and> \<not> js_le (parseFloat fp (el_sheathSccKa d)) (Fin 0)
      \<and> js_gt (parseFloat fp (el_sheathOuterD d)) (parseFloat fp (el_sheathInnerD d))
      \<and> js_gt (parseFloat fp (el_sheathOuterD d)) (Fin 0)
      \<and> js_gt (parseFloat fp (el_sheathInnerD d)) (Fin 0)
      \<and> calculateSheathAdiabaticArea fp (parseFloat fp (el_sheathSccKa d))
            (parseFloat fp (el_sheathTimeSec d)) (toLowerCase (el_sheathMaterial d))
            (parseFloat fp (el_sheathThetaInitial d)) (parseFloat fp (el_sheathThetaFinal d))
          = Some s_adiab
      \<and> calculateM fp (el_insulationMaterial d) (el_outerSheathMaterial d)
            (parseFloat fp (el_sheathThickness d)) (toLowerCase (el_sheathMaterial d))
            (parseFloat fp (el_sheathVoltageKv d)) ''no'' = Some M
      \<and> calculateEpsilon fp (Some M) (parseFloat fp (el_sheathTimeSec d)) = Some epsilon"
  show "resultText (sheathForm_submit fp d s)
          = [Heading ''Sheath Calculation Results'',
             Quantity ''Adiabatic area s_adiab:'' (ToFixed s_adiab 2) ''mm2'',
             Quantity ''Non-adiabatic factor epsilon:'' (ToFixed epsilon 3) [],
             Quantity ''Required sheath area (non-adiabatic):''
               (ToFixed (js_mul fp s_adiab epsilon) 2) ''mm2'',
             Quantity ''Actual sheath area from D_outer, D_inner:''
               (ToFixed (parseFloat fp (el_sheathAreaGiven d)) 2) ''mm2'',
             if js_ge (parseFloat fp (el_sheathAreaGiven d)) (js_mul fp s_adiab epsilon)
             then Sufficient ''Sheath size is sufficient for the required area.''
             else Undersized ''Sheath undersized. Please choose the next available size.'']"
    unfolding sheathForm_submit_def Let_def
    by (subst guard_chain_passes [where a = s_adiab and m = M and e = epsilon])
       (use a in simp_all)
  show "map_option sd_i_non_ad (sheathData (sheathForm_submit fp d s))
            = Some (ToFixed (js_mul fp epsilon s_adiab) 3)"
    unfolding sheathForm_submit_def Let_def
    by (subst guard_chain_passes [where a = s_adiab and m = M and e = epsilon])
       (use a in simp_all)
next
  assume a: "el_conductorMode d = ''area-from-current''
      \<and> calculateConductorAreaFromCurrent fp d = Some S_required
      \<and> el_givenConductorArea d \<noteq> Blank
      \<and> \<not> isNaN (parseFloat fp (el_givenConductorArea d))
      \<and> \<not> js_le (parseFloat fp (el_givenConductorArea d)) (Fin 0)"
  show "resultText (conductorForm_submit fp d s)
          = [Heading ''Conductor Calculation Results'',
             Quantity ''Required cross-sectional area S:'' (ToFixed S_required 2) ''mm2'',
             if js_ge (parseFloat fp (el_givenConductorArea d)) S_required
             then Sufficient ''Cable size is sufficient for the required area.''
             else Undersized ''Cable undersized. Please choose the next available size.'']"
    unfolding conductorForm_submit_def Let_def
    by (subst conductor_chain_area [where a = S_required]) (use a in simp_all)
next
  show "js_ge (Fin actual) (Fin required) \<longleftrightarrow> required \<le> actual"
    by (simp add: js_ge_def)
next
  assume "\<not> isNaN x"
  then show "js_ge x x"
    by (cases x) (simp_all add: js_ge_def)
qed


theorem verdicts_boundary_inclusive_witness:
  "\<exists>s_adiab M epsilon S.
     calculateSheathAdiabaticArea binary64 (Fin 25) (Fin 1) ''lead'' (Fin 90) (Fin 250)
       = Some s_adiab
     \<and> calculateM binary64 ''XLPE'' ''PE'' (Fin 2) ''lead'' (Fin 11) ''no'' = Some M
     \<and> calculateEpsilon binary64 (Some M) (Fin 1) = Some epsilon
     \<and> resultText (sheathForm_submit binary64 example_page initial_state)
         = [Heading ''Sheath Calculation Results'',
            Quantity ''Adiabatic area s_adiab:'' (ToFixed s_adiab 2) ''mm2'',
            Quantity ''Non-adiabatic factor epsilon:'' (ToFixed epsilon 3) [],
            Quantity ''Required sheath area (non-adiabatic):''
              (ToFixed (js_mul binary64 s_adiab epsilon) 2) ''mm2'',
            Quantity ''Actual sheath area from D_outer, D_inner:''
              (ToFixed (Fin 263.75) 2) ''mm2'',
            if js_ge (Fin 263.75) (js_mul binary64 s_adiab epsilon)
            then Sufficient ''Sheath size is sufficient for the required area.''
            else Undersized ''Sheath undersized. Please choose the next available size.'']
     \<and> map_option sd_i_non_ad (sheathData (sheathForm_submit binary64 example_page initial_state))
         = Some (ToFixed (js_mul binary64 epsilon s_adiab) 3)
     \<and> calculateConductorAreaFromCurrent binary64 example_page = Some (Fin S)
     \<and> resultText
          (conductorForm_submit binary64 (example_page\<lparr>el_givenConductorArea := Typed (Fin S)\<rparr>)
             initial_state)
         = [Heading ''Conductor Calculation Results'',
            Quantity ''Required cross-sectional area S:'' (ToFixed (Fin S) 2) ''mm2'',
            Sufficient ''Cable size is sufficient for the required area.'']
     \<and> resultText (conductorForm_submit binary64 example_page initial_state)
         = [Heading ''Conductor Calculation Results'',
            Quantity ''Required cross-sectional area S:'' (ToFixed (Fin S) 2) ''mm2'',
            Sufficient ''Cable size is sufficient for the required area.'']
     \<and> resultText
          (conductorForm_submit binary64 (example_page\<lparr>el_givenConductorArea := Typed (Fin 120)\<rparr>)
             initial_state)
         = [Heading ''Conductor Calculation Results'',
            Quantity ''Required cross-sectional area S:'' (ToFixed (Fin S) 2) ''mm2'',
            Undersized ''Cable undersized. Please choose the next available size.'']"
proof -
  have u: "(0::real) \<le> 1 / 2 ^ 53" "(1::real) / 2 ^ 53 \<le> 1 / 2 ^ 10" "(1::real) / 2 ^ 53 \<le> 1 / 2"
    "(1::real) / 2 ^ 53 \<le> 1 / 2 ^ 30"
    by simp_all
  have box: "in_box 20 25" "in_box 20 1" "in_box 20 2" "in_box 11 (250 + 230)" "in_box 11 (90 + 230)"
    unfolding in_box_def by simp_all
  obtain sa where 1: "calculateSheathAdiabaticArea binary64 (Fin 25) (Fin 1) ''lead'' (Fin 90) (Fin 250)
      = Some (Fin sa)"
    using sheath_area_accurate [OF u(1,2) binary64_accurate example_lookups(4), of 25 1 250 90] box
    by auto
  obtain m where 2: "calculateM binary64 ''XLPE'' ''PE'' (Fin 2) ''lead'' (Fin 11) ''no'' = Some (Fin m)"
    using calculateM_accurate [OF u(1,3) binary64_accurate example_lookups(2,3,4) box(3)] by blast
  obtain e where 3: "calculateEpsilon binary64 (Some (Fin m)) (Fin 1) = Some e"
    using calculateEpsilon_Some [of 1 binary64 "Fin m"] by auto
  obtain S where 4: "calculateConductorAreaFromCurrent binary64 example_page = Some (Fin S)"
      and S: "174.7 < S" "S < 174.8"
    using copper_area_accurate [OF u(1,4) binary64_accurate, of example_page 11]
    by (auto simp: example_page_def)
  have 5: "calculateConductorAreaFromCurrent binary64 (example_page\<lparr>el_givenConductorArea := f\<rparr>)
             = Some (Fin S)" for f
    using 4 by (simp add: calculateConductorAreaFromCurrent_def)
  have sheath: "resultText (sheathForm_submit binary64 example_page initial_state)
         = [Heading ''Sheath Calculation Results'',
            Quantity ''Adiabatic area s_adiab:'' (ToFixed (Fin sa) 2) ''mm2'',
            Quantity ''Non-adiabatic factor epsilon:'' (ToFixed e 3) [],
            Quantity ''Required sheath area (non-adiabatic):''
              (ToFixed (js_mul binary64 (Fin sa) e) 2) ''mm2'',
            Quantity ''Actual sheath area from D_outer, D_inner:''
              (ToFixed (Fin 263.75) 2) ''mm2'',
            if js_ge (Fin 263.75) (js_mul binary64 (Fin sa) e)
            then Sufficient ''Sheath size is sufficient for the required area.''
            else Undersized ''Sheath undersized. Please choose the next available size.'']
     \<and> map_option sd_i_non_ad (sheathData (sheathForm_submit binary64 example_page initial_state))
         = Some (ToFixed (js_mul binary64 e (Fin sa)) 3)"
    using verdicts_boundary_inclusive
        [where d = example_page and s_adiab = "Fin sa" and M = "Fin m" and epsilon = e
           and s = initial_state and fp = binary64, THEN conjunct1]
      1 2 3
    by (simp add: example_page_def example_lookups(1) validateVoltageTime_def js_gt_def)
  have c1: "resultText
          (conductorForm_submit binary64 (example_page\<lparr>el_givenConductorArea := Typed (Fin S)\<rparr>)
             initial_state)
         = [Heading ''Conductor Calculation Results'',
            Quantity ''Required cross-sectional area S:'' (ToFixed (Fin S) 2) ''mm2'',
            Sufficient ''Cable size is sufficient for the required area.'']"
    using verdicts_boundary_inclusive
        [where d = "example_page\<lparr>el_givenConductorArea := Typed (Fin S)\<rparr>"
           and S_required = "Fin S" and s = initial_state and fp = binary64
           and x = "Fin S", THEN conjunct2]
      5 S
    by (simp add: example_page_def)
  have c2: "resultText (conductorForm_submit binary64 example_page initial_state)
         = [Heading ''Conductor Calculation Results'',
            Quantity ''Required cross-sectional area S:'' (ToFixed (Fin S) 2) ''mm2'',
            Sufficient ''Cable size is sufficient for the required area.'']"
    using verdicts_boundary_inclusive
        [where d = example_page and S_required = "Fin S" and s = initial_state and fp = binary64
           and actual = 240 and required = S, THEN conjunct2]
      4 S
    by (simp add: example_page_def)
  have c3: "resultText
          (conductorForm_submit binary64 (example_page\<lparr>el_givenConductorArea := Typed (Fin 120)\<rparr>)
             initial_state)
         = [Heading ''Conductor Calculation Results'',
            Quantity ''Required cross-sectional area S:'' (ToFixed (Fin S) 2) ''mm2'',
            Undersized ''Cable undersized. Please choose the next available size.'']"
    using verdicts_boundary_inclusive
        [where d = "example_page\<lparr>el_givenConductorArea := Typed (Fin 120)\<rparr>"
           and S_required = "Fin S" and s = initial_state and fp = binary64
           and actual = 120 and required = S, THEN conjunct2]
      5 S
    by (simp add: example_page_def)
  show ?thesis
    using 1 2 3 4 sheath c1 c2 c3 by blast
qed

subsection \<open>Sheath sizing\<close>

text \<open>
  C5. When the insulation, the covering and the sheath metal are found and the
  denominator \<open>2 * sigma1 * delta * 1e-3\<close> is not zero, \<open>calculateM\<close> with the oil-filled flag
  off returns \<open>(sqrt(sigma2 / rho2) + sqrt(sigma3 / rho3)) / (2 * sigma1 * delta * 1e-3) * F\<close>
  with \<open>F = 0.7\<close>, in the rounded arithmetic of the script; it returns \<open>null\<close> exactly when a
  lookup misses or the denominator \<open>=== 0\<close>. For a sheath metal of the table and a thickness
  between \<open>2^-20\<close> and \<open>2^20\<close>, in a unit accurate to \<open>u\<close> the value is a finite number within
  the relative error \<open>20 * u\<close> of the real number the formula denotes, and in exact
  arithmetic it is that number. A sheath key that is found only as an inherited member of
  the table object (\<open>constructor\<close>) is not a miss: its \<open>sigmaC\<close> is \<open>undefined\<close> and the value
  returned is \<open>NaN\<close>.
\<close>

theorem calculateM_formula:
  "(getThermalConstants ''insulating'' im v = Some ins
      \<and> getThermalConstants ''protective'' om v = Some out
      \<and> js_get TABLE_I_SHEATHS sm = Some p
    \<longrightarrow> calculateM fp im om th sm v ''no'' =
         (let denominator =
                js_mul fp (js_mul fp (js_mul fp (Fin 2) (prop_number sigmaC p)) th)
                  (literal fp (1 / 1000))
          in if denominator = Fin 0 then None
             else Some (js_mul fp
                    (js_div fp
                       (js_add fp (Math_sqrt fp (js_div fp (Fin (sigma ins)) (Fin (rho ins))))
                          (Math_sqrt fp (js_div fp (Fin (sigma out)) (Fin (rho out)))))
                       denominator)
                    (literal fp 0.7))))
   \<and> (calculateM fp im om th sm v oil = None
        \<longleftrightarrow> getThermalConstants ''insulating'' im v = None
          \<or> getThermalConstants ''protective'' om v = None
          \<or> js_get TABLE_I_SHEATHS sm = None
          \<or> (\<exists>sh. js_get TABLE_I_SHEATHS sm = Some sh
                \<and> js_mul fp (js_mul fp (js_mul fp (Fin 2) (prop_number sigmaC sh)) th)
                     (literal fp (1 / 1000)) = Fin 0))
   \<and> (0 \<le> u \<and> u \<le> 1 / 40 \<and> accurate fp u
        \<and> getThermalConstants ''insulating'' im v = Some ins
        \<and> getThermalConstants ''protective'' om v = Some out
        \<and> js_get TABLE_I_SHEATHS sm = Some (Own sh) \<and> in_box 20 \<delta>
      \<longrightarrow> (\<exists>M. calculateM fp im om (Fin \<delta>) sm v ''no'' = Some (Fin M)
             \<and> \<bar>M - 0.7 * (sqrt (sigma ins / rho ins) + sqrt (sigma out / rho out))
                        / (2 * sigmaC sh * \<delta> * (1 / 1000))\<bar>
                 \<le> 20 * u * (0.7 * (sqrt (sigma ins / rho ins) + sqrt (sigma out / rho out))
                        / (2 * sigmaC sh * \<delta> * (1 / 1000)))))
   \<and> (exact fp
        \<and> getThermalConstants ''insulating'' im v = Some ins
        \<and> getThermalConstants ''protective'' om v = Some out
        \<and> js_get TABLE_I_SHEATHS sm = Some (Own sh) \<and> \<delta> \<noteq> 0
      \<longrightarrow> calculateM fp im om (Fin \<delta>) sm v ''no''
            = Some (Fin (0.7 * (sqrt (sigma ins / rho ins) + sqrt (sigma out / rho out))
                          / (2 * sigmaC sh * \<delta> * (1 / 1000)))))
   \<and> (getThermalConstants ''insulating'' im v = Some ins
        \<and> getThermalConstants ''protective'' om v = Some out
        \<and> js_get TABLE_I_SHEATHS sm = Some Inherited
      \<longrightarrow> calculateM fp im om th sm v ''no'' = Some NaN)"
proof (intro conjI impI)
  assume "getThermalConstants ''insulating'' im v = Some ins
      \<and> getThermalConstants ''protective'' om v = Some out
      \<and> js_get TABLE_I_SHEATHS sm = Some p"
  then show "calculateM fp im om th sm v ''no'' =
         (let denominator =
                js_mul fp (js_mul fp (js_mul fp (Fin 2) (prop_number sigmaC p)) th)
                  (literal fp (1 / 1000))
          in if denominator = Fin 0 then None
             else Some (js_mul fp
                    (js_div fp
                       (js_add fp (Math_sqrt fp (js_div fp (Fin (sigma ins)) (Fin (rho ins))))
                          (Math_sqrt fp (js_div fp (Fin (sigma out)) (Fin (rho out)))))
                       denominator)
                    (literal fp 0.7)))"
    by (intro calculateM_shape) simp_all
next
  show "calculateM fp im om th sm v oil = None
        \<longleftrightarrow> getThermalConstants ''insulating'' im v = None
          \<or> getThermalConstants ''protective'' om v = None
          \<or> js_get TABLE_I_SHEATHS sm = None
          \<or> (\<exists>sh. js_get TABLE_I_SHEATHS sm = Some sh
                \<and> js_mul fp (js_mul fp (js_mul fp (Fin 2) (prop_number sigmaC sh)) th)
                     (literal fp (1 / 1000)) = Fin 0)"
    by (rule calculateM_None_iff)
next
  assume a: "0 \<le> u \<and> u \<le> 1 / 40 \<and> accurate fp u
        \<and> getThermalConstants ''insulating'' im v = Some ins
        \<and> getThermalConstants ''protective'' om v = Some out
        \<and> js_get TABLE_I_SHEATHS sm = Some (Own sh) \<and> in_box 20 \<delta>"
  let ?M0 = "0.7 * (sqrt (sigma ins / rho ins) + sqrt (sigma out / rho out))
                        / (2 * sigmaC sh * \<delta> * (1 / 1000))"
  have u: "0 \<le> u" "u \<le> 1 / 2" "2 * (real 10 * u) \<le> 1"
    using a by simp_all
  obtain M where M: "calculateM fp im om (Fin \<delta>) sm v ''no'' = Some (Fin M)" "close u 10 ?M0 M"
    using calculateM_accurate [OF u(1,2), of fp im v ins om out sm sh \<delta>] a by blast
  have "\<bar>M - ?M0\<bar> \<le> 2 * real 10 * u * ?M0"
    using u(1,3) M(2) by (rule close_bound)
  then show "\<exists>M. calculateM fp im om (Fin \<delta>) sm v ''no'' = Some (Fin M)
             \<and> \<bar>M - ?M0\<bar> \<le> 20 * u * ?M0"
    using M(1) by simp
next
  assume "exact fp
        \<and> getThermalConstants ''insulating'' im v = Some ins
        \<and> getThermalConstants ''protective'' om v = Some out
        \<and> js_get TABLE_I_SHEATHS sm = Some (Own sh) \<and> \<delta> \<noteq> 0"
  then show "calculateM fp im om (Fin \<delta>) sm v ''no''
            = Some (Fin (0.7 * (sqrt (sigma ins / rho ins) + sqrt (sigma out / rho out))
                          / (2 * sigmaC sh * \<delta> * (1 / 1000))))"
    by (intro calculateM_exact) simp_all
next
  assume "getThermalConstants ''insulating'' im v = Some ins
        \<and> getThermalConstants ''protective'' om v = Some out
        \<and> js_get TABLE_I_SHEATHS sm = Some Inherited"
  then show "calculateM fp im om th sm v ''no'' = Some NaN"
    by (intro calculateM_inherited) simp_all
qed

theorem calculateM_formula_witness:
  "(\<exists>M. calculateM binary64 ''XLPE'' ''PE'' (Fin 2) ''lead'' (Fin 11) ''no'' = Some (Fin M)
      \<and> \<bar>M - 0.7 * (sqrt (2400000 / 3.5) + sqrt (2400000 / 3.5)) / (2 * 1450000 * 2 * (1 / 1000))\<bar>
          \<le> 20 * (1 / 2 ^ 53)
             * (0.7 * (sqrt (2400000 / 3.5) + sqrt (2400000 / 3.5))
                 / (2 * 1450000 * 2 * (1 / 1000))))
   \<and> calculateM unrounded ''XLPE'' ''PE'' (Fin 2) ''lead'' (Fin 11) ''no''
       = Some (Fin (0.7 * (sqrt (2400000 / 3.5) + sqrt (2400000 / 3.5))
                     / (2 * 1450000 * 2 * (1 / 1000))))
   \<and> calculateM unrounded ''XLPE'' ''PE'' (Fin 0) ''lead'' (Fin 11) ''no'' = None
   \<and> calculateM binary64 ''XLPE'' ''PE'' (Fin 2) ''copper'' (Fin 11) ''no'' = None
   \<and> calculateM binary64 ''XLPE'' ''PE'' (Fin 2) ''constructor'' (Fin 11) ''no'' = Some NaN"
proof -
  let ?c = "\<lparr>rho = 3.5, sigma = 2400000\<rparr>"
  let ?lead = "\<lparr>mat_K = 41, mat_beta = 230, sigmaC = 1450000, rho20 = 21.4 / 10 ^ 8\<rparr>"
  have box: "in_box 20 2"
    unfolding in_box_def by simp
  have u: "(0::real) \<le> 1 / 2 ^ 53" "(1::real) / 2 ^ 53 \<le> 1 / 40"
    by simp_all
  have 1: "\<exists>M. calculateM binary64 ''XLPE'' ''PE'' (Fin 2) ''lead'' (Fin 11) ''no'' = Some (Fin M)
      \<and> \<bar>M - 0.7 * (sqrt (2400000 / 3.5) + sqrt (2400000 / 3.5)) / (2 * 1450000 * 2 * (1 / 1000))\<bar>
          \<le> 20 * (1 / 2 ^ 53)
             * (0.7 * (sqrt (2400000 / 3.5) + sqrt (2400000 / 3.5))
                 / (2 * 1450000 * 2 * (1 / 1000)))"
    using calculateM_formula [where im = "''XLPE''" and om = "''PE''" and sm = "''lead''"
        and v = "Fin 11" and ins = ?c and out = ?c and sh = ?lead and \<delta> = 2 and fp = binary64
        and u = "1 / 2 ^ 53", THEN conjunct2, THEN conjunct2, THEN conjunct1, THEN mp]
      example_lookups(2,3,4) box u binary64_accurate
    by simp
  have 2: "calculateM unrounded ''XLPE'' ''PE'' (Fin 2) ''lead'' (Fin 11) ''no''
       = Some (Fin (0.7 * (sqrt (2400000 / 3.5) + sqrt (2400000 / 3.5))
                     / (2 * 1450000 * 2 * (1 / 1000))))"
    using calculateM_formula [where im = "''XLPE''" and om = "''PE''" and sm = "''lead''"
        and v = "Fin 11" and ins = ?c and out = ?c and sh = ?lead and \<delta> = 2 and fp = unrounded,
        THEN conjunct2, THEN conjunct2, THEN conjunct2, THEN conjunct1, THEN mp]
      example_lookups(2,3,4) exact_unrounded
    by simp
  have 3: "calculateM unrounded ''XLPE'' ''PE'' (Fin 0) ''lead'' (Fin 11) ''no'' = None"
    using calculateM_formula [where im = "''XLPE''" and om = "''PE''" and sm = "''lead''"
        and v = "Fin 11" and th = "Fin 0" and oil = "''no''" and fp = unrounded,
        THEN conjunct2, THEN conjunct1]
      example_lookups(4)
    by (simp add: exact_simps [OF exact_unrounded])
  have 4: "calculateM binary64 ''XLPE'' ''PE'' (Fin 2) ''copper'' (Fin 11) ''no'' = None"
    using calculateM_formula [where im = "''XLPE''" and om = "''PE''" and sm = "''copper''"
        and v = "Fin 11" and th = "Fin 2" and oil = "''no''" and fp = binary64,
        THEN conjunct2, THEN conjunct1]
      example_lookups(5)
    by simp
  have 5: "calculateM binary64 ''XLPE'' ''PE'' (Fin 2) ''constructor'' (Fin 11) ''no'' = Some NaN"
    using calculateM_formula [where im = "''XLPE''" and om = "''PE''" and sm = "''constructor''"
        and v = "Fin 11" and ins = ?c and out = ?c and th = "Fin 2" and fp = binary64,
        THEN conjunct2, THEN conjunct2, THEN conjunct2, THEN conjunct2, THEN mp]
      example_lookups(2,3,6)
    by simp
  show ?thesis
    using 1 2 3 4 5 by blast
qed




subsection \<open>Sheath geometry\<close>

text \<open>
  C6. For \<open>Do > Di > 0\<close> the thickness field is set to \<open>(Do - Di) / 2\<close>
  printed with three decimals and the area field to \<open>(pi / 4) * (Do^2 - Di^2)\<close> printed
  with two, each computed in the arithmetic of the unit (in exact arithmetic they are the
  real numbers so written), and no border is flagged. For two positive diameters with
  \<open>Do \<le> Di\<close> both fields are emptied and both diameter inputs get a red border. When a
  diameter is not a number or not positive, both fields are emptied and no border is
  flagged.
\<close>

theorem updateSheathGeometry_cases:
  "(parseFloat fp (el_sheathOuterD d) = Fin outer \<and> parseFloat fp (el_sheathInnerD d) = Fin inner
      \<and> 0 < inner \<and> inner < outer
    \<longrightarrow> el_sheathThickness (updateSheathGeometry fp d)
          = Shown (ToFixed (js_div fp (js_sub fp (Fin outer) (Fin inner)) (Fin 2)) 3)
        \<and> el_sheathAreaGiven (updateSheathGeometry fp d)
            = Shown (ToFixed (js_mul fp (js_div fp (Math_PI fp) (Fin 4))
                (js_sub fp (js_mul fp (Fin outer) (Fin outer))
                   (js_mul fp (Fin inner) (Fin inner)))) 2)
        \<and> (exact fp
            \<longrightarrow> el_sheathThickness (updateSheathGeometry fp d)
                  = Shown (ToFixed (Fin ((outer - inner) / 2)) 3)
                \<and> el_sheathAreaGiven (updateSheathGeometry fp d)
                  = Shown (ToFixed (Fin (pi / 4 * (outer * outer - inner * inner))) 2))
        \<and> el_sheathOuterD_borderColor (updateSheathGeometry fp d) = []
        \<and> el_sheathInnerD_borderColor (updateSheathGeometry fp d) = [])
   \<and> (parseFloat fp (el_sheathOuterD d) = Fin outer \<and> parseFloat fp (el_sheathInnerD d) = Fin inner
      \<and> 0 < outer \<and> outer \<le> inner
    \<longrightarrow> el_sheathThickness (updateSheathGeometry fp d) = Blank
        \<and> el_sheathAreaGiven (updateSheathGeometry fp d) = Blank
        \<and> el_sheathOuterD_borderColor (updateSheathGeometry fp d) = ''red''
        \<and> el_sheathInnerD_borderColor (updateSheathGeometry fp d) = ''red'')
   \<and> (isNaN (parseFloat fp (el_sheathOuterD d)) \<or> isNaN (parseFloat fp (el_sheathInnerD d))
      \<or> js_le (parseFloat fp (el_sheathOuterD d)) (Fin 0)
      \<or> js_le (parseFloat fp (el_sheathInnerD d)) (Fin 0)
    \<longrightarrow> el_sheathThickness (updateSheathGeometry fp d) = Blank
        \<and> el_sheathAreaGiven (updateSheathGeometry fp d) = Blank
        \<and> el_sheathOuterD_borderColor (updateSheathGeometry fp d) = []
        \<and> el_sheathInnerD_borderColor (updateSheathGeometry fp d) = [])"
proof -
  have le_gt: "js_le x (Fin 0) \<Longrightarrow> \<not> js_gt x (Fin 0)" for x
    by (cases x) (simp_all add: js_gt_def)
  show ?thesis
    unfolding updateSheathGeometry_def Let_def
    by (auto simp: js_gt_def js_sub_def exact_simps dest: le_gt)
qed

theorem updateSheathGeometry_cases_witness:
  "el_sheathThickness (updateSheathGeometry binary64 example_page)
     = Shown (ToFixed (js_div binary64 (js_sub binary64 (Fin 44) (Fin 40)) (Fin 2)) 3)
   \<and> el_sheathThickness (updateSheathGeometry unrounded example_page) = Shown (ToFixed (Fin 2) 3)
   \<and> el_sheathAreaGiven (updateSheathGeometry unrounded example_page)
       = Shown (ToFixed (Fin (pi / 4 * (44 * 44 - 40 * 40))) 2)
   \<and> el_sheathOuterD_borderColor
        (updateSheathGeometry binary64 (example_page\<lparr>el_sheathOuterD := Typed (Fin 40)\<rparr>))
       = ''red''
   \<and> el_sheathThickness
        (updateSheathGeometry binary64 (example_page\<lparr>el_sheathOuterD := Blank\<rparr>)) = Blank
   \<and> el_sheathOuterD_borderColor
        (updateSheathGeometry binary64 (example_page\<lparr>el_sheathOuterD := Blank\<rparr>)) = []"
proof -
  have p: "parseFloat fp (el_sheathOuterD example_page) = Fin 44"
    "parseFloat fp (el_sheathInnerD example_page) = Fin 40"
    "parseFloat fp (el_sheathOuterD (example_page\<lparr>el_sheathOuterD := Typed (Fin 40)\<rparr>)) = Fin 40"
    "parseFloat fp (el_sheathInnerD (example_page\<lparr>el_sheathOuterD := Typed (Fin 40)\<rparr>)) = Fin 40"
    "isNaN (parseFloat fp (el_sheathOuterD (example_page\<lparr>el_sheathOuterD := Blank\<rparr>)))" for fp
    by (simp_all add: example_page_def)
  have 1: "el_sheathThickness (updateSheathGeometry binary64 example_page)
     = Shown (ToFixed (js_div binary64 (js_sub binary64 (Fin 44) (Fin 40)) (Fin 2)) 3)"
    using updateSheathGeometry_cases [of binary64 example_page 44 40, THEN conjunct1] p(1,2)
    by simp
  have 2: "el_sheathThickness (updateSheathGeometry unrounded example_page)
        = Shown (ToFixed (Fin 2) 3)
      \<and> el_sheathAreaGiven (updateSheathGeometry unrounded example_page)
        = Shown (ToFixed (Fin (pi / 4 * (44 * 44 - 40 * 40))) 2)"
    using updateSheathGeometry_cases [of unrounded example_page 44 40, THEN conjunct1] p(1,2)
      exact_unrounded
    by (simp add: exact_simps [OF exact_unrounded] js_sub_def)
  have 3: "el_sheathOuterD_borderColor
        (updateSheathGeometry binary64 (example_page\<lparr>el_sheathOuterD := Typed (Fin 40)\<rparr>))
       = ''red''"
    using updateSheathGeometry_cases
      [of binary64 "example_page\<lparr>el_sheathOuterD := Typed (Fin 40)\<rparr>" 40 40,
        THEN conjunct2, THEN conjunct1] p(3,4)
    by simp
  have 4: "el_sheathThickness
        (updateSheathGeometry binary64 (example_page\<lparr>el_sheathOuterD := Blank\<rparr>)) = Blank
      \<and> el_sheathOuterD_borderColor
        (updateSheathGeometry binary64 (example_page\<lparr>el_sheathOuterD := Blank\<rparr>)) = []"
    using updateSheathGeometry_cases
      [of binary64 "example_page\<lparr>el_sheathOuterD := Blank\<rparr>" 0 0,
        THEN conjunct2, THEN conjunct2] p(5)
    by simp
  show ?thesis
    using 1 2 3 4 by blast
qed

text \<open>
  An outer diameter of zero against an inner diameter of 40: \<open>Do \<le> Di\<close>, the fields are
  emptied, and neither input is flagged.
\<close>

theorem updateSheathGeometry_zero_outer_not_flagged:
  "js_le (parseFloat binary64
            (el_sheathOuterD (example_page\<lparr>el_sheathOuterD := Typed (Fin 0)\<rparr>)))
     (parseFloat binary64 (el_sheathInnerD (example_page\<lparr>el_sheathOuterD := Typed (Fin 0)\<rparr>)))
   \<and> el_sheathThickness
        (updateSheathGeometry binary64 (example_page\<lparr>el_sheathOuterD := Typed (Fin 0)\<rparr>))
       = Blank
   \<and> el_sheathOuterD_borderColor
        (updateSheathGeometry binary64 (example_page\<lparr>el_sheathOuterD := Typed (Fin 0)\<rparr>))
       \<noteq> ''red''
   \<and> el_sheathInnerD_borderColor
        (updateSheathGeometry binary64 (example_page\<lparr>el_sheathOuterD := Typed (Fin 0)\<rparr>))
       \<noteq> ''red''"
  by (simp add: updateSheathGeometry_def example_page_def js_gt_def)

subsection \<open>Validation\<close>

text \<open>
  C7. On real (finite, non-NaN) arguments \<open>validateVoltageTime\<close> accepts exactly
  \<open>0 < voltageKv \<le> 400\<close> with \<open>0 < t \<le> 10\<close>: both upper bounds pass, \<open>400.01\<close> and
  \<open>10.01\<close> fail, and so does any non-positive voltage or time.
\<close>

theorem validateVoltageTime_range:
  "(validateVoltageTime (Fin v) (Fin t) \<longleftrightarrow> 0 < v \<and> v \<le> 400 \<and> 0 < t \<and> t \<le> 10)
   \<and> validateVoltageTime (Fin 400) (Fin 10)
   \<and> \<not> validateVoltageTime (Fin 400.01) (Fin 10)
   \<and> \<not> validateVoltageTime (Fin 400) (Fin 10.01)
   \<and> \<not> validateVoltageTime (Fin 0) (Fin 10)
   \<and> \<not> validateVoltageTime (Fin (- 1)) (Fin 10)
   \<and> \<not> validateVoltageTime (Fin 400) (Fin 0)"
  by (auto simp: validateVoltageTime_def js_gt_def)

text \<open>
  C10. A \<open>NaN\<close> argument never makes \<open>validateVoltageTime\<close> fail: with a
  \<open>NaN\<close> voltage the result is true exactly when the time passes its own two checks, with
  a \<open>NaN\<close> time exactly when the voltage passes its own, and it is true when both are
  \<open>NaN\<close>. The \<open>NaN\<close> inputs are turned away by the callers, before the call:
  \<open>calculateConductorAreaFromCurrent\<close> returns \<open>null\<close> and the sheath handler returns
  without a result, in every floating-point unit.
\<close>

theorem validateVoltageTime_NaN:
  "(validateVoltageTime NaN t \<longleftrightarrow> \<not> js_le t (Fin 0) \<and> \<not> js_gt t (Fin 10))
   \<and> (validateVoltageTime v NaN \<longleftrightarrow> \<not> js_le v (Fin 0) \<and> \<not> js_gt v (Fin 400))
   \<and> validateVoltageTime NaN NaN
   \<and> (isNaN (parseFloat fp (el_voltageKv d)) \<or> isNaN (parseFloat fp (el_timeSec d))
        \<longrightarrow> calculateConductorAreaFromCurrent fp d = None)
   \<and> (isNaN (parseFloat fp (el_sheathVoltageKv d)) \<or> isNaN (parseFloat fp (el_sheathTimeSec d))
        \<longrightarrow> sheathForm_submit fp d s = s)"
proof -
  have 1: "js_le v NaN = False" "js_lt NaN v = False" for v
    by (cases v; simp)+
  show ?thesis
    unfolding validateVoltageTime_def calculateConductorAreaFromCurrent_def
      sheathForm_submit_def Let_def js_gt_def
    by (auto simp: 1)
qed

theorem validateVoltageTime_NaN_witness:
  "validateVoltageTime NaN (Fin 1) \<and> validateVoltageTime (Fin 11) NaN
   \<and> validateVoltageTime NaN NaN
   \<and> calculateConductorAreaFromCurrent binary64 (example_page\<lparr>el_voltageKv := Blank\<rparr>) = None
   \<and> sheathForm_submit binary64 (example_page\<lparr>el_sheathTimeSec := Typed NaN\<rparr>) initial_state
        = initial_state"
  using validateVoltageTime_NaN
      [of "Fin 1" "Fin 11" binary64 "example_page\<lparr>el_voltageKv := Blank\<rparr>"]
    validateVoltageTime_NaN
      [of "Fin 1" "Fin 11" binary64 "example_page\<lparr>el_sheathTimeSec := Typed NaN\<rparr>"
        initial_state]
  by (simp add: js_gt_def)

text \<open>
  With a \<open>NaN\<close> argument the function still returns \<open>false\<close> when the other argument is
  out of range.
\<close>

theorem validateVoltageTime_NaN_rejects:
  "isNaN NaN \<and> \<not> validateVoltageTime NaN (Fin 20) \<and> \<not> validateVoltageTime (Fin 500) NaN"
  by (simp add: validateVoltageTime_def js_gt_def)

subsection \<open>Failed submissions\<close>

text \<open>
  C9. With \<open>beta = -100\<close> (and the other conductor inputs of the example, no candidate
  area) the ratio \<open>(250 + beta) / (90 + beta)\<close> is negative and its logarithm is \<open>NaN\<close>.
  Neither \<open>lnTerm <= 0\<close> nor \<open>S_sq <= 0\<close> holds of \<open>NaN\<close>, so
  \<open>calculateConductorAreaFromCurrent\<close> returns \<open>NaN\<close> and not \<open>null\<close>, and the handler, on a
  fresh page, stores a conductor bundle whose area and current are \<open>NaN\<close> and marks the
  conductor stage as calculated.
\<close>

theorem failed_submission_stores_NaN:
  "calculateConductorAreaFromCurrent binary64 invalid_beta_page = Some NaN
   \<and> conductorData (conductorForm_submit binary64 invalid_beta_page initial_state) \<noteq> None
   \<and> map_option cd_area (conductorData (conductorForm_submit binary64 invalid_beta_page initial_state))
       = Some NaN
   \<and> map_option cd_i_ad (conductorData (conductorForm_submit binary64 invalid_beta_page initial_state))
       = Some (ToFixed NaN 3)
   \<and> conductorCalculated (conductorForm_submit binary64 invalid_beta_page initial_state)
   \<and> conductorData initial_state = None \<and> \<not> conductorCalculated initial_state"
proof -
  have u: "(0::real) \<le> 1 / 2 ^ 53" "(1::real) / 2 ^ 53 \<le> 1 / 2"
    by simp_all
  have box: "in_box 11 (250 + - 100)" "in_box 11 (- (90 + - 100))"
    unfolding in_box_def by simp_all
  have l: "Math_log binary64 (js_div binary64 (js_add binary64 (Fin 250) (Fin (- 100)))
             (js_add binary64 (Fin 90) (Fin (- 100)))) = NaN"
    using u binary64_accurate box by (rule lnTerm_negative_ratio)
  have l': "Math_log binary64 (js_div binary64 (rnd binary64 150) (rnd binary64 (- 10))) = NaN"
    using l by simp
  have a: "calculateConductorAreaFromCurrent binary64 invalid_beta_page = Some NaN"
    by (rule conductor_area_NaN [where v = 11 and c = 25 and t = 1 and k = 226 and b = "- 100"])
       (simp_all add: invalid_beta_page_def example_page_def l')
  have f: "el_conductorMode invalid_beta_page = ''area-from-current''"
    "el_givenConductorArea invalid_beta_page = Blank"
    "el_voltageKv invalid_beta_page = Typed (Fin 11)"
    "el_sccKa invalid_beta_page = Typed (Fin 25)"
    "el_timeSec invalid_beta_page = Typed (Fin 1)"
    "el_kValue invalid_beta_page = Typed (Fin 226)"
    "el_beta invalid_beta_page = Typed (Fin (- 100))"
    "el_material invalid_beta_page = ''copper''"
    "el_insulationMaterial invalid_beta_page = ''XLPE''"
    "el_outerSheathMaterial invalid_beta_page = ''PE''"
    by (simp_all add: invalid_beta_page_def example_page_def)
  have s: "conductorForm_submit binary64 invalid_beta_page initial_state
       = initial_state
          \<lparr>conductorData := Some
             \<lparr>cd_voltage = Fin 11, cd_area = NaN, cd_material = ''copper'',
              cd_insulation = ''XLPE'', cd_outer_sheath = ''PE'', cd_scc_required = Fin 25,
              cd_time = Fin 1, cd_theta_i = Fin 90, cd_theta_f = Fin 250, cd_beta = Fin (- 100),
              cd_k_value = Fin 226, cd_i_ad = ToFixed NaN 3\<rparr>,
           conductorCalculated := True,
           btnDownloadConductor_display := ''inline-block'',
           resultText := [Heading ''Conductor Calculation Results'',
              Quantity ''Required cross-sectional area S:'' (ToFixed NaN 2) ''mm2''],
           resultBox_display := ''block''\<rparr>"
    unfolding conductorForm_submit_def Let_def
    by (subst conductor_chain_area [where a = NaN])
       (simp_all add: a f l' js_mul_NaN_right js_div_NaN_right)
  show ?thesis
    unfolding s using a by (simp add: initial_state_def)
qed

end
